theory Spec2Isabelle
  imports Complex_Main "HOL-Library.Word"
begin

unbundle bit_operations_syntax

section \<open>Marching Cubes: cube conventions and the hardcoded case table\<close>

text \<open>Corner and edge conventions shared by \<^verbatim>\<open>marching_cubes_3d.py\<close> and
  \<^verbatim>\<open>marching_cubes_gen.py\<close>: corner \<open>v\<close> of the unit cube and the pair of corners
  joined by edge \<open>e\<close>.\<close>

definition VERTICES :: "(nat \<times> nat \<times> nat) list" where
  "VERTICES = [(0, 0, 0), (1, 0, 0), (1, 1, 0), (0, 1, 0),
               (0, 0, 1), (1, 0, 1), (1, 1, 1), (0, 1, 1)]"

definition EDGES :: "(nat \<times> nat) list" where
  "EDGES = [(0, 1), (1, 2), (2, 3), (3, 0),
            (4, 5), (5, 6), (6, 7), (7, 4),
            (0, 4), (1, 5), (2, 6), (3, 7)]"

text \<open>The Python test \<^verbatim>\<open>2**v & bits > 0\<close>: corner \<open>v\<close> is solid under the bitmask.\<close>

definition solid :: "nat \<Rightarrow> nat \<Rightarrow> bool" where
  "solid bits v = ((2 ^ v AND bits) > 0)"

text \<open>The table \<^verbatim>\<open>cases\<close> of \<^verbatim>\<open>marching_cubes_3d.py\<close>, entry by entry: index = bitmask of
  the solid corners, value = the triangles, each a triple of edge identifiers.\<close>

definition cases :: "nat list list list" where
  "cases =
 [[],
 [[8, 0, 3]],
 [[1, 0, 9]],
 [[8, 1, 3], [8, 9, 1]],
 [[10, 2, 1]],
 [[8, 0, 3], [1, 10, 2]],
 [[9, 2, 0], [9, 10, 2]],
 [[3, 8, 2], [2, 8, 10], [10, 8, 9]],
 [[3, 2, 11]],
 [[0, 2, 8], [2, 11, 8]],
 [[1, 0, 9], [2, 11, 3]],
 [[2, 9, 1], [11, 9, 2], [8, 9, 11]],
 [[3, 10, 11], [3, 1, 10]],
 [[1, 10, 0], [0, 10, 8], [8, 10, 11]],
 [[0, 11, 3], [9, 11, 0], [10, 11, 9]],
 [[8, 9, 11], [11, 9, 10]],
 [[7, 4, 8]],
 [[3, 7, 0], [7, 4, 0]],
 [[7, 4, 8], [9, 1, 0]],
 [[9, 1, 4], [4, 1, 7], [7, 1, 3]],
 [[7, 4, 8], [2, 1, 10]],
 [[4, 3, 7], [4, 0, 3], [2, 1, 10]],
 [[2, 0, 10], [0, 9, 10], [7, 4, 8]],
 [[9, 10, 4], [4, 10, 3], [3, 10, 2], [4, 3, 7]],
 [[4, 8, 7], [3, 2, 11]],
 [[7, 4, 11], [11, 4, 2], [2, 4, 0]],
 [[1, 0, 9], [2, 11, 3], [8, 7, 4]],
 [[2, 11, 1], [1, 11, 9], [9, 11, 7], [9, 7, 4]],
 [[10, 11, 1], [11, 3, 1], [4, 8, 7]],
 [[4, 0, 7], [7, 0, 10], [0, 1, 10], [7, 10, 11]],
 [[7, 4, 8], [0, 11, 3], [9, 11, 0], [10, 11, 9]],
 [[4, 11, 7], [9, 11, 4], [10, 11, 9]],
 [[9, 4, 5]],
 [[9, 4, 5], [0, 3, 8]],
 [[0, 5, 1], [0, 4, 5]],
 [[4, 3, 8], [5, 3, 4], [1, 3, 5]],
 [[5, 9, 4], [10, 2, 1]],
 [[8, 0, 3], [1, 10, 2], [4, 5, 9]],
 [[10, 4, 5], [2, 4, 10], [0, 4, 2]],
 [[3, 10, 2], [8, 10, 3], [5, 10, 8], [4, 5, 8]],
 [[9, 4, 5], [11, 3, 2]],
 [[11, 0, 2], [11, 8, 0], [9, 4, 5]],
 [[5, 1, 4], [1, 0, 4], [11, 3, 2]],
 [[5, 1, 4], [4, 1, 11], [1, 2, 11], [4, 11, 8]],
 [[3, 10, 11], [3, 1, 10], [5, 9, 4]],
 [[9, 4, 5], [1, 10, 0], [0, 10, 8], [8, 10, 11]],
 [[5, 0, 4], [11, 0, 5], [11, 3, 0], [10, 11, 5]],
 [[5, 10, 4], [4, 10, 8], [8, 10, 11]],
 [[9, 7, 5], [9, 8, 7]],
 [[0, 5, 9], [3, 5, 0], [7, 5, 3]],
 [[8, 7, 0], [0, 7, 1], [1, 7, 5]],
 [[7, 5, 3], [3, 5, 1]],
 [[7, 5, 8], [5, 9, 8], [2, 1, 10]],
 [[10, 2, 1], [0, 5, 9], [3, 5, 0], [7, 5, 3]],
 [[8, 2, 0], [5, 2, 8], [10, 2, 5], [7, 5, 8]],
 [[2, 3, 10], [10, 3, 5], [5, 3, 7]],
 [[9, 7, 5], [9, 8, 7], [11, 3, 2]],
 [[0, 2, 9], [9, 2, 7], [7, 2, 11], [9, 7, 5]],
 [[3, 2, 11], [8, 7, 0], [0, 7, 1], [1, 7, 5]],
 [[11, 1, 2], [7, 1, 11], [5, 1, 7]],
 [[3, 1, 11], [11, 1, 10], [8, 7, 9], [9, 7, 5]],
 [[11, 7, 0], [7, 5, 0], [5, 9, 0], [10, 11, 0], [1, 10, 0]],
 [[0, 5, 10], [0, 7, 5], [0, 8, 7], [0, 10, 11], [0, 11, 3]],
 [[10, 11, 5], [11, 7, 5]],
 [[5, 6, 10]],
 [[8, 0, 3], [10, 5, 6]],
 [[0, 9, 1], [5, 6, 10]],
 [[8, 1, 3], [8, 9, 1], [10, 5, 6]],
 [[1, 6, 2], [1, 5, 6]],
 [[6, 2, 5], [2, 1, 5], [8, 0, 3]],
 [[5, 6, 9], [9, 6, 0], [0, 6, 2]],
 [[5, 8, 9], [2, 8, 5], [3, 8, 2], [6, 2, 5]],
 [[3, 2, 11], [10, 5, 6]],
 [[0, 2, 8], [2, 11, 8], [5, 6, 10]],
 [[3, 2, 11], [0, 9, 1], [10, 5, 6]],
 [[5, 6, 10], [2, 9, 1], [11, 9, 2], [8, 9, 11]],
 [[11, 3, 6], [6, 3, 5], [5, 3, 1]],
 [[11, 8, 6], [6, 8, 1], [1, 8, 0], [6, 1, 5]],
 [[5, 0, 9], [6, 0, 5], [3, 0, 6], [11, 3, 6]],
 [[6, 9, 5], [11, 9, 6], [8, 9, 11]],
 [[7, 4, 8], [6, 10, 5]],
 [[3, 7, 0], [7, 4, 0], [10, 5, 6]],
 [[7, 4, 8], [6, 10, 5], [9, 1, 0]],
 [[5, 6, 10], [9, 1, 4], [4, 1, 7], [7, 1, 3]],
 [[1, 6, 2], [1, 5, 6], [7, 4, 8]],
 [[6, 1, 5], [2, 1, 6], [0, 7, 4], [3, 7, 0]],
 [[4, 8, 7], [5, 6, 9], [9, 6, 0], [0, 6, 2]],
 [[2, 3, 9], [3, 7, 9], [7, 4, 9], [6, 2, 9], [5, 6, 9]],
 [[2, 11, 3], [7, 4, 8], [10, 5, 6]],
 [[6, 10, 5], [7, 4, 11], [11, 4, 2], [2, 4, 0]],
 [[1, 0, 9], [8, 7, 4], [3, 2, 11], [5, 6, 10]],
 [[1, 2, 9], [9, 2, 11], [9, 11, 4], [4, 11, 7], [5, 6, 10]],
 [[7, 4, 8], [11, 3, 6], [6, 3, 5], [5, 3, 1]],
 [[11, 0, 1], [11, 4, 0], [11, 7, 4], [11, 1, 5], [11, 5, 6]],
 [[6, 9, 5], [0, 9, 6], [11, 0, 6], [3, 0, 11], [4, 8, 7]],
 [[5, 6, 9], [9, 6, 11], [9, 11, 7], [9, 7, 4]],
 [[4, 10, 9], [4, 6, 10]],
 [[10, 4, 6], [10, 9, 4], [8, 0, 3]],
 [[1, 0, 10], [10, 0, 6], [6, 0, 4]],
 [[8, 1, 3], [6, 1, 8], [6, 10, 1], [4, 6, 8]],
 [[9, 2, 1], [4, 2, 9], [6, 2, 4]],
 [[3, 8, 0], [9, 2, 1], [4, 2, 9], [6, 2, 4]],
 [[0, 4, 2], [2, 4, 6]],
 [[8, 2, 3], [4, 2, 8], [6, 2, 4]],
 [[4, 10, 9], [4, 6, 10], [2, 11, 3]],
 [[11, 8, 2], [2, 8, 0], [6, 10, 4], [4, 10, 9]],
 [[2, 11, 3], [1, 0, 10], [10, 0, 6], [6, 0, 4]],
 [[8, 4, 1], [4, 6, 1], [6, 10, 1], [11, 8, 1], [2, 11, 1]],
 [[3, 1, 11], [11, 1, 4], [1, 9, 4], [11, 4, 6]],
 [[6, 11, 1], [11, 8, 1], [8, 0, 1], [4, 6, 1], [9, 4, 1]],
 [[3, 0, 11], [11, 0, 6], [6, 0, 4]],
 [[4, 11, 8], [4, 6, 11]],
 [[6, 8, 7], [10, 8, 6], [9, 8, 10]],
 [[3, 7, 0], [0, 7, 10], [7, 6, 10], [0, 10, 9]],
 [[1, 6, 10], [0, 6, 1], [7, 6, 0], [8, 7, 0]],
 [[10, 1, 6], [6, 1, 7], [7, 1, 3]],
 [[9, 8, 1], [1, 8, 6], [6, 8, 7], [1, 6, 2]],
 [[9, 7, 6], [9, 3, 7], [9, 0, 3], [9, 6, 2], [9, 2, 1]],
 [[7, 6, 8], [8, 6, 0], [0, 6, 2]],
 [[3, 6, 2], [3, 7, 6]],
 [[3, 2, 11], [6, 8, 7], [10, 8, 6], [9, 8, 10]],
 [[7, 9, 0], [7, 10, 9], [7, 6, 10], [7, 0, 2], [7, 2, 11]],
 [[0, 10, 1], [6, 10, 0], [8, 6, 0], [7, 6, 8], [2, 11, 3]],
 [[1, 6, 10], [7, 6, 1], [11, 7, 1], [2, 11, 1]],
 [[1, 9, 6], [9, 8, 6], [8, 7, 6], [3, 1, 6], [11, 3, 6]],
 [[9, 0, 1], [11, 7, 6]],
 [[0, 11, 3], [6, 11, 0], [7, 6, 0], [8, 7, 0]],
 [[7, 6, 11]],
 [[11, 6, 7]],
 [[3, 8, 0], [11, 6, 7]],
 [[1, 0, 9], [6, 7, 11]],
 [[1, 3, 9], [3, 8, 9], [6, 7, 11]],
 [[10, 2, 1], [6, 7, 11]],
 [[10, 2, 1], [3, 8, 0], [6, 7, 11]],
 [[9, 2, 0], [9, 10, 2], [11, 6, 7]],
 [[11, 6, 7], [3, 8, 2], [2, 8, 10], [10, 8, 9]],
 [[2, 6, 3], [6, 7, 3]],
 [[8, 6, 7], [0, 6, 8], [2, 6, 0]],
 [[7, 2, 6], [7, 3, 2], [1, 0, 9]],
 [[8, 9, 7], [7, 9, 2], [2, 9, 1], [7, 2, 6]],
 [[6, 1, 10], [7, 1, 6], [3, 1, 7]],
 [[8, 0, 7], [7, 0, 6], [6, 0, 1], [6, 1, 10]],
 [[7, 3, 6], [6, 3, 9], [3, 0, 9], [6, 9, 10]],
 [[7, 8, 6], [6, 8, 10], [10, 8, 9]],
 [[8, 11, 4], [11, 6, 4]],
 [[11, 0, 3], [6, 0, 11], [4, 0, 6]],
 [[6, 4, 11], [4, 8, 11], [1, 0, 9]],
 [[1, 3, 9], [9, 3, 6], [3, 11, 6], [9, 6, 4]],
 [[8, 11, 4], [11, 6, 4], [1, 10, 2]],
 [[1, 10, 2], [11, 0, 3], [6, 0, 11], [4, 0, 6]],
 [[2, 9, 10], [0, 9, 2], [4, 11, 6], [8, 11, 4]],
 [[3, 4, 9], [3, 6, 4], [3, 11, 6], [3, 9, 10], [3, 10, 2]],
 [[3, 2, 8], [8, 2, 4], [4, 2, 6]],
 [[2, 4, 0], [6, 4, 2]],
 [[0, 9, 1], [3, 2, 8], [8, 2, 4], [4, 2, 6]],
 [[1, 2, 9], [9, 2, 4], [4, 2, 6]],
 [[10, 3, 1], [4, 3, 10], [4, 8, 3], [6, 4, 10]],
 [[10, 0, 1], [6, 0, 10], [4, 0, 6]],
 [[3, 10, 6], [3, 9, 10], [3, 0, 9], [3, 6, 4], [3, 4, 8]],
 [[9, 10, 4], [10, 6, 4]],
 [[9, 4, 5], [7, 11, 6]],
 [[9, 4, 5], [7, 11, 6], [0, 3, 8]],
 [[0, 5, 1], [0, 4, 5], [6, 7, 11]],
 [[11, 6, 7], [4, 3, 8], [5, 3, 4], [1, 3, 5]],
 [[1, 10, 2], [9, 4, 5], [6, 7, 11]],
 [[8, 0, 3], [4, 5, 9], [10, 2, 1], [11, 6, 7]],
 [[7, 11, 6], [10, 4, 5], [2, 4, 10], [0, 4, 2]],
 [[8, 2, 3], [10, 2, 8], [4, 10, 8], [5, 10, 4], [11, 6, 7]],
 [[2, 6, 3], [6, 7, 3], [9, 4, 5]],
 [[5, 9, 4], [8, 6, 7], [0, 6, 8], [2, 6, 0]],
 [[7, 3, 6], [6, 3, 2], [4, 5, 0], [0, 5, 1]],
 [[8, 1, 2], [8, 5, 1], [8, 4, 5], [8, 2, 6], [8, 6, 7]],
 [[9, 4, 5], [6, 1, 10], [7, 1, 6], [3, 1, 7]],
 [[7, 8, 6], [6, 8, 0], [6, 0, 10], [10, 0, 1], [5, 9, 4]],
 [[3, 0, 10], [0, 4, 10], [4, 5, 10], [7, 3, 10], [6, 7, 10]],
 [[8, 6, 7], [10, 6, 8], [5, 10, 8], [4, 5, 8]],
 [[5, 9, 6], [6, 9, 11], [11, 9, 8]],
 [[11, 6, 3], [3, 6, 0], [0, 6, 5], [0, 5, 9]],
 [[8, 11, 0], [0, 11, 5], [5, 11, 6], [0, 5, 1]],
 [[6, 3, 11], [5, 3, 6], [1, 3, 5]],
 [[10, 2, 1], [5, 9, 6], [6, 9, 11], [11, 9, 8]],
 [[3, 11, 0], [0, 11, 6], [0, 6, 9], [9, 6, 5], [1, 10, 2]],
 [[0, 8, 5], [8, 11, 5], [11, 6, 5], [2, 0, 5], [10, 2, 5]],
 [[11, 6, 3], [3, 6, 5], [3, 5, 10], [3, 10, 2]],
 [[3, 9, 8], [6, 9, 3], [5, 9, 6], [2, 6, 3]],
 [[9, 6, 5], [0, 6, 9], [2, 6, 0]],
 [[6, 5, 8], [5, 1, 8], [1, 0, 8], [2, 6, 8], [3, 2, 8]],
 [[2, 6, 1], [6, 5, 1]],
 [[6, 8, 3], [6, 9, 8], [6, 5, 9], [6, 3, 1], [6, 1, 10]],
 [[1, 10, 0], [0, 10, 6], [0, 6, 5], [0, 5, 9]],
 [[3, 0, 8], [6, 5, 10]],
 [[10, 6, 5]],
 [[5, 11, 10], [5, 7, 11]],
 [[5, 11, 10], [5, 7, 11], [3, 8, 0]],
 [[11, 10, 7], [10, 5, 7], [0, 9, 1]],
 [[5, 7, 10], [10, 7, 11], [9, 1, 8], [8, 1, 3]],
 [[2, 1, 11], [11, 1, 7], [7, 1, 5]],
 [[3, 8, 0], [2, 1, 11], [11, 1, 7], [7, 1, 5]],
 [[2, 0, 11], [11, 0, 5], [5, 0, 9], [11, 5, 7]],
 [[2, 9, 5], [2, 8, 9], [2, 3, 8], [2, 5, 7], [2, 7, 11]],
 [[10, 3, 2], [5, 3, 10], [7, 3, 5]],
 [[10, 0, 2], [7, 0, 10], [8, 0, 7], [5, 7, 10]],
 [[0, 9, 1], [10, 3, 2], [5, 3, 10], [7, 3, 5]],
 [[7, 8, 2], [8, 9, 2], [9, 1, 2], [5, 7, 2], [10, 5, 2]],
 [[3, 1, 7], [7, 1, 5]],
 [[0, 7, 8], [1, 7, 0], [5, 7, 1]],
 [[9, 5, 0], [0, 5, 3], [3, 5, 7]],
 [[5, 7, 9], [7, 8, 9]],
 [[4, 10, 5], [8, 10, 4], [11, 10, 8]],
 [[3, 4, 0], [10, 4, 3], [10, 5, 4], [11, 10, 3]],
 [[1, 0, 9], [4, 10, 5], [8, 10, 4], [11, 10, 8]],
 [[4, 3, 11], [4, 1, 3], [4, 9, 1], [4, 11, 10], [4, 10, 5]],
 [[1, 5, 2], [2, 5, 8], [5, 4, 8], [2, 8, 11]],
 [[5, 4, 11], [4, 0, 11], [0, 3, 11], [1, 5, 11], [2, 1, 11]],
 [[5, 11, 2], [5, 8, 11], [5, 4, 8], [5, 2, 0], [5, 0, 9]],
 [[5, 4, 9], [2, 3, 11]],
 [[3, 4, 8], [2, 4, 3], [5, 4, 2], [10, 5, 2]],
 [[5, 4, 10], [10, 4, 2], [2, 4, 0]],
 [[2, 8, 3], [4, 8, 2], [10, 4, 2], [5, 4, 10], [0, 9, 1]],
 [[4, 10, 5], [2, 10, 4], [1, 2, 4], [9, 1, 4]],
 [[8, 3, 4], [4, 3, 5], [5, 3, 1]],
 [[1, 5, 0], [5, 4, 0]],
 [[5, 0, 9], [3, 0, 5], [8, 3, 5], [4, 8, 5]],
 [[5, 4, 9]],
 [[7, 11, 4], [4, 11, 9], [9, 11, 10]],
 [[8, 0, 3], [7, 11, 4], [4, 11, 9], [9, 11, 10]],
 [[0, 4, 1], [1, 4, 11], [4, 7, 11], [1, 11, 10]],
 [[10, 1, 4], [1, 3, 4], [3, 8, 4], [11, 10, 4], [7, 11, 4]],
 [[9, 4, 1], [1, 4, 2], [2, 4, 7], [2, 7, 11]],
 [[1, 9, 2], [2, 9, 4], [2, 4, 11], [11, 4, 7], [3, 8, 0]],
 [[11, 4, 7], [2, 4, 11], [0, 4, 2]],
 [[7, 11, 4], [4, 11, 2], [4, 2, 3], [4, 3, 8]],
 [[10, 9, 2], [2, 9, 7], [7, 9, 4], [2, 7, 3]],
 [[2, 10, 7], [10, 9, 7], [9, 4, 7], [0, 2, 7], [8, 0, 7]],
 [[10, 4, 7], [10, 0, 4], [10, 1, 0], [10, 7, 3], [10, 3, 2]],
 [[8, 4, 7], [10, 1, 2]],
 [[4, 1, 9], [7, 1, 4], [3, 1, 7]],
 [[8, 0, 7], [7, 0, 1], [7, 1, 9], [7, 9, 4]],
 [[0, 7, 3], [0, 4, 7]],
 [[8, 4, 7]],
 [[9, 8, 10], [10, 8, 11]],
 [[3, 11, 0], [0, 11, 9], [9, 11, 10]],
 [[0, 10, 1], [8, 10, 0], [11, 10, 8]],
 [[11, 10, 3], [10, 1, 3]],
 [[1, 9, 2], [2, 9, 11], [11, 9, 8]],
 [[9, 2, 1], [11, 2, 9], [3, 11, 9], [0, 3, 9]],
 [[8, 2, 0], [8, 11, 2]],
 [[11, 2, 3]],
 [[2, 8, 3], [10, 8, 2], [9, 8, 10]],
 [[0, 2, 9], [2, 10, 9]],
 [[3, 2, 8], [8, 2, 10], [8, 10, 1], [8, 1, 0]],
 [[1, 2, 10]],
 [[3, 1, 8], [1, 9, 8]],
 [[9, 0, 1]],
 [[3, 0, 8]],
 []]"

subsection \<open>Validity of a table entry\<close>

text \<open>The body of \<^verbatim>\<open>test1\<close> of the generator, for one edge identifier of one triangle:
  the edge names an entry of \<open>EDGES\<close> whose two corners differ in solidity.\<close>

definition edge_separates :: "nat \<Rightarrow> nat \<Rightarrow> bool" where
  "edge_separates bits e =
     (e < length EDGES \<and> (case EDGES ! e of (v1, v2) \<Rightarrow> solid bits v1 \<noteq> solid bits v2))"

definition entry_separates :: "nat \<Rightarrow> nat list list \<Rightarrow> bool" where
  "entry_separates bits faces =
     list_all (\<lambda>face. length face = 3 \<and> list_all (edge_separates bits) face) faces"

text \<open>A predicate checked on every entry of a table together with its index.\<close>

fun all_entries :: "(nat \<Rightarrow> 'a \<Rightarrow> bool) \<Rightarrow> int \<Rightarrow> 'a list \<Rightarrow> bool" where
  "all_entries P n [] = True"
| "all_entries P n (c # cs) = (P (nat n) c \<and> all_entries P (n + 1) cs)"

subsection \<open>Two cubes sharing a face\<close>

text \<open>Cube \<open>B\<close> is the neighbour of cube \<open>A\<close> one cell further along \<open>axis\<close>
  (0 = x, 1 = y, 2 = z). The face of \<open>A\<close> with coordinate 1 on that axis is the face of \<open>B\<close>
  with coordinate 0. Everything is read off \<open>VERTICES\<close> and \<open>EDGES\<close>.\<close>

definition coord :: "nat \<Rightarrow> nat \<times> nat \<times> nat \<Rightarrow> nat" where
  "coord axis p = (case p of (a, b, c) \<Rightarrow> if axis = 0 then a else if axis = 1 then b else c)"

definition set_coord :: "nat \<Rightarrow> nat \<Rightarrow> nat \<times> nat \<times> nat \<Rightarrow> nat \<times> nat \<times> nat" where
  "set_coord axis k p = (case p of (a, b, c) \<Rightarrow>
     if axis = 0 then (k, b, c) else if axis = 1 then (a, k, c) else (a, b, k))"

definition vertex_index :: "nat \<times> nat \<times> nat \<Rightarrow> nat" where
  "vertex_index p = length (takeWhile (\<lambda>q. q \<noteq> p) VERTICES)"

text \<open>The edge identifier of an unordered corner pair (the generator's
  \<^verbatim>\<open>EDGES_BY_VERTSET[frozenset([v1, v2])]\<close>); \<open>None\<close> when no edge joins the corners
  (a \<^verbatim>\<open>KeyError\<close>).\<close>

definition EDGES_BY_VERTSET :: "nat \<Rightarrow> nat \<Rightarrow> nat option" where
  "EDGES_BY_VERTSET v1 v2 =
     (case filter (\<lambda>e. EDGES ! e = (v1, v2) \<or> EDGES ! e = (v2, v1)) [0..<length EDGES] of
        [] \<Rightarrow> None
      | es \<Rightarrow> Some (last es))"

definition on_face :: "nat \<Rightarrow> nat \<Rightarrow> nat \<Rightarrow> bool" where
  "on_face axis k v = (v < length VERTICES \<and> coord axis (VERTICES ! v) = k)"

definition edge_on_face :: "nat \<Rightarrow> nat \<Rightarrow> nat \<Rightarrow> bool" where
  "edge_on_face axis k e =
     (e < length EDGES \<and> (case EDGES ! e of (v1, v2) \<Rightarrow> on_face axis k v1 \<and> on_face axis k v2))"

text \<open>The corner of \<open>B\<close> that is the same grid point as corner \<open>v\<close> of \<open>A\<close> (for \<open>v\<close> on the
  shared face), and the edge of \<open>B\<close> that is the same grid edge as edge \<open>e\<close> of \<open>A\<close>.\<close>

definition across :: "nat \<Rightarrow> nat \<Rightarrow> nat" where
  "across axis v = vertex_index (set_coord axis 0 (VERTICES ! v))"

definition edge_across :: "nat \<Rightarrow> nat \<Rightarrow> nat" where
  "edge_across axis e =
     (case EDGES ! e of (v1, v2) \<Rightarrow> the (EDGES_BY_VERTSET (across axis v1) (across axis v2)))"

text \<open>The three sides of a triangle, each joining the crossing points of two cube edges. A side
  whose two cube edges both lie in a face is a segment drawn on that face; a segment is
  unordered, so it is stored with the smaller edge identifier first.\<close>

definition sides :: "nat list \<Rightarrow> (nat \<times> nat) list" where
  "sides face = [(face ! 0, face ! 1), (face ! 1, face ! 2), (face ! 2, face ! 0)]"

definition norm_seg :: "nat \<times> nat \<Rightarrow> nat \<times> nat" where
  "norm_seg s = (min (fst s) (snd s), max (fst s) (snd s))"

definition entry_segments :: "nat \<Rightarrow> nat \<Rightarrow> nat list list \<Rightarrow> (nat \<times> nat) list" where
  "entry_segments axis k faces =
     map norm_seg (filter (\<lambda>(a, b). edge_on_face axis k a \<and> edge_on_face axis k b)
       (concat (map sides faces)))"

definition face_segments :: "nat \<Rightarrow> nat \<Rightarrow> nat \<Rightarrow> (nat \<times> nat) list" where
  "face_segments axis k bits = entry_segments axis k (cases ! bits)"

text \<open>The segments cube \<open>A\<close> (bitmask \<open>bits\<close>) draws on the shared face, named by the edges
  of cube \<open>B\<close>.\<close>

definition carried_segments :: "nat \<Rightarrow> nat list list \<Rightarrow> (nat \<times> nat) list" where
  "carried_segments axis faces =
     map (\<lambda>(a, b). norm_seg (edge_across axis a, edge_across axis b)) (entry_segments axis 1 faces)"

definition shared_face_segments :: "nat \<Rightarrow> nat \<Rightarrow> (nat \<times> nat) list" where
  "shared_face_segments axis bits = carried_segments axis (cases ! bits)"

text \<open>Bitmask \<open>b1\<close> of \<open>A\<close> and bitmask \<open>b2\<close> of \<open>B\<close> agree on the four corners of the shared
  face.\<close>

definition faces_agree :: "nat \<Rightarrow> nat \<Rightarrow> nat \<Rightarrow> bool" where
  "faces_agree axis b1 b2 =
     (\<forall>v \<in> set [0..<length VERTICES]. on_face axis 1 v \<longrightarrow> solid b1 v = solid b2 (across axis v))"

subsection \<open>The pattern of a face\<close>

text \<open>The solidity of the four corners of the shared face: read in cube \<open>A\<close> (\<open>key_hi\<close>) and in
  cube \<open>B\<close> (\<open>key_lo\<close>), in the same order of grid points, and packed into a number below 16.\<close>

definition key_hi :: "nat \<Rightarrow> nat \<Rightarrow> bool list" where
  "key_hi axis bits = map (solid bits) (filter (on_face axis 1) [0..<length VERTICES])"

definition key_lo :: "nat \<Rightarrow> nat \<Rightarrow> bool list" where
  "key_lo axis bits =
     map (\<lambda>v. solid bits (across axis v)) (filter (on_face axis 1) [0..<length VERTICES])"

fun key_num :: "bool list \<Rightarrow> nat" where
  "key_num [] = 0"
| "key_num (b # bs) = (if b then 1 else 0) + 2 * key_num bs"

text \<open>Segments in a fixed order, so that two lists of segments with the same members in
  different orders are compared as equal.\<close>

fun seg_le :: "nat \<times> nat \<Rightarrow> nat \<times> nat \<Rightarrow> bool" where
  "seg_le (a, b) (c, d) = (a < c \<or> (a = c \<and> b \<le> d))"

fun seg_insert :: "nat \<times> nat \<Rightarrow> (nat \<times> nat) list \<Rightarrow> (nat \<times> nat) list" where
  "seg_insert s [] = [s]"
| "seg_insert s (t # ts) = (if seg_le s t then s # t # ts else t # seg_insert s ts)"

fun seg_sort :: "(nat \<times> nat) list \<Rightarrow> (nat \<times> nat) list" where
  "seg_sort [] = []"
| "seg_sort (s # ss) = seg_insert s (seg_sort ss)"

text \<open>For each axis, the segments on the face of \<open>B\<close> with coordinate 0 as a function of
  the pattern of that face. The table is a proof device: the theorems below show that every
  entry of \<open>cases\<close> draws exactly these segments, seen from either cube.\<close>

definition face_pattern :: "nat \<Rightarrow> (nat \<times> nat) list list" where
  "face_pattern axis =
    (if axis = 0 then
       [[], [(3, 8)], [(3, 11)], [(8, 11)], [(7, 8)], [(3, 7)], [(3, 11), (7, 8)], [(7, 11)],
        [(7, 11)], [(3, 8), (7, 11)], [(3, 7)], [(7, 8)], [(8, 11)], [(3, 11)], [(3, 8)], []]
     else if axis = 1 then
       [[], [(0, 9)], [(0, 8)], [(8, 9)], [(4, 9)], [(0, 4)], [(0, 8), (4, 9)], [(4, 8)],
        [(4, 8)], [(0, 9), (4, 8)], [(0, 4)], [(4, 9)], [(8, 9)], [(0, 8)], [(0, 9)], []]
     else
       [[], [(0, 3)], [(0, 1)], [(1, 3)], [(1, 2)], [(0, 3), (1, 2)], [(0, 2)], [(2, 3)],
        [(2, 3)], [(0, 2)], [(0, 1), (2, 3)], [(1, 2)], [(1, 3)], [(0, 1)], [(0, 3)], []])"

definition entry_matches_pattern :: "nat \<Rightarrow> nat \<Rightarrow> nat list list \<Rightarrow> bool" where
  "entry_matches_pattern axis bits faces =
     (seg_sort (carried_segments axis faces) = face_pattern axis ! key_num (key_hi axis bits) \<and>
      seg_sort (entry_segments axis 0 faces) = face_pattern axis ! key_num (key_lo axis bits))"

section \<open>Settings, errors and the edge interpolator\<close>

text \<open>The module \<^verbatim>\<open>settings.py\<close> holds global switches that the other modules read. They are
  passed explicitly here, so that every combination of them can be talked about.\<close>

record settings =
  ADAPTIVE :: bool
  CLIP :: bool
  BOUNDARY :: bool
  BIAS :: bool
  BIAS_STRENGTH :: real
  CELL_SIZE :: real

text \<open>The shipped values of \<^verbatim>\<open>settings.py\<close>.\<close>

definition default_settings :: settings where
  "default_settings =
     \<lparr>ADAPTIVE = True, CLIP = False, BOUNDARY = True, BIAS = True,
      BIAS_STRENGTH = 1 / 100, CELL_SIZE = 1\<rparr>"

text \<open>The Python exceptions that the modelled functions can raise.\<close>

datatype error = AssertionError | IndexError | KeyError | ValueError | TypeError | LinAlgError

text \<open>Sequencing of computations that may raise: the first exception wins.\<close>

definition bnd :: "error + 'a \<Rightarrow> ('a \<Rightarrow> error + 'b) \<Rightarrow> error + 'b" where
  "bnd m f = (case m of Inl e \<Rightarrow> Inl e | Inr v \<Rightarrow> f v)"

text \<open>\<^verbatim>\<open>adapt(v0, v1)\<close> of \<^verbatim>\<open>common.py\<close> (and its verbatim copy in
  \<^verbatim>\<open>marching_cubes_2d_prop.py\<close>). The two globals it reads, \<^verbatim>\<open>ADAPTIVE\<close> and
  \<^verbatim>\<open>CELL_SIZE\<close>, are its first two arguments. The \<^verbatim>\<open>assert\<close> is the first branch.\<close>

definition adapt :: "bool \<Rightarrow> real \<Rightarrow> real \<Rightarrow> real \<Rightarrow> error + real" where
  "adapt adaptive cell_size v0 v1 =
     (if (v1 > 0) = (v0 > 0) then Inl AssertionError
      else if adaptive then Inr ((0 - v0) / (v1 - v0) * cell_size)
      else Inr (0.5 * cell_size))"

section \<open>The case-table generator\<close>

text \<open>\<^verbatim>\<open>marching_cubes_gen.py\<close>. A Python \<^verbatim>\<open>dict\<close> is an association list here: assigning to a key
  that is present replaces its value in place, assigning to a new key appends it. A triangle
  is a list of three edge identifiers, a table value a list of triangles.\<close>

type_synonym faces = "nat list list"

fun dict_set :: "nat \<Rightarrow> 'v \<Rightarrow> (nat \<times> 'v) list \<Rightarrow> (nat \<times> 'v) list" where
  "dict_set k v [] = [(k, v)]"
| "dict_set k v ((k', v') # kvs) = (if k = k' then (k, v) # kvs else (k', v') # dict_set k v kvs)"

definition BASE_CASES :: "(nat \<times> faces) list" where
  "BASE_CASES =
    [(0, []),
     (1, [[8, 0, 3]]),
     (3, [[8, 1, 3], [8, 9, 1]]),
     (5, [[8, 0, 3], [1, 10, 2]]),
     (65, [[8, 0, 3], [10, 5, 6]]),
     (50, [[8, 7, 0], [0, 7, 1], [1, 7, 5]]),
     (67, [[8, 1, 3], [8, 9, 1], [10, 5, 6]]),
     (74, [[3, 2, 11], [0, 9, 1], [10, 5, 6]]),
     (51, [[7, 5, 3], [3, 5, 1]]),
     (177, [[11, 6, 3], [3, 6, 0], [0, 6, 5], [0, 5, 9]]),
     (105, [[11, 8, 2], [2, 8, 0], [6, 10, 4], [4, 10, 9]]),
     (113, [[3, 7, 0], [0, 7, 10], [7, 6, 10], [0, 10, 9]]),
     (58, [[3, 2, 11], [8, 7, 0], [0, 7, 1], [1, 7, 5]]),
     (165, [[8, 0, 3], [4, 5, 9], [10, 2, 1], [11, 6, 7]]),
     (178, [[8, 11, 0], [0, 11, 5], [5, 11, 6], [0, 5, 1]])]"

definition INVERSE_CASES :: "(nat \<times> faces) list" where
  "INVERSE_CASES =
    [(255 - 5, [[3, 2, 8], [8, 2, 10], [8, 10, 1], [8, 1, 0]]),
     (255 - 67, [[6, 8, 3], [6, 9, 8], [6, 5, 9], [6, 3, 1], [6, 1, 10]]),
     (255 - 74, [[3, 11, 0], [0, 11, 6], [0, 6, 9], [9, 6, 5], [1, 10, 2]])]"

definition ROTATE_1 :: "nat list" where "ROTATE_1 = [1, 2, 3, 0, 5, 6, 7, 4]"
definition ROTATE_2 :: "nat list" where "ROTATE_2 = [3, 2, 6, 7, 0, 1, 5, 4]"
definition ROTATE_3 :: "nat list" where "ROTATE_3 = [1, 5, 6, 2, 0, 4, 7, 3]"
definition REFLECT :: "nat list" where "REFLECT = [1, 0, 3, 2, 5, 4, 7, 6]"

definition bits_to_verts :: "nat \<Rightarrow> nat list" where
  "bits_to_verts n = filter (\<lambda>v. (2 ^ v AND n) > 0) [0..<8]"

definition verts_to_bits :: "nat list \<Rightarrow> nat" where
  "verts_to_bits vs = sum_list (map (\<lambda>v. 2 ^ v) vs)"

definition bits_apply :: "nat list \<Rightarrow> nat \<Rightarrow> nat" where
  "bits_apply op n = verts_to_bits (map (\<lambda>v. op ! v) (bits_to_verts n))"

text \<open>\<^verbatim>\<open>faces_apply\<close> looks every permuted corner pair up in \<^verbatim>\<open>EDGES_BY_VERTSET\<close>; a pair
  that is no edge would be a \<^verbatim>\<open>KeyError\<close>, which is \<open>None\<close> here.\<close>

definition edge_apply :: "nat list \<Rightarrow> nat \<Rightarrow> nat option" where
  "edge_apply op e = (case EDGES ! e of (v1, v2) \<Rightarrow> EDGES_BY_VERTSET (op ! v1) (op ! v2))"

fun all_some :: "'a option list \<Rightarrow> 'a list option" where
  "all_some [] = Some []"
| "all_some (None # xs) = None"
| "all_some (Some x # xs) = map_option ((#) x) (all_some xs)"

definition faces_apply :: "nat list \<Rightarrow> faces \<Rightarrow> faces option" where
  "faces_apply op fs = all_some (map (\<lambda>face. all_some (map (edge_apply op) face)) fs)"

fun operations_apply :: "nat list list \<Rightarrow> faces \<Rightarrow> faces option" where
  "operations_apply [] fs = Some fs"
| "operations_apply (op # ops) fs =
     (case faces_apply op fs of None \<Rightarrow> None | Some fs' \<Rightarrow> operations_apply ops fs')"

definition OPERATIONS :: "nat list list list" where
  "OPERATIONS = [[ROTATE_1, ROTATE_1, ROTATE_1], [ROTATE_2], [ROTATE_3], [REFLECT]]"

text \<open>The table before the loop: the base cases, then the inverse cases assigned one by one.\<close>

definition ALL_CASES_init :: "(nat \<times> faces) list" where
  "ALL_CASES_init = foldl (\<lambda>d (bits, fs). dict_set bits fs d) BASE_CASES INVERSE_CASES"

text \<open>The generating loop: for every operation sequence, for every base case, the transformed
  triangles are stored under \<^verbatim>\<open>bits_apply(op_set[-1], base)\<close>. \<open>None\<close> is a \<^verbatim>\<open>KeyError\<close> in
  \<^verbatim>\<open>faces_apply\<close>.\<close>

definition gen_step :: "nat list list \<Rightarrow> (nat \<times> faces) list option \<Rightarrow> nat \<times> faces
    \<Rightarrow> (nat \<times> faces) list option" where
  "gen_step op_set d entry =
     (case d of None \<Rightarrow> None
      | Some al \<Rightarrow>
         (case operations_apply op_set (snd entry) of None \<Rightarrow> None
          | Some result \<Rightarrow> Some (dict_set (bits_apply (last op_set) (fst entry)) result al)))"

definition ALL_CASES :: "(nat \<times> faces) list option" where
  "ALL_CASES =
     foldl (\<lambda>d op_set. foldl (gen_step op_set) d BASE_CASES) (Some ALL_CASES_init) OPERATIONS"

text \<open>\<^verbatim>\<open>test1\<close> of the generator on one table entry: the assertion holds for every edge of
  every triangle.\<close>

definition test1_entry :: "nat \<times> faces \<Rightarrow> bool" where
  "test1_entry entry =
     list_all (\<lambda>face. list_all (\<lambda>e.
        case EDGES ! e of (v1, v2) \<Rightarrow> ((2 ^ v1 AND fst entry) > 0) \<noteq> ((2 ^ v2 AND fst entry) > 0))
       face) (snd entry)"

section \<open>2D Marching Cubes with properties\<close>

text \<open>\<^verbatim>\<open>marching_cubes_2d_prop.py\<close>. A point is a pair of coordinates; an \<^verbatim>\<open>Edge\<close> has a start,
  an end and a property. The module has its own copies of \<^verbatim>\<open>ADAPTIVE\<close> (\<open>True\<close>),
  \<^verbatim>\<open>CELL_SIZE\<close> (1) and \<^verbatim>\<open>adapt\<close>; the two constants are the arguments \<open>adaptive\<close> and
  \<open>cell_size\<close> below. The \<^verbatim>\<open>print\<close> calls are left out.\<close>

type_synonym V2 = "real \<times> real"

datatype 'p Edge = Edge (edge_v1: V2) (edge_v2: V2) (edge_prop: 'p)

definition split_edge :: "V2 \<Rightarrow> V2 \<Rightarrow> 'p \<Rightarrow> 'p \<Rightarrow> 'p Edge list" where
  "split_edge va vb prop1 prop2 =
     (if prop1 = prop2 then [Edge va vb prop1]
      else (let mid_point = ((fst va + fst vb) / 2, (snd va + snd vb) / 2)
            in [Edge va mid_point prop1, Edge mid_point vb prop2]))"

text \<open>Every branch of \<^verbatim>\<open>marching_cubes_2d_single_cell\<close> computes offsets \<open>a\<^sub>i\<close>, boundary
  vertices \<open>v\<^sub>i\<close> and their properties \<open>p\<^sub>i\<close>, and ends in
  \<^verbatim>\<open>edges += split_edge(v1, v2, p1, p2)\<close> (twice in the branches of cases 9 and 6).
  \<open>cell_segments\<close> is the branch up to that call: the argument tuples of \<^verbatim>\<open>split_edge\<close> in
  order. A failed \<^verbatim>\<open>assert\<close> of \<^verbatim>\<open>adapt\<close> is \<open>Inl AssertionError\<close>.\<close>

definition cell_segments ::
  "bool \<Rightarrow> real \<Rightarrow> (real \<Rightarrow> real \<Rightarrow> real) \<Rightarrow> (real \<Rightarrow> real \<Rightarrow> 'p) \<Rightarrow> real \<Rightarrow> real
     \<Rightarrow> error + (V2 \<times> V2 \<times> 'p \<times> 'p) list" where
  "cell_segments adaptive cell_size f f_property x y =
     (let x0y0 = f x y;
          x0y1 = f x (y + cell_size);
          x1y0 = f (x + cell_size) y;
          x1y1 = f (x + cell_size) (y + cell_size);
          p_x0y0 = f_property x y;
          p_x0y1 = f_property x (y + cell_size);
          p_x1y0 = f_property (x + cell_size) y;
          p_x1y1 = f_property (x + cell_size) (y + cell_size);
          c = (if x0y0 > 0 then 1 else 0) + (if x0y1 > 0 then 2 else 0) +
              (if x1y0 > 0 then 4 else 0) + (if x1y1 > 0 then 8 else (0::nat))
      in
      if c = 0 \<or> c = 15 then Inr []
      else if c = 1 \<or> c = 14 then
        bnd (adapt adaptive cell_size x0y0 x1y0) (\<lambda>a1.
        bnd (adapt adaptive cell_size x0y0 x0y1) (\<lambda>a2.
          let v1 = (x + a1, y);
              v2 = (x, y + a2);
              p1 = (if a1 \<le> 0.5 then p_x0y0 else p_x1y0);
              p2 = (if a2 \<le> 0.5 then p_x0y0 else p_x0y1)
          in Inr [(v1, v2, p1, p2)]))
      else if c = 2 \<or> c = 13 then
        bnd (adapt adaptive cell_size x0y0 x0y1) (\<lambda>a1.
        bnd (adapt adaptive cell_size x0y1 x1y1) (\<lambda>a2.
          let v1 = (x, y + a1);
              v2 = (x + a2, y + cell_size);
              p1 = (if a1 \<le> 0.5 then p_x0y0 else p_x0y1);
              p2 = (if a2 \<le> 0.5 then p_x0y1 else p_x1y1)
          in Inr [(v1, v2, p1, p2)]))
      else if c = 4 \<or> c = 11 then
        bnd (adapt adaptive cell_size x1y0 x1y1) (\<lambda>a1.
        bnd (adapt adaptive cell_size x0y0 x1y0) (\<lambda>a2.
          let v1 = (x + cell_size, y + a1);
              v2 = (x + a2, y);
              p1 = (if a1 \<le> 0.5 then p_x1y0 else p_x1y1);
              p2 = (if a2 \<le> 0.5 then p_x0y0 else p_x1y0)
          in Inr [(v1, v2, p1, p2)]))
      else if c = 8 \<or> c = 7 then
        bnd (adapt adaptive cell_size x0y1 x1y1) (\<lambda>a1.
        bnd (adapt adaptive cell_size x1y0 x1y1) (\<lambda>a2.
          let v1 = (x + a1, y + cell_size);
              v2 = (x + cell_size, y + a2);
              p1 = (if a1 \<le> 0.5 then p_x0y1 else p_x1y1);
              p2 = (if a2 \<le> 0.5 then p_x1y0 else p_x1y1)
          in Inr [(v1, v2, p1, p2)]))
      else if c = 3 \<or> c = 12 then
        bnd (adapt adaptive cell_size x0y0 x1y0) (\<lambda>a1.
        bnd (adapt adaptive cell_size x0y1 x1y1) (\<lambda>a2.
          let v1 = (x + a1, y);
              v2 = (x + a2, y + cell_size);
              p1 = (if a1 \<le> 0.5 then p_x0y0 else p_x1y0);
              p2 = (if a2 \<le> 0.5 then p_x0y1 else p_x1y1)
          in Inr [(v1, v2, p1, p2)]))
      else if c = 5 \<or> c = 10 then
        bnd (adapt adaptive cell_size x0y0 x0y1) (\<lambda>a1.
        bnd (adapt adaptive cell_size x1y0 x1y1) (\<lambda>a2.
          let v1 = (x, y + a1);
              v2 = (x + cell_size, y + a2);
              p1 = (if a1 \<le> 0.5 then p_x0y0 else p_x0y1);
              p2 = (if a2 \<le> 0.5 then p_x1y0 else p_x1y1)
          in Inr [(v1, v2, p1, p2)]))
      else if c = 9 then
        bnd (adapt adaptive cell_size x0y0 x0y1) (\<lambda>a1.
        bnd (adapt adaptive cell_size x0y0 x0y1) (\<lambda>a2.
        bnd (adapt adaptive cell_size x0y1 x1y1) (\<lambda>a3.
        bnd (adapt adaptive cell_size x1y0 x1y1) (\<lambda>a4.
          let v1 = (x + a1, y);
              v2 = (x, y + a2);
              v3 = (x + a3, y + cell_size);
              v4 = (x + cell_size, y + a4);
              p1 = (if a1 \<le> 0.5 then p_x0y0 else p_x1y0);
              p2 = (if a2 \<le> 0.5 then p_x0y0 else p_x0y1);
              p3 = (if a3 \<le> 0.5 then p_x0y1 else p_x1y1);
              p4 = (if a4 \<le> 0.5 then p_x1y0 else p_x1y1)
          in Inr [(v1, v2, p1, p2), (v3, v4, p3, p4)]))))
      else if c = 6 then
        bnd (adapt adaptive cell_size x1y0 x1y1) (\<lambda>a1.
        bnd (adapt adaptive cell_size x0y0 x1y0) (\<lambda>a2.
        bnd (adapt adaptive cell_size x0y0 x0y1) (\<lambda>a3.
        bnd (adapt adaptive cell_size x0y1 x1y1) (\<lambda>a4.
          let v1 = (x + cell_size, y + a1);
              v2 = (x + a2, y);
              v3 = (x, y + a3);
              v4 = (x + a4, y + cell_size);
              p1 = (if a1 \<le> 0.5 then p_x1y0 else p_x1y1);
              p2 = (if a2 \<le> 0.5 then p_x0y0 else p_x1y0);
              p3 = (if a3 \<le> 0.5 then p_x0y0 else p_x0y1);
              p4 = (if a4 \<le> 0.5 then p_x0y1 else p_x1y1)
          in Inr [(v1, v2, p1, p2), (v3, v4, p3, p4)]))))
      else Inr [])"

definition marching_cubes_2d_single_cell ::
  "bool \<Rightarrow> real \<Rightarrow> (real \<Rightarrow> real \<Rightarrow> real) \<Rightarrow> (real \<Rightarrow> real \<Rightarrow> 'p) \<Rightarrow> real \<Rightarrow> real
     \<Rightarrow> error + 'p Edge list" where
  "marching_cubes_2d_single_cell adaptive cell_size f f_property x y =
     bnd (cell_segments adaptive cell_size f f_property x y)
       (\<lambda>segs. Inr (concat (map (\<lambda>(va, vb, pa, pb). split_edge va vb pa pb) segs)))"

text \<open>A field and a property function on which the interpolated offsets are exactly one half:
  only the grid point \<open>(0, 0)\<close> is solid, and it alone has property 0.\<close>

definition tie_field :: "real \<Rightarrow> real \<Rightarrow> real" where
  "tie_field x y = (if x = 0 \<and> y = 0 then 1 else - 1)"

definition tie_property :: "real \<Rightarrow> real \<Rightarrow> nat" where
  "tie_property x y = (if x = 0 \<and> y = 0 then 0 else 1)"

text \<open>The rule by which a boundary vertex \<open>v\<close> with property \<open>p\<close> in the cell at \<open>(x, y)\<close>
  (cell size 1) takes the property of the first end of its cell side when it sits exactly
  half way: the first end is the corner passed first to \<^verbatim>\<open>adapt\<close>, which is \<open>(x, y)\<close> for the
  bottom and the left side, \<open>(x, y + 1)\<close> for the top side and \<open>(x + 1, y)\<close> for the right
  side.\<close>

definition tie_rule :: "(real \<Rightarrow> real \<Rightarrow> 'p) \<Rightarrow> real \<Rightarrow> real \<Rightarrow> V2 \<Rightarrow> 'p \<Rightarrow> bool" where
  "tie_rule f_property x y v p =
     ((v = (x + 0.5, y) \<longrightarrow> p = f_property x y) \<and>
      (v = (x, y + 0.5) \<longrightarrow> p = f_property x y) \<and>
      (v = (x + 0.5, y + 1) \<longrightarrow> p = f_property x (y + 1)) \<and>
      (v = (x + 1, y + 0.5) \<longrightarrow> p = f_property (x + 1) y))"

section \<open>The QEF solver\<close>

text \<open>\<^verbatim>\<open>qef.py\<close>. A vector is a list of reals, a matrix the list of its rows. The floats of the
  program are real numbers here.\<close>

type_synonym vec = "real list"
type_synonym matrix = "real list list"

definition dot :: "vec \<Rightarrow> vec \<Rightarrow> real" where
  "dot xs ys = sum_list (map2 (*) xs ys)"

definition rectangular :: "'a list list \<Rightarrow> bool" where
  "rectangular rows = list_all (\<lambda>r. length r = length (hd rows)) rows"

text \<open>\<^verbatim>\<open>numpy.linalg.lstsq(A, b, rcond=None)\<close> is a library routine, not code of the program: it
  is a parameter of the model. Of its four results the program uses the solution and the list
  of residuals (empty, or the sum of squared residuals).\<close>

type_synonym solver = "matrix \<Rightarrow> vec \<Rightarrow> vec \<times> real list"

text \<open>Elementwise subtraction of two one-dimensional arrays with numpy's broadcasting: equal
  lengths, or one of them of length one; anything else is a \<^verbatim>\<open>ValueError\<close>.\<close>

definition np_sub :: "vec \<Rightarrow> vec \<Rightarrow> error + vec" where
  "np_sub xs ys =
     (if length xs = length ys then Inr (map2 (-) xs ys)
      else if length xs = 1 then Inr (map (\<lambda>t. hd xs - t) ys)
      else if length ys = 1 then Inr (map (\<lambda>t. t - hd ys) xs)
      else Inl ValueError)"

subsection \<open>The class \<^verbatim>\<open>QEF\<close>\<close>

record QEF =
  qef_A :: matrix
  qef_b :: vec
  fixed_values :: "real option list"

text \<open>A position is a Python list when \<^verbatim>\<open>solve\<close> builds it and the tuple that was passed in
  when \<^verbatim>\<open>eval_with_pos\<close> returns it.\<close>

datatype position = ListPos vec | TuplePos vec

fun coords :: "position \<Rightarrow> vec" where
  "coords (ListPos v) = v"
| "coords (TuplePos v) = v"

definition evaluate :: "QEF \<Rightarrow> vec \<Rightarrow> error + real" where
  "evaluate q x =
     (if \<exists>row \<in> set (qef_A q). length row \<noteq> length x then Inl ValueError
      else bnd (np_sub (map (\<lambda>row. dot row x) (qef_A q)) (qef_b q))
             (\<lambda>d. Inr (sqrt (sum_list (map (\<lambda>t. t * t) d)))))"

definition eval_with_pos :: "QEF \<Rightarrow> vec \<Rightarrow> error + real \<times> position" where
  "eval_with_pos q x = bnd (evaluate q x) (\<lambda>r. Inr (r, TuplePos x))"

text \<open>\<^verbatim>\<open>numpy.array(normals)\<close> wants rows of one length; \<^verbatim>\<open>A.shape[1]\<close> wants at least one
  row; the entries of \<^verbatim>\<open>b\<close> index two (three) coordinates of every zipped pair.\<close>

definition make_2d :: "vec list \<Rightarrow> vec list \<Rightarrow> error + QEF" where
  "make_2d positions normals =
     (if \<not> rectangular normals then Inl ValueError
      else if \<exists>(v, n) \<in> set (zip positions normals). length v < 2 \<or> length n < 2
        then Inl IndexError
      else if normals = [] then Inl IndexError
      else Inr \<lparr>qef_A = normals,
                qef_b = map (\<lambda>(v, n). v ! 0 * n ! 0 + v ! 1 * n ! 1) (zip positions normals),
                fixed_values = replicate (length (hd normals)) None\<rparr>)"

definition make_3d :: "vec list \<Rightarrow> vec list \<Rightarrow> error + QEF" where
  "make_3d positions normals =
     (if \<not> rectangular normals then Inl ValueError
      else if \<exists>(v, n) \<in> set (zip positions normals). length v < 3 \<or> length n < 3
        then Inl IndexError
      else if normals = [] then Inl IndexError
      else Inr \<lparr>qef_A = normals,
                qef_b = map (\<lambda>(v, n). v ! 0 * n ! 0 + v ! 1 * n ! 1 + v ! 2 * n ! 2)
                          (zip positions normals),
                fixed_values = replicate (length (hd normals)) None\<rparr>)"

subsection \<open>\<^verbatim>\<open>fix_axis\<close> on objects\<close>

text \<open>\<^verbatim>\<open>fix_axis\<close> is the one method that assigns into a container
  (\<^verbatim>\<open>fixed_values[axis] = value\<close>), so the \<^verbatim>\<open>fixed_values\<close> lists live in a heap: a QEF object
  holds the address of its list. The arrays \<^verbatim>\<open>A\<close> and \<^verbatim>\<open>b\<close> are only ever read
  (\<^verbatim>\<open>self.b[:] - ...\<close> and \<^verbatim>\<open>numpy.delete\<close> build new arrays) and are values.\<close>

record fv_heap =
  cell :: "nat \<Rightarrow> real option list"
  fresh :: nat

record QEF_obj =
  obj_A :: matrix
  obj_b :: vec
  obj_fixed :: nat

definition deref :: "fv_heap \<Rightarrow> QEF_obj \<Rightarrow> QEF" where
  "deref h q = \<lparr>qef_A = obj_A q, qef_b = obj_b q, fixed_values = cell h (obj_fixed q)\<rparr>"

definition fix_axis_obj :: "fv_heap \<Rightarrow> QEF_obj \<Rightarrow> nat \<Rightarrow> real \<Rightarrow> error + QEF_obj \<times> fv_heap" where
  "fix_axis_obj h self axis val =
     (if \<exists>row \<in> set (obj_A self). length row \<le> axis then Inl IndexError
      else
        bnd (np_sub (obj_b self) (map (\<lambda>row. row ! axis * val) (obj_A self))) (\<lambda>b.
          let A = map (\<lambda>row. take axis row @ drop (Suc axis) row) (obj_A self);
              fv = fresh h;
              h1 = h\<lparr>cell := (cell h)(fv := cell h (obj_fixed self)), fresh := Suc fv\<rparr>
          in if length (cell h1 fv) \<le> axis then Inl IndexError
             else Inr (\<lparr>obj_A = A, obj_b = b, obj_fixed = fv\<rparr>,
                       h1\<lparr>cell := (cell h1)(fv := (cell h1 fv)[axis := Some val])\<rparr>)))"

text \<open>The same method on values: run on a heap that holds only the object's own list.\<close>

definition fix_axis :: "QEF \<Rightarrow> nat \<Rightarrow> real \<Rightarrow> error + QEF" where
  "fix_axis q axis val =
     bnd (fix_axis_obj \<lparr>cell = (\<lambda>_. fixed_values q), fresh = 1\<rparr>
            \<lparr>obj_A = qef_A q, obj_b = qef_b q, obj_fixed = 0\<rparr> axis val)
       (\<lambda>(q', h'). Inr (deref h' q'))"

subsection \<open>\<^verbatim>\<open>solve\<close>\<close>

text \<open>The loop of \<^verbatim>\<open>solve\<close> that puts the fixed values back: \<open>i\<close> counts the entries of
  \<^verbatim>\<open>result\<close> used so far; \<^verbatim>\<open>result[i]\<close> out of range is an \<^verbatim>\<open>IndexError\<close>.\<close>

fun reinsert :: "real option list \<Rightarrow> vec \<Rightarrow> nat \<Rightarrow> error + vec" where
  "reinsert [] result i = Inr []"
| "reinsert (None # fs) result i =
     (if i < length result
      then bnd (reinsert fs result (i + 1)) (\<lambda>position. Inr (result ! i # position))
      else Inl IndexError)"
| "reinsert (Some v # fs) result i =
     bnd (reinsert fs result i) (\<lambda>position. Inr (v # position))"

text \<open>\<^verbatim>\<open>lstsq\<close> refuses a right-hand side whose length is not the number of rows
  (\<^verbatim>\<open>LinAlgError\<close>).\<close>

definition solve :: "solver \<Rightarrow> QEF \<Rightarrow> error + real \<times> position" where
  "solve lstsq q =
     (if length (qef_b q) \<noteq> length (qef_A q) then Inl LinAlgError
      else
        (case lstsq (qef_A q) (qef_b q) of (result, residual) \<Rightarrow>
           bnd (if length residual = 0 then evaluate q result else Inr (residual ! 0)) (\<lambda>res.
           bnd (reinsert (fixed_values q) result 0) (\<lambda>position.
             Inr (res, ListPos position)))))"

subsection \<open>Choosing among candidates\<close>

text \<open>Python's \<^verbatim>\<open>min\<close> on a list of \<^verbatim>\<open>(residual, position)\<close> tuples: tuples and sequences compare
  lexicographically, the first minimal element is returned, the empty list is a
  \<^verbatim>\<open>ValueError\<close>.\<close>

fun seq_less :: "vec \<Rightarrow> vec \<Rightarrow> bool" where
  "seq_less [] [] = False"
| "seq_less [] (y # ys) = True"
| "seq_less (x # xs) [] = False"
| "seq_less (x # xs) (y # ys) = (if x = y then seq_less xs ys else x < y)"

definition cand_less :: "real \<times> position \<Rightarrow> real \<times> position \<Rightarrow> bool" where
  "cand_less c d =
     (if fst c = fst d then seq_less (coords (snd c)) (coords (snd d)) else fst c < fst d)"

definition py_min :: "(real \<times> position) list \<Rightarrow> error + real \<times> position" where
  "py_min rs =
     (case rs of [] \<Rightarrow> Inl ValueError
      | c # cs \<Rightarrow> Inr (foldl (\<lambda>best d. if cand_less d best then d else best) c cs))"

text \<open>Statements run in order, the first exception ends the run.\<close>

fun collect :: "(error + 'a) list \<Rightarrow> error + 'a list" where
  "collect [] = Inr []"
| "collect (m # ms) = bnd m (\<lambda>v. bnd (collect ms) (\<lambda>vs. Inr (v # vs)))"

text \<open>\<^verbatim>\<open>v[i] = numpy.clip(v[i], lo, hi)\<close>: a list is updated; a tuple does not support item
  assignment (\<^verbatim>\<open>TypeError\<close>).\<close>

definition clip :: "real \<Rightarrow> real \<Rightarrow> real \<Rightarrow> real" where
  "clip a lo hi = min (max a lo) hi"

definition clip_item :: "position \<Rightarrow> nat \<Rightarrow> real \<Rightarrow> real \<Rightarrow> error + position" where
  "clip_item v i lo hi =
     (case v of
        ListPos l \<Rightarrow> if i < length l then Inr (ListPos (l[i := clip (l ! i) lo hi])) else Inl IndexError
      | TuplePos t \<Rightarrow> if i < length t then Inl TypeError else Inl IndexError)"

subsection \<open>\<^verbatim>\<open>solve_qef_2d\<close>\<close>

text \<open>The test \<^verbatim>\<open>inside\<close> of \<^verbatim>\<open>solve_qef_2d\<close> on a \<^verbatim>\<open>(residual, position)\<close> pair.\<close>

definition inside_2d :: "real \<Rightarrow> real \<Rightarrow> real \<Rightarrow> real \<times> position \<Rightarrow> bool" where
  "inside_2d cell_size x y r =
     (x \<le> coords (snd r) ! 0 \<and> coords (snd r) ! 0 \<le> x + cell_size \<and>
      y \<le> coords (snd r) ! 1 \<and> coords (snd r) ! 1 \<le> y + cell_size)"

text \<open>The candidates of the two tiers of the 2D cascade, in the order of the source: the
  solutions on the four lines bordering the cell, and the four corners. Each is the list that
  the source filters with \<^verbatim>\<open>inside\<close>.\<close>

definition face_tier_2d :: "solver \<Rightarrow> real \<Rightarrow> real \<Rightarrow> real \<Rightarrow> QEF \<Rightarrow> error + (real \<times> position) list" where
  "face_tier_2d lstsq cell_size x y qef =
     bnd (collect
        [bnd (fix_axis qef 0 (x + 0)) (solve lstsq),
         bnd (fix_axis qef 0 (x + cell_size)) (solve lstsq),
         bnd (fix_axis qef 1 (y + 0)) (solve lstsq),
         bnd (fix_axis qef 1 (y + cell_size)) (solve lstsq)])
       (\<lambda>rs. Inr (filter (inside_2d cell_size x y) rs))"

definition corner_tier_2d :: "real \<Rightarrow> real \<Rightarrow> real \<Rightarrow> QEF \<Rightarrow> error + (real \<times> position) list" where
  "corner_tier_2d cell_size x y qef =
     bnd (collect
        [eval_with_pos qef [x + 0, y + 0],
         eval_with_pos qef [x + 0, y + cell_size],
         eval_with_pos qef [x + cell_size, y + 0],
         eval_with_pos qef [x + cell_size, y + cell_size]])
       (\<lambda>rs. Inr (filter (inside_2d cell_size x y) rs))"

text \<open>\<^verbatim>\<open>solve_qef_2d\<close> from the line \<^verbatim>\<open>qef = QEF.make_2d(positions, normals)\<close> on, given the
  QEF.\<close>

definition qef_cascade_2d :: "settings \<Rightarrow> solver \<Rightarrow> real \<Rightarrow> real \<Rightarrow> QEF \<Rightarrow> error + V2" where
  "qef_cascade_2d cfg lstsq x y qef =
     (let cell_size = CELL_SIZE cfg in
      bnd (solve lstsq qef) (\<lambda>r0.
      bnd (if BOUNDARY cfg \<and> \<not> inside_2d cell_size x y r0 then
             bnd (face_tier_2d lstsq cell_size x y qef) (\<lambda>rs.
             bnd (if length rs = 0 then corner_tier_2d cell_size x y qef else Inr rs) py_min)
           else Inr r0) (\<lambda>r.
      bnd (if CLIP cfg then
             bnd (clip_item (snd r) 0 x (x + cell_size)) (\<lambda>v. clip_item v 1 y (y + cell_size))
           else Inr (snd r)) (\<lambda>v.
      if length (coords v) < 2 then Inl IndexError
      else Inr (coords v ! 0, coords v ! 1)))))"

subsection \<open>\<^verbatim>\<open>solve_qef_3d\<close>\<close>

type_synonym V3 = "real \<times> real \<times> real"

definition inside_3d :: "real \<Rightarrow> real \<Rightarrow> real \<Rightarrow> real \<Rightarrow> real \<times> position \<Rightarrow> bool" where
  "inside_3d cell_size x y z r =
     (x \<le> coords (snd r) ! 0 \<and> coords (snd r) ! 0 \<le> x + cell_size \<and>
      y \<le> coords (snd r) ! 1 \<and> coords (snd r) ! 1 \<le> y + cell_size \<and>
      z \<le> coords (snd r) ! 2 \<and> coords (snd r) ! 2 \<le> z + cell_size)"

definition face_tier_3d ::
  "solver \<Rightarrow> real \<Rightarrow> real \<Rightarrow> real \<Rightarrow> real \<Rightarrow> QEF \<Rightarrow> error + (real \<times> position) list" where
  "face_tier_3d lstsq cell_size x y z qef =
     bnd (collect
        [bnd (fix_axis qef 0 (x + 0)) (solve lstsq),
         bnd (fix_axis qef 0 (x + cell_size)) (solve lstsq),
         bnd (fix_axis qef 1 (y + 0)) (solve lstsq),
         bnd (fix_axis qef 1 (y + cell_size)) (solve lstsq),
         bnd (fix_axis qef 2 (z + 0)) (solve lstsq),
         bnd (fix_axis qef 2 (z + cell_size)) (solve lstsq)])
       (\<lambda>rs. Inr (filter (inside_3d cell_size x y z) rs))"

definition edge_tier_3d ::
  "solver \<Rightarrow> real \<Rightarrow> real \<Rightarrow> real \<Rightarrow> real \<Rightarrow> QEF \<Rightarrow> error + (real \<times> position) list" where
  "edge_tier_3d lstsq cell_size x y z qef =
     bnd (collect
        [bnd (bnd (fix_axis qef 1 (y + 0)) (\<lambda>q. fix_axis q 0 (x + 0))) (solve lstsq),
         bnd (bnd (fix_axis qef 1 (y + cell_size)) (\<lambda>q. fix_axis q 0 (x + 0))) (solve lstsq),
         bnd (bnd (fix_axis qef 1 (y + 0)) (\<lambda>q. fix_axis q 0 (x + cell_size))) (solve lstsq),
         bnd (bnd (fix_axis qef 1 (y + cell_size)) (\<lambda>q. fix_axis q 0 (x + cell_size))) (solve lstsq),
         bnd (bnd (fix_axis qef 2 (z + 0)) (\<lambda>q. fix_axis q 0 (x + 0))) (solve lstsq),
         bnd (bnd (fix_axis qef 2 (z + cell_size)) (\<lambda>q. fix_axis q 0 (x + 0))) (solve lstsq),
         bnd (bnd (fix_axis qef 2 (z + 0)) (\<lambda>q. fix_axis q 0 (x + cell_size))) (solve lstsq),
         bnd (bnd (fix_axis qef 2 (z + cell_size)) (\<lambda>q. fix_axis q 0 (x + cell_size))) (solve lstsq),
         bnd (bnd (fix_axis qef 2 (z + 0)) (\<lambda>q. fix_axis q 1 (y + 0))) (solve lstsq),
         bnd (bnd (fix_axis qef 2 (z + cell_size)) (\<lambda>q. fix_axis q 1 (y + 0))) (solve lstsq),
         bnd (bnd (fix_axis qef 2 (z + 0)) (\<lambda>q. fix_axis q 1 (y + cell_size))) (solve lstsq),
         bnd (bnd (fix_axis qef 2 (z + cell_size)) (\<lambda>q. fix_axis q 1 (y + cell_size))) (solve lstsq)])
       (\<lambda>rs. Inr (filter (inside_3d cell_size x y z) rs))"

definition corner_tier_3d ::
  "real \<Rightarrow> real \<Rightarrow> real \<Rightarrow> real \<Rightarrow> QEF \<Rightarrow> error + (real \<times> position) list" where
  "corner_tier_3d cell_size x y z qef =
     bnd (collect
        [eval_with_pos qef [x + 0, y + 0, z + 0],
         eval_with_pos qef [x + 0, y + 0, z + cell_size],
         eval_with_pos qef [x + 0, y + cell_size, z + 0],
         eval_with_pos qef [x + 0, y + cell_size, z + cell_size],
         eval_with_pos qef [x + cell_size, y + 0, z + 0],
         eval_with_pos qef [x + cell_size, y + 0, z + cell_size],
         eval_with_pos qef [x + cell_size, y + cell_size, z + 0],
         eval_with_pos qef [x + cell_size, y + cell_size, z + cell_size]])
       (\<lambda>rs. Inr (filter (inside_3d cell_size x y z) rs))"

definition qef_cascade_3d :: "settings \<Rightarrow> solver \<Rightarrow> real \<Rightarrow> real \<Rightarrow> real \<Rightarrow> QEF \<Rightarrow> error + V3" where
  "qef_cascade_3d cfg lstsq x y z qef =
     (let cell_size = CELL_SIZE cfg in
      bnd (solve lstsq qef) (\<lambda>r0.
      bnd (if BOUNDARY cfg \<and> \<not> inside_3d cell_size x y z r0 then
             bnd (face_tier_3d lstsq cell_size x y z qef) (\<lambda>rs.
             bnd (if length rs = 0 then edge_tier_3d lstsq cell_size x y z qef else Inr rs) (\<lambda>rs.
             bnd (if length rs = 0 then corner_tier_3d cell_size x y z qef else Inr rs) py_min))
           else Inr r0) (\<lambda>r.
      bnd (if CLIP cfg then
             bnd (clip_item (snd r) 0 x (x + cell_size)) (\<lambda>v.
             bnd (clip_item v 1 y (y + cell_size)) (\<lambda>v. clip_item v 2 z (z + cell_size)))
           else Inr (snd r)) (\<lambda>v.
      if length (coords v) < 3 then Inl IndexError
      else Inr (coords v ! 0, coords v ! 1, coords v ! 2)))))"

subsection \<open>The argument lists of the caller\<close>

text \<open>\<^verbatim>\<open>positions\<close> and \<^verbatim>\<open>normals\<close> are Python lists owned by the caller, and the bias step appends
  to them. A store maps the address of a list object to its contents; the two arguments are
  addresses.\<close>

type_synonym store = "nat \<Rightarrow> vec list"

text \<open>\<^verbatim>\<open>numpy.mean(positions, axis=0)\<close>: the mean of the vectors, coordinate by coordinate.
  Vectors of different lengths are a \<^verbatim>\<open>ValueError\<close>. The mean of no vectors is the scalar
  \<^verbatim>\<open>nan\<close>, which cannot be indexed; the empty vector stands for it.\<close>

definition mean_axis0 :: "vec list \<Rightarrow> error + vec" where
  "mean_axis0 ps =
     (if \<not> rectangular ps then Inl ValueError
      else if ps = [] then Inr []
      else Inr (map (\<lambda>j. sum_list (map (\<lambda>p. p ! j) ps) / real (length ps))
                 [0..<length (hd ps)]))"

definition list_append :: "store \<Rightarrow> nat \<Rightarrow> vec \<Rightarrow> store" where
  "list_append h a v = h(a := h a @ [v])"

definition bias_2d :: "settings \<Rightarrow> nat \<Rightarrow> nat \<Rightarrow> store \<Rightarrow> error + store" where
  "bias_2d cfg positions normals h =
     bnd (mean_axis0 (h positions)) (\<lambda>mass_point.
       let h1 = list_append h normals [BIAS_STRENGTH cfg, 0];
           h2 = list_append h1 positions mass_point;
           h3 = list_append h2 normals [0, BIAS_STRENGTH cfg];
           h4 = list_append h3 positions mass_point
       in Inr h4)"

text \<open>The whole function: the store after the call, and the returned point or the exception
  raised.\<close>

definition solve_qef_2d ::
  "settings \<Rightarrow> solver \<Rightarrow> real \<Rightarrow> real \<Rightarrow> nat \<Rightarrow> nat \<Rightarrow> store \<Rightarrow> store \<times> (error + V2)" where
  "solve_qef_2d cfg lstsq x y positions normals h =
     (case (if BIAS cfg then bias_2d cfg positions normals h else Inr h) of
        Inl e \<Rightarrow> (h, Inl e)
      | Inr h' \<Rightarrow>
          (h', bnd (make_2d (h' positions) (h' normals)) (qef_cascade_2d cfg lstsq x y)))"

definition bias_3d :: "settings \<Rightarrow> nat \<Rightarrow> nat \<Rightarrow> store \<Rightarrow> error + store" where
  "bias_3d cfg positions normals h =
     bnd (mean_axis0 (h positions)) (\<lambda>mass_point.
       let h1 = list_append h normals [BIAS_STRENGTH cfg, 0, 0];
           h2 = list_append h1 positions mass_point;
           h3 = list_append h2 normals [0, BIAS_STRENGTH cfg, 0];
           h4 = list_append h3 positions mass_point;
           h5 = list_append h4 normals [0, 0, BIAS_STRENGTH cfg];
           h6 = list_append h5 positions mass_point
       in Inr h6)"

definition solve_qef_3d ::
  "settings \<Rightarrow> solver \<Rightarrow> real \<Rightarrow> real \<Rightarrow> real \<Rightarrow> nat \<Rightarrow> nat \<Rightarrow> store \<Rightarrow> store \<times> (error + V3)" where
  "solve_qef_3d cfg lstsq x y z positions normals h =
     (case (if BIAS cfg then bias_3d cfg positions normals h else Inr h) of
        Inl e \<Rightarrow> (h, Inl e)
      | Inr h' \<Rightarrow>
          (h', bnd (make_3d (h' positions) (h' normals)) (qef_cascade_3d cfg lstsq x y z)))"

section \<open>Dual Contouring: the vertex of a cell\<close>

text \<open>One conditional \<^verbatim>\<open>changes.append(...)\<close>: when the edge changes sign, the crossing point
  built from the offset that \<^verbatim>\<open>adapt\<close> returns; \<^verbatim>\<open>adapt\<close> is called only then.\<close>

definition change_if :: "bool \<Rightarrow> error + real \<Rightarrow> (real \<Rightarrow> vec) \<Rightarrow> error + vec list" where
  "change_if c a mk = (if c then bnd a (\<lambda>t. Inr [mk t]) else Inr [])"

text \<open>\<^verbatim>\<open>dual_contour_2d_find_best_vertex\<close>. The field \<open>f\<close> and the normal function
  \<open>f_normal\<close> (whose result has the attributes \<^verbatim>\<open>x\<close> and \<^verbatim>\<open>y\<close>, a pair here) are arguments. The
  lists \<^verbatim>\<open>changes\<close> and \<^verbatim>\<open>normals\<close> are two fresh list objects, at the addresses 0 and 1 of a
  store of their own. The result is \<open>None\<close>, a point, or the exception raised.\<close>

definition dual_contour_2d_find_best_vertex ::
  "settings \<Rightarrow> solver \<Rightarrow> (real \<Rightarrow> real \<Rightarrow> real) \<Rightarrow> (real \<Rightarrow> real \<Rightarrow> V2) \<Rightarrow> real \<Rightarrow> real
     \<Rightarrow> error + V2 option" where
  "dual_contour_2d_find_best_vertex cfg lstsq f f_normal x y =
     (let cell_size = CELL_SIZE cfg; ad = adapt (ADAPTIVE cfg) cell_size in
      if \<not> ADAPTIVE cfg then Inr (Some (x + 0.5 * cell_size, y + 0.5 * cell_size))
      else
        let x0y0 = f (x + 0.0) (y + 0.0);
            x0y1 = f (x + 0.0) (y + cell_size);
            x1y0 = f (x + cell_size) (y + 0.0);
            x1y1 = f (x + cell_size) (y + cell_size)
        in
        bnd (collect
          [change_if ((x0y0 > 0) \<noteq> (x0y1 > 0)) (ad x0y0 x0y1) (\<lambda>a. [x + 0, y + a]),
           change_if ((x1y0 > 0) \<noteq> (x1y1 > 0)) (ad x1y0 x1y1) (\<lambda>a. [x + cell_size, y + a]),
           change_if ((x0y0 > 0) \<noteq> (x1y0 > 0)) (ad x0y0 x1y0) (\<lambda>a. [x + a, y + 0]),
           change_if ((x0y1 > 0) \<noteq> (x1y1 > 0)) (ad x0y1 x1y1) (\<lambda>a. [x + a, y + cell_size])])
        (\<lambda>appended.
          let changes = concat appended in
          if length changes \<le> 1 then Inr None
          else
            let normals = map (\<lambda>v. case f_normal (v ! 0) (v ! 1) of (nx, ny) \<Rightarrow> [nx, ny]) changes
            in bnd (snd (solve_qef_2d cfg lstsq x y 0 1 (\<lambda>a. if a = 0 then changes else normals)))
                 (\<lambda>v. Inr (Some v))))"

text \<open>\<^verbatim>\<open>dual_contour_3d_find_best_vertex\<close>. The array \<^verbatim>\<open>v[dx, dy, dz]\<close> of the eight samples is
  the function \<open>s\<close>; the three double loops append in the order of the source.\<close>

definition dual_contour_3d_find_best_vertex ::
  "settings \<Rightarrow> solver \<Rightarrow> (real \<Rightarrow> real \<Rightarrow> real \<Rightarrow> real) \<Rightarrow> (real \<Rightarrow> real \<Rightarrow> real \<Rightarrow> V3)
     \<Rightarrow> real \<Rightarrow> real \<Rightarrow> real \<Rightarrow> error + V3 option" where
  "dual_contour_3d_find_best_vertex cfg lstsq f f_normal x y z =
     (let cell_size = CELL_SIZE cfg; ad = adapt (ADAPTIVE cfg) cell_size in
      if \<not> ADAPTIVE cfg
      then Inr (Some (x + 0.5 * cell_size, y + 0.5 * cell_size, z + 0.5 * cell_size))
      else
        let s = (\<lambda>dx dy dz. f (x + dx * cell_size) (y + dy * cell_size) (z + dz * cell_size))
        in
        bnd (collect
          (concat (map (\<lambda>dx. map (\<lambda>dy.
              change_if ((s dx dy 0 > 0) \<noteq> (s dx dy 1 > 0)) (ad (s dx dy 0) (s dx dy 1))
                (\<lambda>a. [x + dx * cell_size, y + dy * cell_size, z + a])) [0, 1]) [0, 1]) @
           concat (map (\<lambda>dx. map (\<lambda>dz.
              change_if ((s dx 0 dz > 0) \<noteq> (s dx 1 dz > 0)) (ad (s dx 0 dz) (s dx 1 dz))
                (\<lambda>a. [x + dx * cell_size, y + a, z + dz * cell_size])) [0, 1]) [0, 1]) @
           concat (map (\<lambda>dy. map (\<lambda>dz.
              change_if ((s 0 dy dz > 0) \<noteq> (s 1 dy dz > 0)) (ad (s 0 dy dz) (s 1 dy dz))
                (\<lambda>a. [x + a, y + dy * cell_size, z + dz * cell_size])) [0, 1]) [0, 1])))
        (\<lambda>appended.
          let changes = concat appended in
          if length changes \<le> 1 then Inr None
          else
            let normals =
              map (\<lambda>v. case f_normal (v ! 0) (v ! 1) (v ! 2) of (nx, ny, nz) \<Rightarrow> [nx, ny, nz]) changes
            in bnd (snd (solve_qef_3d cfg lstsq x y z 0 1 (\<lambda>a. if a = 0 then changes else normals)))
                 (\<lambda>v. Inr (Some v))))"

subsection \<open>The sign-changing edges of a cell\<close>

text \<open>The edges of the cell at \<open>(x, y)\<close>, resp. \<open>(x, y, z)\<close>, as pairs of grid points: every
  corner whose coordinate on an axis is the lower one, paired with the corner one cell further
  along that axis. An edge changes sign when its two samples differ in strict positivity.\<close>

definition cell_edges_2d :: "real \<Rightarrow> real \<Rightarrow> real \<Rightarrow> (V2 \<times> V2) list" where
  "cell_edges_2d cell_size x y =
     map (\<lambda>dx. ((x + dx * cell_size, y), (x + dx * cell_size, y + cell_size))) [0, 1] @
     map (\<lambda>dy. ((x, y + dy * cell_size), (x + cell_size, y + dy * cell_size))) [0, 1]"

definition sign_changes_2d :: "(real \<Rightarrow> real \<Rightarrow> real) \<Rightarrow> real \<Rightarrow> real \<Rightarrow> real \<Rightarrow> nat" where
  "sign_changes_2d f cell_size x y =
     length (filter (\<lambda>(p, q). (f (fst p) (snd p) > 0) \<noteq> (f (fst q) (snd q) > 0))
               (cell_edges_2d cell_size x y))"

definition cell_edges_3d :: "real \<Rightarrow> real \<Rightarrow> real \<Rightarrow> real \<Rightarrow> (V3 \<times> V3) list" where
  "cell_edges_3d cell_size x y z =
     concat (map (\<lambda>dx. map (\<lambda>dy.
        ((x + dx * cell_size, y + dy * cell_size, z),
         (x + dx * cell_size, y + dy * cell_size, z + cell_size))) [0, 1]) [0, 1]) @
     concat (map (\<lambda>dx. map (\<lambda>dz.
        ((x + dx * cell_size, y, z + dz * cell_size),
         (x + dx * cell_size, y + cell_size, z + dz * cell_size))) [0, 1]) [0, 1]) @
     concat (map (\<lambda>dy. map (\<lambda>dz.
        ((x, y + dy * cell_size, z + dz * cell_size),
         (x + cell_size, y + dy * cell_size, z + dz * cell_size))) [0, 1]) [0, 1])"

definition sign_changes_3d ::
  "(real \<Rightarrow> real \<Rightarrow> real \<Rightarrow> real) \<Rightarrow> real \<Rightarrow> real \<Rightarrow> real \<Rightarrow> real \<Rightarrow> nat" where
  "sign_changes_3d f cell_size x y z =
     length (filter (\<lambda>((px, py, pz), (qx, qy, qz)). (f px py pz > 0) \<noteq> (f qx qy qz > 0))
               (cell_edges_3d cell_size x y z))"

section \<open>Shapes, a reference solver and example inputs\<close>

text \<open>What the program relies on from \<^verbatim>\<open>lstsq\<close>: the solution has one entry per column of
  \<open>A\<close>.\<close>

definition solver_shape :: "solver \<Rightarrow> bool" where
  "solver_shape lstsq = (\<forall>A b. A \<noteq> [] \<longrightarrow> length (fst (lstsq A b)) = length (hd A))"

text \<open>A QEF with \<open>n\<close> free columns: at least one row, every row of length \<open>n\<close>, one entry of
  \<open>b\<close> per row, and \<open>n\<close> slots of \<open>fixed_values\<close> still unset.\<close>

definition free_slots :: "real option list \<Rightarrow> nat" where
  "free_slots fs = length (filter (\<lambda>v. v = None) fs)"

definition qef_ok :: "QEF \<Rightarrow> nat \<Rightarrow> bool" where
  "qef_ok q n =
     (qef_A q \<noteq> [] \<and> (\<forall>row \<in> set (qef_A q). length row = n) \<and>
      length (qef_b q) = length (qef_A q) \<and> free_slots (fixed_values q) = n)"

text \<open>For running the model on concrete inputs: the exact minimum-norm least-squares solution
  of \<open>A x = b\<close> when the columns of \<open>A\<close> are mutually orthogonal (each unknown is then solved on
  its own, a zero column gives 0), and the residual list as numpy reports it (the sum of
  squares when \<open>A\<close> has full column rank and more rows than columns, empty otherwise).\<close>

definition lstsq_orth :: solver where
  "lstsq_orth A b =
     (let cols = map (\<lambda>j. map (\<lambda>row. row ! j) A) [0..<length (hd A)];
          x = map (\<lambda>a. if dot a a = 0 then 0 else dot a b / dot a a) cols;
          d = map2 (\<lambda>row bi. dot row x - bi) A b
      in (x, if list_all (\<lambda>a. dot a a \<noteq> 0) cols \<and> length (hd A) < length A
             then [sum_list (map (\<lambda>t. t * t) d)] else []))"

text \<open>Two crossing points at \<open>(5, 5)\<close> with the axis directions as normals, in the lists at
  addresses 0 (positions) and 1 (normals): they pull the vertex to \<open>(5, 5)\<close>, far outside the
  cell at the origin.\<close>

definition far_store :: store where
  "far_store = (\<lambda>a. if a = 0 then [[5, 5], [5, 5]] else if a = 1 then [[1, 0], [0, 1]] else [])"

definition far_store_3d :: store where
  "far_store_3d =
     (\<lambda>a. if a = 0 then [[5, 5, 5], [5, 5, 5], [5, 5, 5]]
          else if a = 1 then [[1, 0, 0], [0, 1, 0], [0, 0, 1]] else [])"

text \<open>The corners of a cell in the order in which the last tier evaluates them.\<close>

definition corners_2d :: "real \<Rightarrow> real \<Rightarrow> real \<Rightarrow> vec list" where
  "corners_2d cell_size x y =
     [[x + 0, y + 0], [x + 0, y + cell_size], [x + cell_size, y + 0], [x + cell_size, y + cell_size]]"

definition corners_3d :: "real \<Rightarrow> real \<Rightarrow> real \<Rightarrow> real \<Rightarrow> vec list" where
  "corners_3d cell_size x y z =
     [[x + 0, y + 0, z + 0], [x + 0, y + 0, z + cell_size],
      [x + 0, y + cell_size, z + 0], [x + 0, y + cell_size, z + cell_size],
      [x + cell_size, y + 0, z + 0], [x + cell_size, y + 0, z + cell_size],
      [x + cell_size, y + cell_size, z + 0], [x + cell_size, y + cell_size, z + cell_size]]"

text \<open>The QEF built from the lists of \<open>far_store\<close>, as a value and as an object whose
  \<open>fixed_values\<close> list is the only list of a heap.\<close>

definition far_qef :: QEF where
  "far_qef = \<lparr>qef_A = [[1, 0], [0, 1]], qef_b = [5, 5], fixed_values = [None, None]\<rparr>"

definition far_obj :: QEF_obj where
  "far_obj = \<lparr>obj_A = [[1, 0], [0, 1]], obj_b = [5, 5], obj_fixed = 0\<rparr>"

definition far_heap :: fv_heap where
  "far_heap = \<lparr>cell = (\<lambda>a. if a = 0 then [None, None] else []), fresh = 1\<rparr>"

text \<open>The number that \<^verbatim>\<open>evaluate\<close> returns when the point has one coordinate per column and
  \<open>b\<close> one entry per row: the Euclidean norm of \<open>A x - b\<close>.\<close>

definition residual_at :: "QEF \<Rightarrow> vec \<Rightarrow> real" where
  "residual_at q x =
     sqrt (sum_list (map (\<lambda>t. t * t) (map2 (-) (map (\<lambda>row. dot row x) (qef_A q)) (qef_b q))))"

definition far_qef_3d :: QEF where
  "far_qef_3d = \<lparr>qef_A = [[1, 0, 0], [0, 1, 0], [0, 0, 1]], qef_b = [5, 5, 5],
                  fixed_values = [None, None, None]\<rparr>"

text \<open>The shipped settings without the bias step, and the same with a negative cell size.\<close>

definition plain_settings :: settings where
  "plain_settings = default_settings\<lparr>BIAS := False\<rparr>"

definition negative_cell_settings :: settings where
  "negative_cell_settings = default_settings\<lparr>BIAS := False, CELL_SIZE := - 1\<rparr>"

definition clip_settings :: settings where
  "clip_settings = default_settings\<lparr>CLIP := True\<rparr>"

text \<open>Example fields for the vertex of a cell: a field that is negative everywhere, a 3D field
  whose only solid grid point is the origin, constant normal functions, and the shipped
  settings with \<^verbatim>\<open>ADAPTIVE\<close> switched off.\<close>

definition outside_field_2d :: "real \<Rightarrow> real \<Rightarrow> real" where
  "outside_field_2d x y = - 1"

definition outside_field_3d :: "real \<Rightarrow> real \<Rightarrow> real \<Rightarrow> real" where
  "outside_field_3d x y z = - 1"

definition tie_field_3d :: "real \<Rightarrow> real \<Rightarrow> real \<Rightarrow> real" where
  "tie_field_3d x y z = (if x = 0 \<and> y = 0 \<and> z = 0 then 1 else - 1)"

definition flat_normal_2d :: "real \<Rightarrow> real \<Rightarrow> V2" where
  "flat_normal_2d x y = (1, 0)"

definition flat_normal_3d :: "real \<Rightarrow> real \<Rightarrow> real \<Rightarrow> V3" where
  "flat_normal_3d x y z = (1, 0, 0)"

definition midpoint_settings :: settings where
  "midpoint_settings = default_settings\<lparr>ADAPTIVE := False\<rparr>"


section \<open>Theorems: the hardcoded case table\<close>

subsection \<open>Evaluation rules\<close>


lemma solid_alt: "solid bits v = odd (bits div 2 ^ v)"
proof -
  have "(2 ^ v AND bits) > 0 \<longleftrightarrow> bit bits v"
    by (metis and.commute and_exp_eq_0_iff_not_bit bot_nat_0.not_eq_extremum)
  then show ?thesis by (simp add: solid_def bit_iff_odd)
qed

lemma hi_corners:
  "filter (on_face 0 1) [0..<length VERTICES] = [1, 2, 5, 6]"
  "filter (on_face 1 1) [0..<length VERTICES] = [2, 3, 6, 7]"
  "filter (on_face 2 1) [0..<length VERTICES] = [4, 5, 6, 7]"
  "filter (on_face 0 (Suc 0)) [0..<length VERTICES] = [1, 2, 5, 6]"
  "filter (on_face (Suc 0) (Suc 0)) [0..<length VERTICES] = [2, 3, 6, 7]"
  "filter (on_face 2 (Suc 0)) [0..<length VERTICES] = [4, 5, 6, 7]"
  by code_simp+

lemma across_simps:
  "across 0 1 = 0" "across 0 (Suc 0) = 0" "across 0 2 = 3" "across 0 5 = 4" "across 0 6 = 7"
  "across 1 2 = 1" "across (Suc 0) 2 = Suc 0" "across 1 3 = 0" "across (Suc 0) 3 = 0"
  "across 1 6 = 5" "across (Suc 0) 6 = 5" "across 1 7 = 4" "across (Suc 0) 7 = 4"
  "across 2 4 = 0" "across 2 5 = 1" "across 2 6 = 2" "across 2 7 = 3"
  by code_simp+

lemma edge_on_face_iff:
  "edge_on_face 0 0 e = (e \<in> set [3, 7, 8, 11])"
  "edge_on_face 0 1 e = (e \<in> set [1, 5, 9, 10])"
  "edge_on_face 1 0 e = (e \<in> set [0, 4, 8, 9])"
  "edge_on_face 1 1 e = (e \<in> set [2, 6, 10, 11])"
  "edge_on_face 2 0 e = (e \<in> set [0, 1, 2, 3])"
  "edge_on_face 2 1 e = (e \<in> set [4, 5, 6, 7])"
proof -
  have len: "length EDGES = 12" by (simp add: EDGES_def)
  have tab: "list_all (\<lambda>e.
      edge_on_face 0 0 e = (e \<in> set [3, 7, 8, 11]) \<and>
      edge_on_face 0 1 e = (e \<in> set [1, 5, 9, 10]) \<and>
      edge_on_face 1 0 e = (e \<in> set [0, 4, 8, 9]) \<and>
      edge_on_face 1 1 e = (e \<in> set [2, 6, 10, 11]) \<and>
      edge_on_face 2 0 e = (e \<in> set [0, 1, 2, 3]) \<and>
      edge_on_face 2 1 e = (e \<in> set [4, 5, 6, 7])) [0..<12]"
    by code_simp
  have all: "edge_on_face 0 0 e = (e \<in> set [3, 7, 8, 11]) \<and>
      edge_on_face 0 1 e = (e \<in> set [1, 5, 9, 10]) \<and>
      edge_on_face 1 0 e = (e \<in> set [0, 4, 8, 9]) \<and>
      edge_on_face 1 1 e = (e \<in> set [2, 6, 10, 11]) \<and>
      edge_on_face 2 0 e = (e \<in> set [0, 1, 2, 3]) \<and>
      edge_on_face 2 1 e = (e \<in> set [4, 5, 6, 7])"
  proof (cases "e < 12")
    case True
    then have "e \<in> set [0..<12]" by simp
    with tab show ?thesis unfolding list_all_iff by blast
  next
    case False
    then have "\<not> edge_on_face a k e" for a k by (simp add: edge_on_face_def len)
    with False show ?thesis by simp
  qed
  show "edge_on_face 0 0 e = (e \<in> set [3, 7, 8, 11])"
    "edge_on_face 0 1 e = (e \<in> set [1, 5, 9, 10])"
    "edge_on_face 1 0 e = (e \<in> set [0, 4, 8, 9])"
    "edge_on_face 1 1 e = (e \<in> set [2, 6, 10, 11])"
    "edge_on_face 2 0 e = (e \<in> set [0, 1, 2, 3])"
    "edge_on_face 2 1 e = (e \<in> set [4, 5, 6, 7])"
    using all by blast+
qed

lemma edge_on_face_iff_Suc:
  "edge_on_face (Suc 0) 0 e = (e \<in> set [0, 4, 8, 9])"
  "edge_on_face (Suc 0) (Suc 0) e = (e \<in> set [2, 6, 10, 11])"
  "edge_on_face 0 (Suc 0) e = (e \<in> set [1, 5, 9, 10])"
  "edge_on_face 2 (Suc 0) e = (e \<in> set [4, 5, 6, 7])"
  using edge_on_face_iff [of e] by simp_all

lemma edge_across_simps:
  "edge_across 0 1 = 3" "edge_across 0 (Suc 0) = 3" "edge_across 0 5 = 7"
  "edge_across 0 9 = 8" "edge_across 0 10 = 11"
  "edge_across 1 2 = 0" "edge_across (Suc 0) 2 = 0" "edge_across 1 6 = 4" "edge_across (Suc 0) 6 = 4"
  "edge_across 1 10 = 9" "edge_across (Suc 0) 10 = 9" "edge_across 1 11 = 8" "edge_across (Suc 0) 11 = 8"
  "edge_across 2 4 = 0" "edge_across 2 5 = 1" "edge_across 2 6 = 2" "edge_across 2 7 = 3"
  by code_simp+

lemma sides3: "sides [a, b, c] = [(a, b), (b, c), (c, a)]"
  by (simp add: sides_def)

lemmas pattern_eval = entry_matches_pattern_def carried_segments_def entry_segments_def
  key_hi_def key_lo_def hi_corners across_simps edge_on_face_iff edge_on_face_iff_Suc
  edge_across_simps sides3 norm_seg_def solid_alt face_pattern_def

lemma cases_match_pattern_x: "all_entries (entry_matches_pattern 0) 0 cases"
  unfolding cases_def by (simp add: pattern_eval)

lemma cases_match_pattern_y: "all_entries (entry_matches_pattern 1) 0 cases"
  unfolding cases_def by (simp add: pattern_eval)

lemma cases_match_pattern_z: "all_entries (entry_matches_pattern 2) 0 cases"
  unfolding cases_def by (simp add: pattern_eval)


lemma all_entries_nth:
  "all_entries P n xs \<Longrightarrow> 0 \<le> n \<Longrightarrow> i < length xs \<Longrightarrow> P (nat n + i) (xs ! i)"
proof (induction xs arbitrary: n i)
  case Nil
  then show ?case by simp
next
  case (Cons c cs)
  show ?case
  proof (cases i)
    case 0
    with Cons.prems show ?thesis by simp
  next
    case (Suc j)
    from Cons.prems have "all_entries P (n + 1) cs" and "0 \<le> n + 1" by simp_all
    moreover from Cons.prems Suc have "j < length cs" by simp
    ultimately have "P (nat (n + 1) + j) (cs ! j)" by (rule Cons.IH)
    moreover from Cons.prems have "nat (n + 1) + j = nat n + Suc j" by simp
    ultimately show ?thesis using Suc by simp
  qed
qed

lemma length_cases: "length cases = 256"
  unfolding cases_def by simp

lemma edge_separates_simps:
  "edge_separates b 0 = (solid b 0 \<noteq> solid b 1)"
  "edge_separates b 1 = (solid b 1 \<noteq> solid b 2)"
  "edge_separates b (Suc 0) = (solid b 1 \<noteq> solid b 2)"
  "edge_separates b 2 = (solid b 2 \<noteq> solid b 3)"
  "edge_separates b 3 = (solid b 3 \<noteq> solid b 0)"
  "edge_separates b 4 = (solid b 4 \<noteq> solid b 5)"
  "edge_separates b 5 = (solid b 5 \<noteq> solid b 6)"
  "edge_separates b 6 = (solid b 6 \<noteq> solid b 7)"
  "edge_separates b 7 = (solid b 7 \<noteq> solid b 4)"
  "edge_separates b 8 = (solid b 0 \<noteq> solid b 4)"
  "edge_separates b 9 = (solid b 1 \<noteq> solid b 5)"
  "edge_separates b 10 = (solid b 2 \<noteq> solid b 6)"
  "edge_separates b 11 = (solid b 3 \<noteq> solid b 7)"
  by (simp_all add: edge_separates_def EDGES_def)

lemma cases_all_separate: "all_entries entry_separates 0 cases"
  unfolding cases_def by (simp add: entry_separates_def edge_separates_simps solid_alt)

lemma cases_first_last: "cases ! 0 = [] \<and> cases ! 255 = []"
  unfolding cases_def by simp

subsection \<open>Every triangle edge separates a solid from an empty corner\<close>

text \<open>Claim C4. The table \<open>cases\<close> has 256 entries; for every bitmask below 256, every
  triangle of its entry has three edge identifiers, each naming an edge of \<open>EDGES\<close> whose two
  end corners differ in solidity under that bitmask; the entries of bitmasks 0 and 255 are
  empty.\<close>

theorem cases_edges_separate:
  "length cases = 256 \<and> cases ! 0 = [] \<and> cases ! 255 = [] \<and>
   (\<forall>bits < 256. \<forall>face \<in> set (cases ! bits). length face = 3 \<and>
      (\<forall>e \<in> set face. e < length EDGES \<and>
         solid bits (fst (EDGES ! e)) \<noteq> solid bits (snd (EDGES ! e))))"
proof -
  have "length face = 3 \<and> (\<forall>e \<in> set face. e < length EDGES \<and>
         solid bits (fst (EDGES ! e)) \<noteq> solid bits (snd (EDGES ! e)))"
    if "bits < 256" and "face \<in> set (cases ! bits)" for bits face
  proof -
    from that(1) have "entry_separates (nat 0 + bits) (cases ! bits)"
      by (intro all_entries_nth [OF cases_all_separate]) (simp_all add: length_cases)
    with that(2) show ?thesis
      by (auto simp add: entry_separates_def edge_separates_def list_all_iff split: prod.splits)
  qed
  with length_cases cases_first_last show ?thesis by blast
qed

theorem cases_edges_separate_witness:
  "(3::nat) < 256 \<and> [8, 9, 1] \<in> set (cases ! 3) \<and> EDGES ! 9 = (1, 5) \<and>
   solid 3 1 \<and> \<not> solid 3 5"
proof -
  have m: "[8, 9, 1] \<in> set (cases ! 3)" unfolding cases_def by simp
  have e: "EDGES ! 9 = (1, 5)" by (simp add: EDGES_def)
  from cases_edges_separate m have "solid 3 (fst (EDGES ! 9)) \<noteq> solid 3 (snd (EDGES ! 9))"
    by fastforce
  moreover have "solid 3 1" by (simp add: solid_alt)
  ultimately show ?thesis using m e by simp
qed

subsection \<open>Adjacent cubes draw the same segments on their shared face\<close>

lemma set_seg_insert: "set (seg_insert s ts) = insert s (set ts)"
  by (induction ts) auto

lemma set_seg_sort: "set (seg_sort ss) = set ss"
  by (induction ss) (simp_all add: set_seg_insert)

lemma faces_agree_keys: "faces_agree axis b1 b2 \<Longrightarrow> key_hi axis b1 = key_lo axis b2"
  unfolding faces_agree_def key_hi_def key_lo_def by (rule map_cong) auto

lemma cases_match_pattern:
  assumes "axis < 3" and "bits < 256"
  shows "entry_matches_pattern axis bits (cases ! bits)"
proof -
  from assms(1) have "axis = 0 \<or> axis = 1 \<or> axis = 2" by auto
  then have "all_entries (entry_matches_pattern axis) 0 cases"
    using cases_match_pattern_x cases_match_pattern_y cases_match_pattern_z by auto
  from all_entries_nth [OF this, of bits] assms(2) show ?thesis
    by (simp add: length_cases)
qed

text \<open>Claim C3. Let cube \<open>B\<close> be the neighbour of cube \<open>A\<close> along any of the three axes. For
  every pair of bitmasks \<open>b1\<close> (of \<open>A\<close>) and \<open>b2\<close> (of \<open>B\<close>) that agree on the four corners of
  the shared face, the segments that the triangles of \<open>cases ! b1\<close> draw on that face, named by
  the edges of \<open>B\<close>, are the segments that the triangles of \<open>cases ! b2\<close> draw on it.\<close>

theorem cases_face_consistent:
  assumes "axis < 3" and "b1 < 256" and "b2 < 256" and "faces_agree axis b1 b2"
  shows "set (shared_face_segments axis b1) = set (face_segments axis 0 b2)"
proof -
  from cases_match_pattern [OF assms(1,2)]
  have "seg_sort (shared_face_segments axis b1) = face_pattern axis ! key_num (key_hi axis b1)"
    by (simp add: entry_matches_pattern_def shared_face_segments_def)
  moreover from cases_match_pattern [OF assms(1,3)]
  have "seg_sort (face_segments axis 0 b2) = face_pattern axis ! key_num (key_lo axis b2)"
    by (simp add: entry_matches_pattern_def face_segments_def)
  ultimately have "seg_sort (shared_face_segments axis b1) = seg_sort (face_segments axis 0 b2)"
    using faces_agree_keys [OF assms(4)] by simp
  then have "set (seg_sort (shared_face_segments axis b1)) = set (seg_sort (face_segments axis 0 b2))"
    by simp
  then show ?thesis by (simp only: set_seg_sort)
qed

theorem cases_face_consistent_witness:
  "(0::nat) < 3 \<and> (6::nat) < 256 \<and> (9::nat) < 256 \<and> faces_agree 0 6 9 \<and>
   face_segments 0 0 9 = [(8, 11)] \<and> set (shared_face_segments 0 6) = {(8, 11)}"
proof -
  have a: "faces_agree 0 6 9"
    unfolding faces_agree_def by code_simp
  have s: "face_segments 0 0 9 = [(8, 11)]"
    by code_simp
  from cases_face_consistent [of 0 6 9] a s show ?thesis by simp
qed

section \<open>Theorems: the edge interpolator\<close>

lemma bnd_Inr [simp]: "bnd (Inr v) f = f v"
  by (simp add: bnd_def)

lemma bnd_Inl [simp]: "bnd (Inl e) f = Inl e"
  by (simp add: bnd_def)

lemma bnd_eq_Inr_iff: "bnd m f = Inr r \<longleftrightarrow> (\<exists>v. m = Inr v \<and> f v = Inr r)"
  by (cases m) simp_all

lemma root_in_unit_interval:
  fixes v0 v1 :: real
  assumes "(v1 > 0) \<noteq> (v0 > 0)"
  shows "0 \<le> (0 - v0) / (v1 - v0) \<and> (0 - v0) / (v1 - v0) \<le> 1"
proof (cases "v0 > 0")
  case True
  with assms have "v1 \<le> 0" by auto
  with True have neg: "v1 - v0 < 0" by simp
  from True have "0 - v0 \<le> 0" by simp
  with neg have "0 \<le> (0 - v0) / (v1 - v0)"
    by (simp only: zero_le_divide_iff) simp
  moreover from \<open>v1 \<le> 0\<close> have "v1 - v0 \<le> 0 - v0" by simp
  with neg have "(0 - v0) / (v1 - v0) \<le> 1"
    by (simp only: divide_le_eq_1_neg)
  ultimately show ?thesis by simp
next
  case False
  with assms have "v1 > 0" by auto
  with False have pos: "v1 - v0 > 0" by simp
  from False have "0 \<le> 0 - v0" by simp
  with pos have "0 \<le> (0 - v0) / (v1 - v0)" by (simp only: zero_le_divide_iff) simp
  moreover from \<open>v1 > 0\<close> have "0 - v0 \<le> v1 - v0" by simp
  with pos have "(0 - v0) / (v1 - v0) \<le> 1"
    by (simp only: divide_le_eq_1_pos)
  ultimately show ?thesis by simp
qed

lemma scaled_in_cell:
  fixes t cs :: real
  assumes "0 \<le> t \<and> t \<le> 1" "0 \<le> cs"
  shows "0 \<le> t * cs \<and> t * cs \<le> cs"
proof -
  from assms have "0 \<le> t * cs" by simp
  moreover from assms have "t * cs \<le> 1 * cs" by (intro mult_right_mono) simp_all
  ultimately show ?thesis by simp
qed

lemma adapt_bounds:
  assumes "(v1 > 0) \<noteq> (v0 > 0)" and "0 \<le> cs"
  shows "\<exists>r. adapt adaptive cs v0 v1 = Inr r \<and> 0 \<le> r \<and> r \<le> cs"
proof (cases adaptive)
  case True
  from scaled_in_cell [OF root_in_unit_interval [OF assms(1)] assms(2)]
  have "0 \<le> (0 - v0) / (v1 - v0) * cs \<and> (0 - v0) / (v1 - v0) * cs \<le> cs" .
  moreover from True assms(1) have "adapt adaptive cs v0 v1 = Inr ((0 - v0) / (v1 - v0) * cs)"
    unfolding adapt_def by simp
  ultimately show ?thesis by blast
next
  case False
  with assms(1) have "adapt adaptive cs v0 v1 = Inr (0.5 * cs)"
    unfolding adapt_def by simp
  moreover from assms(2) have "0 \<le> 0.5 * cs \<and> 0.5 * cs \<le> cs" by simp
  ultimately show ?thesis by blast
qed

text \<open>Claim C9. For samples \<open>v0\<close>, \<open>v1\<close> of which exactly one is strictly positive, and a
  cell size that is not negative: in adaptive mode \<open>adapt\<close> returns
  \<open>(0 - v0) / (v1 - v0) * CELL_SIZE\<close>, otherwise \<open>0.5 * CELL_SIZE\<close> whatever the samples are,
  and in both modes the result lies between 0 and the cell size.\<close>

theorem adapt_root_or_midpoint:
  assumes "(v1 > 0) \<noteq> (v0 > 0)" and "0 \<le> cs"
  shows "adapt True cs v0 v1 = Inr ((0 - v0) / (v1 - v0) * cs) \<and>
         adapt False cs v0 v1 = Inr (0.5 * cs) \<and>
         (\<forall>adaptive. \<exists>r. adapt adaptive cs v0 v1 = Inr r \<and> 0 \<le> r \<and> r \<le> cs)"
proof -
  from assms(1) have "adapt True cs v0 v1 = Inr ((0 - v0) / (v1 - v0) * cs)"
    and "adapt False cs v0 v1 = Inr (0.5 * cs)"
    unfolding adapt_def by simp_all
  with adapt_bounds [OF assms] show ?thesis by blast
qed

theorem adapt_root_or_midpoint_witness:
  "((1::real) > 0) \<noteq> ((-1::real) > 0) \<and> (0::real) \<le> 1 \<and>
   adapt True 1 (-1) 1 = Inr 0.5 \<and> adapt False 1 (-1) 1 = Inr 0.5"
  using adapt_root_or_midpoint [of 1 "-1" 1] by simp

section \<open>Theorems: the case-table generator\<close>

lemma ALL_CASES_keys:
  "map_option (map fst) ALL_CASES =
     Some [0, 1, 3, 5, 65, 50, 67, 74, 51, 177, 105, 113, 58, 165, 178, 250, 188,
           181, 2, 6, 10, 130, 100, 134, 133, 102, 114, 195, 226, 101, 90, 116, 8,
           12, 72, 40, 7, 44, 164, 15, 27, 170, 43, 135, 23, 34, 66, 49, 162, 150,
           147, 53, 57, 131]"
  by code_simp

lemma ALL_CASES_at_6:
  "map_option (\<lambda>al. map_of al 6) ALL_CASES = Some (Some [[11, 0, 2], [11, 8, 0]])"
  by code_simp

lemma bitmask_2_twice:
  "bits_apply (last [ROTATE_3]) 1 = 2 \<and> operations_apply [ROTATE_3] [[8, 0, 3]] = Some [[0, 9, 1]] \<and>
   bits_apply (last [REFLECT]) 1 = 2 \<and> operations_apply [REFLECT] [[8, 0, 3]] = Some [[9, 0, 1]]"
  by code_simp

lemma test1_fails_at_6: "\<not> test1_entry (6, [[11, 0, 2], [11, 8, 0]])"
  by code_simp

text \<open>Claim C2, evaluated on the generator as it is written. The loop runs four operation
  sequences over the fifteen base cases only, so the table ends with 54 keys (bitmasks 4 and
  255, among 202 others, have no entry). A key can be assigned more than once without any
  check: bitmask 2 is derived from base case 1 by \<open>ROTATE_3\<close> and again by \<open>REFLECT\<close>, with
  opposite windings. The entry stored for bitmask 6 comes from three rotations of the triangles
  but one rotation of the bitmask, and fails the assertion of \<^verbatim>\<open>test1\<close>.\<close>

theorem generator_table_incomplete:
  "\<exists>al. ALL_CASES = Some al \<and> length al = 54 \<and> distinct (map fst al) \<and>
        4 \<notin> set (map fst al) \<and> 255 \<notin> set (map fst al) \<and>
        map_of al 6 = Some [[11, 0, 2], [11, 8, 0]] \<and>
        \<not> test1_entry (6, [[11, 0, 2], [11, 8, 0]]) \<and>
        bits_apply (last [ROTATE_3]) 1 = 2 \<and>
        operations_apply [ROTATE_3] [[8, 0, 3]] = Some [[0, 9, 1]] \<and>
        bits_apply (last [REFLECT]) 1 = 2 \<and>
        operations_apply [REFLECT] [[8, 0, 3]] = Some [[9, 0, 1]]"
proof -
  from ALL_CASES_keys obtain al where al: "ALL_CASES = Some al"
    and keys: "map fst al =
       [0, 1, 3, 5, 65, 50, 67, 74, 51, 177, 105, 113, 58, 165, 178, 250, 188,
        181, 2, 6, 10, 130, 100, 134, 133, 102, 114, 195, 226, 101, 90, 116, 8,
        12, 72, 40, 7, 44, 164, 15, 27, 170, 43, 135, 23, 34, 66, 49, 162, 150,
        147, 53, 57, 131]"
    by (cases ALL_CASES) auto
  from keys have "length (map fst al) = 54" by simp
  then have len: "length al = 54" by simp
  from keys have d: "distinct (map fst al)" by simp
  from keys have m: "4 \<notin> set (map fst al)" "255 \<notin> set (map fst al)" by simp_all
  from ALL_CASES_at_6 [unfolded al] have six: "map_of al 6 = Some [[11, 0, 2], [11, 8, 0]]" by simp
  from al len d m six test1_fails_at_6 bitmask_2_twice show ?thesis by blast
qed

section \<open>Theorems: ties in 2D property painting\<close>

lemma split_edge_ends:
  "edge_v1 (hd (split_edge va vb pa pb)) = va \<and> edge_prop (hd (split_edge va vb pa pb)) = pa \<and>
   edge_v2 (last (split_edge va vb pa pb)) = vb \<and> edge_prop (last (split_edge va vb pa pb)) = pb"
  by (simp add: split_edge_def Let_def)

lemma cell_segments_tie_rule:
  assumes "cell_segments adaptive 1 f fp x y = Inr segs" and "(va, vb, pa, pb) \<in> set segs"
  shows "tie_rule fp x y va pa \<and> tie_rule fp x y vb pb"
  using assms unfolding cell_segments_def Let_def tie_rule_def
  by (cases "f x y > 0"; cases "f x (y + 1) > 0"; cases "f (x + 1) y > 0";
      cases "f (x + 1) (y + 1) > 0")
     (auto simp add: bnd_eq_Inr_iff)

text \<open>Claim C6, as the code has it. In every branch of \<^verbatim>\<open>marching_cubes_2d_single_cell\<close>
  (cell size 1, either setting of \<^verbatim>\<open>ADAPTIVE\<close>), a boundary vertex whose interpolated offset is
  exactly 0.5 is given the property sampled at the first end of its cell side, the first
  argument of the \<^verbatim>\<open>adapt\<close> call; the edge that \<^verbatim>\<open>split_edge\<close> starts at the first vertex and the
  edge it ends at the second vertex carry these properties.\<close>

theorem tie_goes_to_first_endpoint:
  assumes "cell_segments adaptive 1 f fp x y = Inr segs" and "(va, vb, pa, pb) \<in> set segs"
  shows "tie_rule fp x y va pa \<and> tie_rule fp x y vb pb \<and>
         edge_v1 (hd (split_edge va vb pa pb)) = va \<and>
         edge_prop (hd (split_edge va vb pa pb)) = pa \<and>
         edge_v2 (last (split_edge va vb pa pb)) = vb \<and>
         edge_prop (last (split_edge va vb pa pb)) = pb"
  using cell_segments_tie_rule [OF assms] split_edge_ends [of va vb pa pb] by blast

theorem tie_goes_to_first_endpoint_witness:
  "cell_segments True 1 tie_field tie_property 0 0 = Inr [((0.5, 0), (0, 0.5), 0, 0)] \<and>
   ((0.5, 0), (0, 0.5), 0, 0) \<in> set [((0.5, 0), (0, 0.5), 0, 0 :: nat)] \<and>
   tie_rule tie_property 0 0 (0.5, 0) 0 \<and> tie_property 0 0 = 0"
proof -
  have c: "cell_segments True 1 tie_field tie_property 0 0 = Inr [((0.5, 0), (0, 0.5), 0, 0)]"
    by (simp add: cell_segments_def tie_field_def tie_property_def adapt_def Let_def)
  have m: "((0.5, 0), (0, 0.5), 0, 0) \<in> set [((0.5, 0), (0, 0.5), 0, 0 :: nat)]" by simp
  from tie_goes_to_first_endpoint [OF c m] show ?thesis
    using c by (simp add: tie_property_def)
qed

text \<open>The claim as the specification words it gives a tie to the second end. On the cell at
  the origin with only the corner \<open>(0, 0)\<close> solid, both offsets are exactly 0.5, and the single
  edge produced carries the property of \<open>(0, 0)\<close>, the first argument of both \<^verbatim>\<open>adapt\<close> calls,
  which differs from the properties of the second arguments \<open>(1, 0)\<close> and \<open>(0, 1)\<close>.\<close>

theorem tie_second_endpoint_counterexample:
  "adapt True 1 (tie_field 0 0) (tie_field 1 0) = Inr 0.5 \<and>
   adapt True 1 (tie_field 0 0) (tie_field 0 1) = Inr 0.5 \<and>
   marching_cubes_2d_single_cell True 1 tie_field tie_property 0 0 =
     Inr [Edge (0.5, 0) (0, 0.5) (tie_property 0 0)] \<and>
   tie_property 0 0 \<noteq> tie_property 1 0 \<and> tie_property 0 0 \<noteq> tie_property 0 1"
  by (simp add: marching_cubes_2d_single_cell_def cell_segments_def tie_field_def
      tie_property_def adapt_def split_edge_def Let_def)

section \<open>Theorems: the QEF class\<close>

lemma np_sub_same: "length xs = length ys \<Longrightarrow> np_sub xs ys = Inr (map2 (-) xs ys)"
  by (simp add: np_sub_def)

lemma fix_axis_obj_result:
  assumes cols: "\<forall>row \<in> set (obj_A q). i < length row"
    and len: "length (obj_b q) = length (obj_A q)"
    and slot: "i < length (cell h (obj_fixed q))"
  shows "fix_axis_obj h q i val =
     Inr (\<lparr>obj_A = map (\<lambda>row. take i row @ drop (Suc i) row) (obj_A q),
           obj_b = map2 (-) (obj_b q) (map (\<lambda>row. row ! i * val) (obj_A q)),
           obj_fixed = fresh h\<rparr>,
          \<lparr>cell = (cell h)(fresh h := (cell h (obj_fixed q))[i := Some val]), fresh = Suc (fresh h)\<rparr>)"
proof -
  from cols have "\<not> (\<exists>row \<in> set (obj_A q). length row \<le> i)" by auto
  moreover from len have "np_sub (obj_b q) (map (\<lambda>row. row ! i * val) (obj_A q))
      = Inr (map2 (-) (obj_b q) (map (\<lambda>row. row ! i * val) (obj_A q)))"
    by (intro np_sub_same) simp
  ultimately show ?thesis using slot
    by (simp add: fix_axis_obj_def Let_def)
qed

lemma fix_axis_result:
  assumes "\<forall>row \<in> set (qef_A q). i < length row"
    and "length (qef_b q) = length (qef_A q)"
    and "i < length (fixed_values q)"
  shows "fix_axis q i val =
     Inr \<lparr>qef_A = map (\<lambda>row. take i row @ drop (Suc i) row) (qef_A q),
          qef_b = map2 (-) (qef_b q) (map (\<lambda>row. row ! i * val) (qef_A q)),
          fixed_values = (fixed_values q)[i := Some val]\<rparr>"
  using assms by (simp add: fix_axis_def fix_axis_obj_result deref_def)

lemma reinsert_ok:
  "free_slots fs + i \<le> length result \<Longrightarrow>
   \<exists>pos. reinsert fs result i = Inr pos \<and> length pos = length fs \<and>
     (\<forall>k < length fs. pos ! k =
        (case fs ! k of Some v \<Rightarrow> v | None \<Rightarrow> result ! (i + free_slots (take k fs))))"
proof (induction fs result i rule: reinsert.induct)
  case (1 result i)
  then show ?case by simp
next
  case (2 fs result i)
  from "2.prems" have i: "i < length result" and rest: "free_slots fs + (i + 1) \<le> length result"
    by (simp_all add: free_slots_def)
  from "2.IH" [OF i rest] obtain pos where pos: "reinsert fs result (i + 1) = Inr pos"
    "length pos = length fs"
    "\<forall>k < length fs. pos ! k =
        (case fs ! k of Some v \<Rightarrow> v | None \<Rightarrow> result ! (i + 1 + free_slots (take k fs)))"
    by blast
  have "(result ! i # pos) ! k =
        (case (None # fs) ! k of Some v \<Rightarrow> v | None \<Rightarrow> result ! (i + free_slots (take k (None # fs))))"
    if "k < length (None # fs)" for k
  proof (cases k)
    case 0
    then show ?thesis by (simp add: free_slots_def)
  next
    case (Suc j)
    with that pos(3) show ?thesis by (auto simp add: free_slots_def split: option.splits)
  qed
  with i pos(1,2) show ?case by simp
next
  case (3 v fs result i)
  from "3.prems" have rest: "free_slots fs + i \<le> length result"
    by (simp add: free_slots_def)
  from "3.IH" [OF rest] obtain pos where pos: "reinsert fs result i = Inr pos"
    "length pos = length fs"
    "\<forall>k < length fs. pos ! k =
        (case fs ! k of Some v \<Rightarrow> v | None \<Rightarrow> result ! (i + free_slots (take k fs)))"
    by blast
  have "(v # pos) ! k =
        (case (Some v # fs) ! k of Some v \<Rightarrow> v | None \<Rightarrow> result ! (i + free_slots (take k (Some v # fs))))"
    if "k < length (Some v # fs)" for k
  proof (cases k)
    case 0
    then show ?thesis by simp
  next
    case (Suc j)
    with that pos(3) show ?thesis by (auto simp add: free_slots_def split: option.splits)
  qed
  with pos(1,2) show ?case by simp
qed

lemma evaluate_ok:
  assumes "\<forall>row \<in> set (qef_A q). length row = length x" and "length (qef_b q) = length (qef_A q)"
  shows "evaluate q x =
     Inr (sqrt (sum_list (map (\<lambda>t. t * t) (map2 (-) (map (\<lambda>row. dot row x) (qef_A q)) (qef_b q)))))"
proof -
  from assms(1) have "\<not> (\<exists>row \<in> set (qef_A q). length row \<noteq> length x)" by auto
  with assms(2) show ?thesis by (simp add: evaluate_def np_sub_same)
qed

lemma solve_result:
  assumes len: "length (qef_b q) = length (qef_A q)"
    and rows: "\<forall>row \<in> set (qef_A q). length row = length (fst (lstsq (qef_A q) (qef_b q)))"
    and free: "free_slots (fixed_values q) = length (fst (lstsq (qef_A q) (qef_b q)))"
  shows "\<exists>res pos. solve lstsq q = Inr (res, ListPos pos) \<and> length pos = length (fixed_values q) \<and>
     (\<forall>k < length (fixed_values q). pos ! k =
        (case fixed_values q ! k of Some v \<Rightarrow> v
         | None \<Rightarrow> fst (lstsq (qef_A q) (qef_b q)) ! free_slots (take k (fixed_values q))))"
proof -
  obtain result residual where l: "lstsq (qef_A q) (qef_b q) = (result, residual)"
    by (cases "lstsq (qef_A q) (qef_b q)")
  from rows l have "\<forall>row \<in> set (qef_A q). length row = length result" by simp
  from evaluate_ok [OF this len] obtain e where e: "evaluate q result = Inr e" by blast
  from free l have "free_slots (fixed_values q) + 0 \<le> length result" by simp
  from reinsert_ok [OF this] obtain pos where pos: "reinsert (fixed_values q) result 0 = Inr pos"
    "length pos = length (fixed_values q)"
    "\<forall>k < length (fixed_values q). pos ! k =
        (case fixed_values q ! k of Some v \<Rightarrow> v | None \<Rightarrow> result ! (0 + free_slots (take k (fixed_values q))))"
    by blast
  from len l e pos(1) have "solve lstsq q = Inr (if length residual = 0 then e else residual ! 0, ListPos pos)"
    by (simp add: solve_def)
  with pos(2,3) l show ?thesis by (auto split: option.splits)
qed



lemma free_slots_update:
  "i < length fs \<Longrightarrow> fs ! i = None \<Longrightarrow> Suc (free_slots (fs[i := Some v])) = free_slots fs"
proof (induction fs arbitrary: i)
  case Nil
  then show ?case by simp
next
  case (Cons f fs)
  show ?case
  proof (cases i)
    case 0
    with Cons.prems show ?thesis by (simp add: free_slots_def)
  next
    case (Suc j)
    with Cons.prems have "Suc (free_slots (fs[j := Some v])) = free_slots fs"
      by (intro Cons.IH) simp_all
    with Suc show ?thesis by (simp add: free_slots_def)
  qed
qed

lemma free_slots_replicate: "free_slots (replicate k None) = k"
  by (simp add: free_slots_def)

lemma solver_shape_lstsq_orth: "solver_shape lstsq_orth"
  by (simp add: solver_shape_def lstsq_orth_def Let_def)


lemma qef_ok_solve:
  assumes "solver_shape lstsq" and "qef_ok s n"
  shows "\<exists>res pos. solve lstsq s = Inr (res, ListPos pos) \<and> length pos = length (fixed_values s) \<and>
     (\<forall>k < length (fixed_values s). pos ! k =
        (case fixed_values s ! k of Some v \<Rightarrow> v
         | None \<Rightarrow> fst (lstsq (qef_A s) (qef_b s)) ! free_slots (take k (fixed_values s))))"
proof -
  from assms(2) have ne: "qef_A s \<noteq> []" and rows: "\<forall>row \<in> set (qef_A s). length row = n"
    and len: "length (qef_b s) = length (qef_A s)" and free: "free_slots (fixed_values s) = n"
    by (simp_all add: qef_ok_def)
  from ne rows have "length (hd (qef_A s)) = n" by simp
  with assms(1) ne have n: "length (fst (lstsq (qef_A s) (qef_b s))) = n"
    by (simp add: solver_shape_def)
  show ?thesis
    by (rule solve_result) (simp_all add: len rows free n)
qed

lemma qef_ok_fix_axis:
  assumes "qef_ok q (Suc n)" and "i < length (fixed_values q)" and "fixed_values q ! i = None"
    and "i \<le> n"
  shows "\<exists>q'. fix_axis q i val = Inr q' \<and> qef_ok q' n \<and>
           fixed_values q' = (fixed_values q)[i := Some val]"
proof -
  from assms(1) have ne: "qef_A q \<noteq> []" and rows: "\<forall>row \<in> set (qef_A q). length row = Suc n"
    and len: "length (qef_b q) = length (qef_A q)" and free: "free_slots (fixed_values q) = Suc n"
    by (simp_all add: qef_ok_def)
  from rows assms(4) have cols: "\<forall>row \<in> set (qef_A q). i < length row" by auto
  note r = fix_axis_result [OF cols len assms(2), of val]
  from free_slots_update [OF assms(2,3), of val] free
  have f: "free_slots ((fixed_values q)[i := Some val]) = n" by simp
  from rows assms(4) have "\<forall>row \<in> set (qef_A q). length (take i row @ drop (Suc i) row) = n"
    by auto
  with ne len f have "qef_ok \<lparr>qef_A = map (\<lambda>row. take i row @ drop (Suc i) row) (qef_A q),
          qef_b = map2 (-) (qef_b q) (map (\<lambda>row. row ! i * val) (qef_A q)),
          fixed_values = (fixed_values q)[i := Some val]\<rparr> n"
    by (simp add: qef_ok_def)
  with r show ?thesis by simp
qed



lemma guarded_Inr:
  "(if \<not> R then Inl a else if Z then Inl b else if N then Inl c else Inr v) = Inr q
     \<Longrightarrow> R \<and> \<not> Z \<and> \<not> N \<and> q = v"
  by (cases R; cases Z; cases N) simp_all

lemma make_2d_ok:
  assumes "make_2d positions normals = Inr q" and "length normals \<le> length positions"
  shows "qef_ok q (length (hd normals)) \<and> fixed_values q = replicate (length (hd normals)) None
         \<and> qef_A q = normals"
proof -
  from guarded_Inr [OF assms(1) [unfolded make_2d_def]]
  have r: "rectangular normals" and ne: "normals \<noteq> []"
    and q: "q = \<lparr>qef_A = normals,
      qef_b = map (\<lambda>(v, n). v ! 0 * n ! 0 + v ! 1 * n ! 1) (zip positions normals),
      fixed_values = replicate (length (hd normals)) None\<rparr>"
    by blast+
  from r have rows: "\<forall>row \<in> set normals. length row = length (hd normals)"
    unfolding rectangular_def list_all_iff .
  have "qef_A q = normals" and "fixed_values q = replicate (length (hd normals)) None"
    and "length (qef_b q) = length (zip positions normals)"
    unfolding q by simp_all
  with ne assms(2) have "qef_A q \<noteq> []" and "length (qef_b q) = length (qef_A q)"
    and "free_slots (fixed_values q) = length (hd normals)"
    by (simp_all add: free_slots_replicate)
  with rows \<open>qef_A q = normals\<close> \<open>fixed_values q = replicate (length (hd normals)) None\<close>
  show ?thesis unfolding qef_ok_def by blast
qed

lemma make_3d_ok:
  assumes "make_3d positions normals = Inr q" and "length normals \<le> length positions"
  shows "qef_ok q (length (hd normals)) \<and> fixed_values q = replicate (length (hd normals)) None
         \<and> qef_A q = normals"
proof -
  from guarded_Inr [OF assms(1) [unfolded make_3d_def]]
  have r: "rectangular normals" and ne: "normals \<noteq> []"
    and q: "q = \<lparr>qef_A = normals,
      qef_b = map (\<lambda>(v, n). v ! 0 * n ! 0 + v ! 1 * n ! 1 + v ! 2 * n ! 2) (zip positions normals),
      fixed_values = replicate (length (hd normals)) None\<rparr>"
    by blast+
  from r have rows: "\<forall>row \<in> set normals. length row = length (hd normals)"
    unfolding rectangular_def list_all_iff .
  have "qef_A q = normals" and "fixed_values q = replicate (length (hd normals)) None"
    and "length (qef_b q) = length (zip positions normals)"
    unfolding q by simp_all
  with ne assms(2) have "qef_A q \<noteq> []" and "length (qef_b q) = length (qef_A q)"
    and "free_slots (fixed_values q) = length (hd normals)"
    by (simp_all add: free_slots_replicate)
  with rows \<open>qef_A q = normals\<close> \<open>fixed_values q = replicate (length (hd normals)) None\<close>
  show ?thesis unfolding qef_ok_def by blast
qed

lemma fresh_fix_then_solve:
  assumes sh: "solver_shape lstsq"
    and mk: "make_2d positions normals = Inr q0 \<or> make_3d positions normals = Inr q0"
    and lens: "length normals \<le> length positions" and i: "i < length (fixed_values q0)"
  shows "\<exists>q1 res pos. fix_axis q0 i val = Inr q1 \<and> solve lstsq q1 = Inr (res, ListPos pos) \<and>
           length pos = length (fixed_values q0) \<and> pos ! i = val"
proof -
  let ?k = "length (hd normals)"
  from mk lens have ok: "qef_ok q0 ?k" and fv: "fixed_values q0 = replicate ?k None"
    using make_2d_ok make_3d_ok by blast+
  from i fv obtain n where n: "?k = Suc n" and "i \<le> n" by (cases ?k) auto
  from i fv have none: "fixed_values q0 ! i = None" by simp
  from ok n have "qef_ok q0 (Suc n)" by simp
  from qef_ok_fix_axis [OF this i none \<open>i \<le> n\<close>, of val] obtain q1
    where q1: "fix_axis q0 i val = Inr q1" "qef_ok q1 n"
      "fixed_values q1 = (fixed_values q0)[i := Some val]" by blast
  from qef_ok_solve [OF sh q1(2)] obtain res pos
    where s: "solve lstsq q1 = Inr (res, ListPos pos)" "length pos = length (fixed_values q1)"
      "\<forall>k < length (fixed_values q1). pos ! k =
        (case fixed_values q1 ! k of Some v \<Rightarrow> v
         | None \<Rightarrow> fst (lstsq (qef_A q1) (qef_b q1)) ! free_slots (take k (fixed_values q1)))"
    by blast
  from s(3) q1(3) i have "pos ! i = val" by simp
  with q1(1) s(1,2) q1(3) show ?thesis by simp
qed

lemma upt2: "[0..<2] = [0, 1]" by (simp add: upt_rec)
lemma upt3: "[0..<3] = [0, 1, 2]" by (simp add: upt_rec)
lemma upt1: "[0..<Suc 0] = [0]" by (simp add: upt_rec)

lemma make_2d_far: "make_2d [[5, 5], [5, 5]] [[1, 0], [0, 1]] = Inr far_qef"
  by (simp add: make_2d_def rectangular_def far_qef_def)

lemma qef_ok_far: "qef_ok far_qef 2"
  by (simp add: qef_ok_def far_qef_def free_slots_def)

text \<open>Claim C8. (1) For a QEF object \<open>q\<close> whose matrix has a column \<open>i\<close> (and whose
  \<open>fixed_values\<close> list has a slot \<open>i\<close>), \<open>fix_axis\<close> returns a new object: its \<open>b\<close> is \<open>q\<close>'s
  \<open>b\<close> minus \<open>val\<close> times column \<open>i\<close> of \<open>q\<close>'s \<open>A\<close>, its \<open>A\<close> is \<open>q\<close>'s \<open>A\<close> without that
  column, its \<open>fixed_values\<close> list is a new list holding \<open>val\<close> at slot \<open>i\<close>; every list that
  existed before the call is unchanged, so \<open>q\<close> reads as before. (2) \<open>solve\<close> on a QEF with
  \<open>n\<close> free columns returns a position with one entry per slot, the fixed slots carrying their
  recorded values and the free slots the entries of the least-squares solution in order.
  (3) After a single \<open>fix_axis\<close> on a freshly built QEF, coordinate \<open>i\<close> of the position that
  \<open>solve\<close> returns is \<open>val\<close>.\<close>

theorem fix_axis_then_solve:
  "((\<forall>row \<in> set (obj_A q). i < length row) \<and> length (obj_b q) = length (obj_A q) \<and>
      i < length (cell h (obj_fixed q)) \<and> obj_fixed q < fresh h \<longrightarrow>
      (\<exists>q' h'. fix_axis_obj h q i val = Inr (q', h') \<and>
         length (obj_b q') = length (obj_b q) \<and> length (obj_A q') = length (obj_A q) \<and>
         (\<forall>j < length (obj_A q).
            obj_b q' ! j = obj_b q ! j - val * (obj_A q ! j ! i) \<and>
            obj_A q' ! j = take i (obj_A q ! j) @ drop (Suc i) (obj_A q ! j)) \<and>
         cell h' (obj_fixed q') = (cell h (obj_fixed q))[i := Some val] \<and>
         (\<forall>a < fresh h. cell h' a = cell h a) \<and> deref h' q = deref h q)) \<and>
   (solver_shape lstsq \<and> qef_ok s n \<longrightarrow>
      (\<exists>res pos. solve lstsq s = Inr (res, ListPos pos) \<and>
         length pos = length (fixed_values s) \<and>
         (\<forall>k < length (fixed_values s). pos ! k =
            (case fixed_values s ! k of Some v \<Rightarrow> v
             | None \<Rightarrow> fst (lstsq (qef_A s) (qef_b s)) ! free_slots (take k (fixed_values s)))))) \<and>
   (solver_shape lstsq \<and>
      (make_2d positions normals = Inr q0 \<or> make_3d positions normals = Inr q0) \<and>
      length normals \<le> length positions \<and> m < length (fixed_values q0) \<longrightarrow>
      (\<exists>q1 res pos. fix_axis q0 m val = Inr q1 \<and> solve lstsq q1 = Inr (res, ListPos pos) \<and>
         length pos = length (fixed_values q0) \<and> pos ! m = val))"
proof (intro conjI impI)
  assume a: "(\<forall>row \<in> set (obj_A q). i < length row) \<and> length (obj_b q) = length (obj_A q) \<and>
      i < length (cell h (obj_fixed q)) \<and> obj_fixed q < fresh h"
  then have cols: "\<forall>row \<in> set (obj_A q). i < length row"
    and len: "length (obj_b q) = length (obj_A q)"
    and slot: "i < length (cell h (obj_fixed q))" and alloc: "obj_fixed q < fresh h"
    by blast+
  let ?q' = "\<lparr>obj_A = map (\<lambda>row. take i row @ drop (Suc i) row) (obj_A q),
           obj_b = map2 (-) (obj_b q) (map (\<lambda>row. row ! i * val) (obj_A q)),
           obj_fixed = fresh h\<rparr>"
  let ?h' = "\<lparr>cell = (cell h)(fresh h := (cell h (obj_fixed q))[i := Some val]),
           fresh = Suc (fresh h)\<rparr>"
  have r: "fix_axis_obj h q i val = Inr (?q', ?h')"
    by (rule fix_axis_obj_result [OF cols len slot])
  have 1: "length (obj_b ?q') = length (obj_b q)" using len by simp
  have 2: "length (obj_A ?q') = length (obj_A q)" by simp
  have 3: "\<forall>j < length (obj_A q).
            obj_b ?q' ! j = obj_b q ! j - val * (obj_A q ! j ! i) \<and>
            obj_A ?q' ! j = take i (obj_A q ! j) @ drop (Suc i) (obj_A q ! j)"
    using len by (simp add: mult.commute)
  have 4: "cell ?h' (obj_fixed ?q') = (cell h (obj_fixed q))[i := Some val]" by simp
  have 5: "\<forall>a < fresh h. cell ?h' a = cell h a" by simp
  have 6: "deref ?h' q = deref h q" using alloc by (simp add: deref_def)
  from r 1 2 3 4 5 6
  show "\<exists>q' h'. fix_axis_obj h q i val = Inr (q', h') \<and>
         length (obj_b q') = length (obj_b q) \<and> length (obj_A q') = length (obj_A q) \<and>
         (\<forall>j < length (obj_A q).
            obj_b q' ! j = obj_b q ! j - val * (obj_A q ! j ! i) \<and>
            obj_A q' ! j = take i (obj_A q ! j) @ drop (Suc i) (obj_A q ! j)) \<and>
         cell h' (obj_fixed q') = (cell h (obj_fixed q))[i := Some val] \<and>
         (\<forall>a < fresh h. cell h' a = cell h a) \<and> deref h' q = deref h q"
    by blast
next
  assume "solver_shape lstsq \<and> qef_ok s n"
  then show "\<exists>res pos. solve lstsq s = Inr (res, ListPos pos) \<and>
         length pos = length (fixed_values s) \<and>
         (\<forall>k < length (fixed_values s). pos ! k =
            (case fixed_values s ! k of Some v \<Rightarrow> v
             | None \<Rightarrow> fst (lstsq (qef_A s) (qef_b s)) ! free_slots (take k (fixed_values s))))"
    using qef_ok_solve by blast
next
  assume "solver_shape lstsq \<and>
      (make_2d positions normals = Inr q0 \<or> make_3d positions normals = Inr q0) \<and>
      length normals \<le> length positions \<and> m < length (fixed_values q0)"
  then show "\<exists>q1 res pos. fix_axis q0 m val = Inr q1 \<and> solve lstsq q1 = Inr (res, ListPos pos) \<and>
         length pos = length (fixed_values q0) \<and> pos ! m = val"
    using fresh_fix_then_solve by blast
qed

theorem fix_axis_then_solve_witness:
  "list_all (\<lambda>row. 0 < length row) (obj_A far_obj) \<and>
   length (obj_b far_obj) = length (obj_A far_obj) \<and>
   0 < length (cell far_heap (obj_fixed far_obj)) \<and> obj_fixed far_obj < fresh far_heap \<and>
   solver_shape lstsq_orth \<and> qef_ok far_qef 2 \<and>
   make_2d [[5, 5], [5, 5]] [[1, 0], [0, 1]] = Inr far_qef \<and>
   (\<exists>q' h'. fix_axis_obj far_heap far_obj 0 3 = Inr (q', h') \<and>
      obj_A q' = [[0], [1]] \<and> obj_b q' = [2, 5] \<and>
      cell h' (obj_fixed q') = [Some 3, None] \<and> deref h' far_obj = deref far_heap far_obj) \<and>
   (\<exists>res pos. solve lstsq_orth far_qef = Inr (res, ListPos pos) \<and> length pos = 2) \<and>
   (\<exists>q1 res pos. fix_axis far_qef 0 3 = Inr q1 \<and>
      solve lstsq_orth q1 = Inr (res, ListPos pos) \<and> pos ! 0 = 3)"
proof -
  have h1: "(\<forall>row \<in> set (obj_A far_obj). 0 < length row) \<and>
      length (obj_b far_obj) = length (obj_A far_obj) \<and>
      0 < length (cell far_heap (obj_fixed far_obj)) \<and> obj_fixed far_obj < fresh far_heap"
    by (simp add: far_obj_def far_heap_def)
  have h2: "solver_shape lstsq_orth \<and> qef_ok far_qef 2"
    using solver_shape_lstsq_orth qef_ok_far by simp
  have h3: "solver_shape lstsq_orth \<and>
      (make_2d [[5, 5], [5, 5]] [[1, 0], [0, 1]] = Inr far_qef \<or>
       make_3d [[5, 5], [5, 5]] [[1, 0], [0, 1]] = Inr far_qef) \<and>
      length [[1, 0], [0, 1 :: real]] \<le> length [[5, 5], [5, 5 :: real]] \<and>
      0 < length (fixed_values far_qef)"
    using solver_shape_lstsq_orth make_2d_far by (simp add: far_qef_def)
  note t = fix_axis_then_solve [of far_obj 0 far_heap 3 lstsq_orth far_qef 2
      "[[5, 5], [5, 5]]" "[[1, 0], [0, 1]]" far_qef 0]
  from t h1 obtain q' h' where c1: "fix_axis_obj far_heap far_obj 0 3 = Inr (q', h')"
    "cell h' (obj_fixed q') = (cell far_heap (obj_fixed far_obj))[0 := Some 3]"
    "deref h' far_obj = deref far_heap far_obj"
    by blast
  have e: "fix_axis_obj far_heap far_obj 0 3 =
      Inr (\<lparr>obj_A = [[0], [1]], obj_b = [2, 5], obj_fixed = 1\<rparr>,
           \<lparr>cell = (cell far_heap)(1 := [Some 3, None]), fresh = 2\<rparr>)"
    by (simp add: fix_axis_obj_def far_obj_def far_heap_def np_sub_def Let_def)
  from c1(1) e have "obj_A q' = [[0], [1]]" and "obj_b q' = [2, 5]" by auto
  moreover from c1(2) have "cell h' (obj_fixed q') = [Some 3, None]"
    by (simp add: far_obj_def far_heap_def)
  ultimately have c1': "\<exists>q' h'. fix_axis_obj far_heap far_obj 0 3 = Inr (q', h') \<and>
      obj_A q' = [[0], [1]] \<and> obj_b q' = [2, 5] \<and>
      cell h' (obj_fixed q') = [Some 3, None] \<and> deref h' far_obj = deref far_heap far_obj"
    using c1(1,3) by blast
  from t h2 have c2: "\<exists>res pos. solve lstsq_orth far_qef = Inr (res, ListPos pos) \<and> length pos = 2"
    by (auto simp add: far_qef_def)
  from t h3 have c3: "\<exists>q1 res pos. fix_axis far_qef 0 3 = Inr q1 \<and>
      solve lstsq_orth q1 = Inr (res, ListPos pos) \<and> pos ! 0 = 3"
    by blast
  have h0: "list_all (\<lambda>row. 0 < length row) (obj_A far_obj)"
    by (simp add: far_obj_def)
  from h0 h1 h2 make_2d_far c1' c2 c3 show ?thesis by blast
qed

section \<open>Theorems: the bias step and the caller's lists\<close>

lemma mean_axis0_ok:
  assumes "rectangular ps"
  shows "\<exists>mp. mean_axis0 ps = Inr mp"
  using assms by (simp add: mean_axis0_def)

lemma bias_2d_store:
  assumes "mean_axis0 (h positions) = Inr mp" and "positions \<noteq> normals"
  shows "\<exists>h'. bias_2d cfg positions normals h = Inr h' \<and>
           h' positions = h positions @ [mp, mp] \<and>
           h' normals = h normals @ [[BIAS_STRENGTH cfg, 0], [0, BIAS_STRENGTH cfg]] \<and>
           (\<forall>a. a \<noteq> positions \<and> a \<noteq> normals \<longrightarrow> h' a = h a)"
  using assms by (simp add: bias_2d_def list_append_def Let_def)

lemma bias_3d_store:
  assumes "mean_axis0 (h positions) = Inr mp" and "positions \<noteq> normals"
  shows "\<exists>h'. bias_3d cfg positions normals h = Inr h' \<and>
           h' positions = h positions @ [mp, mp, mp] \<and>
           h' normals = h normals @ [[BIAS_STRENGTH cfg, 0, 0], [0, BIAS_STRENGTH cfg, 0],
                                     [0, 0, BIAS_STRENGTH cfg]] \<and>
           (\<forall>a. a \<noteq> positions \<and> a \<noteq> normals \<longrightarrow> h' a = h a)"
  using assms by (simp add: bias_3d_def list_append_def Let_def)

text \<open>Claim C10. With \<^verbatim>\<open>BIAS\<close> enabled, and \<^verbatim>\<open>positions\<close> and \<^verbatim>\<open>normals\<close> two different list
  objects, the first a non-empty list of vectors of one length: after \<^verbatim>\<open>solve_qef_2d\<close> the
  caller's \<^verbatim>\<open>positions\<close> has the mass point appended twice and \<^verbatim>\<open>normals\<close> the two bias normals;
  after \<^verbatim>\<open>solve_qef_3d\<close> three entries each; no other list changes, whatever the call returns
  or raises. With \<^verbatim>\<open>BIAS\<close> disabled the store after either call is the store before it.\<close>

theorem bias_appends_to_caller_lists:
  "(BIAS cfg \<and> positions \<noteq> normals \<and> h positions \<noteq> [] \<and> rectangular (h positions) \<longrightarrow>
      (\<exists>mp. mean_axis0 (h positions) = Inr mp \<and>
         fst (solve_qef_2d cfg lstsq x y positions normals h) positions = h positions @ [mp, mp] \<and>
         fst (solve_qef_2d cfg lstsq x y positions normals h) normals =
           h normals @ [[BIAS_STRENGTH cfg, 0], [0, BIAS_STRENGTH cfg]] \<and>
         (\<forall>a. a \<noteq> positions \<and> a \<noteq> normals \<longrightarrow>
            fst (solve_qef_2d cfg lstsq x y positions normals h) a = h a) \<and>
         fst (solve_qef_3d cfg lstsq x y z positions normals h) positions =
           h positions @ [mp, mp, mp] \<and>
         fst (solve_qef_3d cfg lstsq x y z positions normals h) normals =
           h normals @ [[BIAS_STRENGTH cfg, 0, 0], [0, BIAS_STRENGTH cfg, 0],
                        [0, 0, BIAS_STRENGTH cfg]] \<and>
         (\<forall>a. a \<noteq> positions \<and> a \<noteq> normals \<longrightarrow>
            fst (solve_qef_3d cfg lstsq x y z positions normals h) a = h a))) \<and>
   (\<not> BIAS cfg \<longrightarrow>
      fst (solve_qef_2d cfg lstsq x y positions normals h) = h \<and>
      fst (solve_qef_3d cfg lstsq x y z positions normals h) = h)"
proof (intro conjI impI)
  assume a: "BIAS cfg \<and> positions \<noteq> normals \<and> h positions \<noteq> [] \<and> rectangular (h positions)"
  then obtain mp where mp: "mean_axis0 (h positions) = Inr mp"
    using mean_axis0_ok by blast
  from a have d: "positions \<noteq> normals" and b: "BIAS cfg" by blast+
  from bias_2d_store [of h positions mp normals cfg, OF mp d] obtain h2 where h2:
    "bias_2d cfg positions normals h = Inr h2" "h2 positions = h positions @ [mp, mp]"
    "h2 normals = h normals @ [[BIAS_STRENGTH cfg, 0], [0, BIAS_STRENGTH cfg]]"
    "\<forall>a. a \<noteq> positions \<and> a \<noteq> normals \<longrightarrow> h2 a = h a"
    by blast
  from bias_3d_store [of h positions mp normals cfg, OF mp d] obtain h3 where h3:
    "bias_3d cfg positions normals h = Inr h3" "h3 positions = h positions @ [mp, mp, mp]"
    "h3 normals = h normals @ [[BIAS_STRENGTH cfg, 0, 0], [0, BIAS_STRENGTH cfg, 0],
                               [0, 0, BIAS_STRENGTH cfg]]"
    "\<forall>a. a \<noteq> positions \<and> a \<noteq> normals \<longrightarrow> h3 a = h a"
    by blast
  from b h2(1) have f2: "fst (solve_qef_2d cfg lstsq x y positions normals h) = h2"
    by (simp add: solve_qef_2d_def)
  from b h3(1) have f3: "fst (solve_qef_3d cfg lstsq x y z positions normals h) = h3"
    by (simp add: solve_qef_3d_def)
  from mp h2(2,3,4) h3(2,3,4) show "\<exists>mp. mean_axis0 (h positions) = Inr mp \<and>
         fst (solve_qef_2d cfg lstsq x y positions normals h) positions = h positions @ [mp, mp] \<and>
         fst (solve_qef_2d cfg lstsq x y positions normals h) normals =
           h normals @ [[BIAS_STRENGTH cfg, 0], [0, BIAS_STRENGTH cfg]] \<and>
         (\<forall>a. a \<noteq> positions \<and> a \<noteq> normals \<longrightarrow>
            fst (solve_qef_2d cfg lstsq x y positions normals h) a = h a) \<and>
         fst (solve_qef_3d cfg lstsq x y z positions normals h) positions =
           h positions @ [mp, mp, mp] \<and>
         fst (solve_qef_3d cfg lstsq x y z positions normals h) normals =
           h normals @ [[BIAS_STRENGTH cfg, 0, 0], [0, BIAS_STRENGTH cfg, 0],
                        [0, 0, BIAS_STRENGTH cfg]] \<and>
         (\<forall>a. a \<noteq> positions \<and> a \<noteq> normals \<longrightarrow>
            fst (solve_qef_3d cfg lstsq x y z positions normals h) a = h a)"
    unfolding f2 f3 by blast
next
  assume "\<not> BIAS cfg"
  then show "fst (solve_qef_2d cfg lstsq x y positions normals h) = h"
    by (simp add: solve_qef_2d_def)
next
  assume "\<not> BIAS cfg"
  then show "fst (solve_qef_3d cfg lstsq x y z positions normals h) = h"
    by (simp add: solve_qef_3d_def)
qed

theorem bias_appends_to_caller_lists_witness:
  "BIAS default_settings \<and> (0::nat) \<noteq> 1 \<and> far_store 0 \<noteq> [] \<and> rectangular (far_store 0) \<and>
   mean_axis0 (far_store 0) = Inr [5, 5] \<and>
   fst (solve_qef_2d default_settings lstsq_orth 0 0 0 1 far_store) 0 = [[5, 5], [5, 5], [5, 5], [5, 5]] \<and>
   fst (solve_qef_2d default_settings lstsq_orth 0 0 0 1 far_store) 1 =
     [[1, 0], [0, 1], [1 / 100, 0], [0, 1 / 100]] \<and>
   \<not> BIAS (default_settings\<lparr>BIAS := False\<rparr>) \<and>
   fst (solve_qef_2d (default_settings\<lparr>BIAS := False\<rparr>) lstsq_orth 0 0 0 1 far_store) = far_store"
proof -
  have h: "BIAS default_settings \<and> (0::nat) \<noteq> 1 \<and> far_store 0 \<noteq> [] \<and> rectangular (far_store 0)"
    by (simp add: default_settings_def far_store_def rectangular_def)
  have m: "mean_axis0 (far_store 0) = Inr [5, 5]"
    by (simp add: mean_axis0_def far_store_def rectangular_def upt_rec)
  have n: "\<not> BIAS (default_settings\<lparr>BIAS := False\<rparr>)" by simp
  from bias_appends_to_caller_lists [of default_settings 0 1 far_store lstsq_orth 0 0 0] h m
  have "fst (solve_qef_2d default_settings lstsq_orth 0 0 0 1 far_store) 0 = far_store 0 @ [[5, 5], [5, 5]]"
    and "fst (solve_qef_2d default_settings lstsq_orth 0 0 0 1 far_store) 1 =
      far_store 1 @ [[BIAS_STRENGTH default_settings, 0], [0, BIAS_STRENGTH default_settings]]"
    by auto
  moreover from bias_appends_to_caller_lists [of "default_settings\<lparr>BIAS := False\<rparr>" 0 1 far_store lstsq_orth 0 0 0] n
  have "fst (solve_qef_2d (default_settings\<lparr>BIAS := False\<rparr>) lstsq_orth 0 0 0 1 far_store) = far_store"
    by blast
  ultimately show ?thesis using h m n
    by (simp add: far_store_def default_settings_def)
qed

section \<open>Theorems: the fallback cascade\<close>

lemma evaluate_residual_at:
  assumes "\<forall>row \<in> set (qef_A q). length row = length x" and "length (qef_b q) = length (qef_A q)"
  shows "evaluate q x = Inr (residual_at q x)"
  using evaluate_ok [OF assms] by (simp add: residual_at_def)

lemma collect_map_Inr: "collect (map (\<lambda>c. Inr (g c)) cs) = Inr (map g cs)"
  by (induction cs) simp_all

lemma collect_Inr:
  "\<forall>m \<in> set ms. \<exists>v. m = Inr v \<and> P v \<Longrightarrow>
   \<exists>vs. collect ms = Inr vs \<and> length vs = length ms \<and> (\<forall>v \<in> set vs. P v)"
proof (induction ms)
  case Nil
  then show ?case by simp
next
  case (Cons m ms)
  then obtain v where v: "m = Inr v" "P v" by auto
  from Cons obtain vs where vs: "collect ms = Inr vs" "length vs = length ms" "\<forall>v \<in> set vs. P v"
    by auto
  from v vs show ?case by simp
qed

lemma foldl_best:
  "foldl (\<lambda>best d. if cand_less d best then d else best) c cs \<in> set (c # cs) \<and>
   (\<forall>d \<in> set (c # cs). fst (foldl (\<lambda>best d. if cand_less d best then d else best) c cs) \<le> fst d)"
proof (induction cs arbitrary: c)
  case Nil
  then show ?case by simp
next
  case (Cons e es)
  let ?c' = "if cand_less e c then e else c"
  from Cons [of ?c'] have m: "foldl (\<lambda>best d. if cand_less d best then d else best) ?c' es \<in> set (?c' # es)"
    and l: "\<forall>d \<in> set (?c' # es). fst (foldl (\<lambda>best d. if cand_less d best then d else best) ?c' es) \<le> fst d"
    by blast+
  have c': "fst ?c' \<le> fst c \<and> fst ?c' \<le> fst e"
    by (auto simp add: cand_less_def split: if_splits)
  from l have "fst (foldl (\<lambda>best d. if cand_less d best then d else best) ?c' es) \<le> fst ?c'"
    by simp
  with c' have "fst (foldl (\<lambda>best d. if cand_less d best then d else best) ?c' es) \<le> fst c"
    and "fst (foldl (\<lambda>best d. if cand_less d best then d else best) ?c' es) \<le> fst e"
    by linarith+
  with m l show ?case by auto
qed

lemma py_min_least:
  assumes "rs \<noteq> []"
  shows "\<exists>c \<in> set rs. py_min rs = Inr c \<and> (\<forall>d \<in> set rs. fst c \<le> fst d)"
proof -
  from assms obtain c cs where rs: "rs = c # cs" by (cases rs) auto
  from foldl_best [of c cs] show ?thesis unfolding rs py_min_def by simp
qed

lemma py_min_empty: "py_min [] = Inl ValueError"
  by (simp add: py_min_def)

lemma eval_with_pos_ok:
  assumes "\<forall>row \<in> set (qef_A q). length row = length c" and "length (qef_b q) = length (qef_A q)"
  shows "eval_with_pos q c = Inr (residual_at q c, TuplePos c)"
  using evaluate_residual_at [OF assms] by (simp add: eval_with_pos_def)

lemma corner_inside_2d:
  assumes "0 \<le> cs" and "c \<in> set (corners_2d cs x y)"
  shows "inside_2d cs x y (r, TuplePos c)"
  using assms by (auto simp add: corners_2d_def inside_2d_def)

lemma corner_inside_3d:
  assumes "0 \<le> cs" and "c \<in> set (corners_3d cs x y z)"
  shows "inside_3d cs x y z (r, TuplePos c)"
  using assms by (auto simp add: corners_3d_def inside_3d_def)

lemma filter_all: "(\<forall>v \<in> set vs. P v) \<Longrightarrow> filter P vs = vs"
  by (induction vs) simp_all

lemma corner_tier_2d_all:
  assumes rows: "\<forall>row \<in> set (qef_A q). length row = 2"
    and len: "length (qef_b q) = length (qef_A q)" and cs: "0 \<le> cs"
  shows "corner_tier_2d cs x y q =
           Inr (map (\<lambda>c. (residual_at q c, TuplePos c)) (corners_2d cs x y))"
proof -
  have e: "eval_with_pos q c = Inr (residual_at q c, TuplePos c)" if "length c = 2" for c
    using rows len that by (intro eval_with_pos_ok) simp_all
  have "collect [eval_with_pos q [x + 0, y + 0], eval_with_pos q [x + 0, y + cs],
                 eval_with_pos q [x + cs, y + 0], eval_with_pos q [x + cs, y + cs]]
        = Inr (map (\<lambda>c. (residual_at q c, TuplePos c)) (corners_2d cs x y))"
    by (simp add: e corners_2d_def)
  moreover have "filter (inside_2d cs x y) (map (\<lambda>c. (residual_at q c, TuplePos c)) (corners_2d cs x y))
        = map (\<lambda>c. (residual_at q c, TuplePos c)) (corners_2d cs x y)"
    by (rule filter_all) (auto intro: corner_inside_2d [OF cs])
  ultimately show ?thesis by (simp add: corner_tier_2d_def)
qed

lemma corner_tier_3d_all:
  assumes rows: "\<forall>row \<in> set (qef_A q). length row = 3"
    and len: "length (qef_b q) = length (qef_A q)" and cs: "0 \<le> cs"
  shows "corner_tier_3d cs x y z q =
           Inr (map (\<lambda>c. (residual_at q c, TuplePos c)) (corners_3d cs x y z))"
proof -
  have e: "eval_with_pos q c = Inr (residual_at q c, TuplePos c)" if "length c = 3" for c
    using rows len that by (intro eval_with_pos_ok) simp_all
  have "collect [eval_with_pos q [x + 0, y + 0, z + 0], eval_with_pos q [x + 0, y + 0, z + cs],
                 eval_with_pos q [x + 0, y + cs, z + 0], eval_with_pos q [x + 0, y + cs, z + cs],
                 eval_with_pos q [x + cs, y + 0, z + 0], eval_with_pos q [x + cs, y + 0, z + cs],
                 eval_with_pos q [x + cs, y + cs, z + 0], eval_with_pos q [x + cs, y + cs, z + cs]]
        = Inr (map (\<lambda>c. (residual_at q c, TuplePos c)) (corners_3d cs x y z))"
    by (simp add: e corners_3d_def)
  moreover have "filter (inside_3d cs x y z) (map (\<lambda>c. (residual_at q c, TuplePos c)) (corners_3d cs x y z))
        = map (\<lambda>c. (residual_at q c, TuplePos c)) (corners_3d cs x y z)"
    by (rule filter_all) (auto intro: corner_inside_3d [OF cs])
  ultimately show ?thesis by (simp add: corner_tier_3d_def)
qed

lemma best_corner:
  assumes "cs \<noteq> []"
  shows "\<exists>c \<in> set cs. py_min (map (\<lambda>c. (residual_at q c, TuplePos c)) cs)
             = Inr (residual_at q c, TuplePos c) \<and>
           (\<forall>c' \<in> set cs. residual_at q c \<le> residual_at q c')"
proof -
  from assms have "map (\<lambda>c. (residual_at q c, TuplePos c)) cs \<noteq> []" by simp
  from py_min_least [OF this] show ?thesis by auto
qed

lemma corner_tier_result_2d:
  assumes b: "BOUNDARY cfg" and nc: "\<not> CLIP cfg" and cs: "0 \<le> CELL_SIZE cfg"
    and rows: "\<forall>row \<in> set (qef_A q). length row = 2"
    and len: "length (qef_b q) = length (qef_A q)"
    and s0: "solve lstsq q = Inr r0" and out: "\<not> inside_2d (CELL_SIZE cfg) x y r0"
    and ft: "face_tier_2d lstsq (CELL_SIZE cfg) x y q = Inr []"
  shows "\<exists>c \<in> set (corners_2d (CELL_SIZE cfg) x y).
           qef_cascade_2d cfg lstsq x y q = Inr (c ! 0, c ! 1) \<and>
           evaluate q c = Inr (residual_at q c) \<and>
           (\<forall>c' \<in> set (corners_2d (CELL_SIZE cfg) x y).
              evaluate q c' = Inr (residual_at q c') \<and> residual_at q c \<le> residual_at q c')"
proof -
  let ?cs = "corners_2d (CELL_SIZE cfg) x y"
  have ne: "?cs \<noteq> []" by (simp add: corners_2d_def)
  from best_corner [OF ne, of q] obtain c where c: "c \<in> set ?cs"
    "py_min (map (\<lambda>c. (residual_at q c, TuplePos c)) ?cs) = Inr (residual_at q c, TuplePos c)"
    "\<forall>c' \<in> set ?cs. residual_at q c \<le> residual_at q c'"
    by blast
  have l2: "length c' = 2" if "c' \<in> set ?cs" for c'
    using that by (auto simp add: corners_2d_def)
  have ev: "evaluate q c' = Inr (residual_at q c')" if "c' \<in> set ?cs" for c'
    using rows len l2 [OF that] by (intro evaluate_residual_at) simp_all
  from b nc s0 out ft corner_tier_2d_all [OF rows len cs, of x y] c(2) l2 [OF c(1)]
  have "qef_cascade_2d cfg lstsq x y q = Inr (c ! 0, c ! 1)"
    by (simp add: qef_cascade_2d_def Let_def)
  with c(1,3) ev show ?thesis by blast
qed

lemma corner_tier_result_3d:
  assumes b: "BOUNDARY cfg" and nc: "\<not> CLIP cfg" and cs: "0 \<le> CELL_SIZE cfg"
    and rows: "\<forall>row \<in> set (qef_A q). length row = 3"
    and len: "length (qef_b q) = length (qef_A q)"
    and s0: "solve lstsq q = Inr r0" and out: "\<not> inside_3d (CELL_SIZE cfg) x y z r0"
    and ft: "face_tier_3d lstsq (CELL_SIZE cfg) x y z q = Inr []"
    and et: "edge_tier_3d lstsq (CELL_SIZE cfg) x y z q = Inr []"
  shows "\<exists>c \<in> set (corners_3d (CELL_SIZE cfg) x y z).
           qef_cascade_3d cfg lstsq x y z q = Inr (c ! 0, c ! 1, c ! 2) \<and>
           evaluate q c = Inr (residual_at q c) \<and>
           (\<forall>c' \<in> set (corners_3d (CELL_SIZE cfg) x y z).
              evaluate q c' = Inr (residual_at q c') \<and> residual_at q c \<le> residual_at q c')"
proof -
  let ?cs = "corners_3d (CELL_SIZE cfg) x y z"
  have ne: "?cs \<noteq> []" by (simp add: corners_3d_def)
  from best_corner [OF ne, of q] obtain c where c: "c \<in> set ?cs"
    "py_min (map (\<lambda>c. (residual_at q c, TuplePos c)) ?cs) = Inr (residual_at q c, TuplePos c)"
    "\<forall>c' \<in> set ?cs. residual_at q c \<le> residual_at q c'"
    by blast
  have l3: "length c' = 3" if "c' \<in> set ?cs" for c'
    using that by (auto simp add: corners_3d_def)
  have ev: "evaluate q c' = Inr (residual_at q c')" if "c' \<in> set ?cs" for c'
    using rows len l3 [OF that] by (intro evaluate_residual_at) simp_all
  from b nc s0 out ft et corner_tier_3d_all [OF rows len cs, of x y z] c(2) l3 [OF c(1)]
  have "qef_cascade_3d cfg lstsq x y z q = Inr (c ! 0, c ! 1, c ! 2)"
    by (simp add: qef_cascade_3d_def Let_def)
  with c(1,3) ev show ?thesis by blast
qed

lemma face_solve_ok:
  assumes sh: "solver_shape lstsq" and ok: "qef_ok q (Suc n)"
    and fv: "fixed_values q = replicate (Suc n) None" and i: "i \<le> n"
  shows "\<exists>res pos. bnd (fix_axis q i val) (solve lstsq) = Inr (res, ListPos pos) \<and>
           length pos = Suc n"
proof -
  from fv i have "i < length (fixed_values q)" and "fixed_values q ! i = None"
    by (simp_all del: replicate.simps)
  from qef_ok_fix_axis [OF ok this i, of val] obtain q1
    where q1: "fix_axis q i val = Inr q1" "qef_ok q1 n"
      "fixed_values q1 = (fixed_values q)[i := Some val]" by blast
  from qef_ok_solve [OF sh q1(2)] obtain res pos
    where s: "solve lstsq q1 = Inr (res, ListPos pos)" "length pos = length (fixed_values q1)"
    by blast
  from q1(3) fv have "length (fixed_values q1) = Suc n" by (simp del: replicate.simps)
  with q1(1) s show ?thesis by simp
qed

lemma edge_solve_ok:
  assumes sh: "solver_shape lstsq" and ok: "qef_ok q (Suc (Suc n))"
    and fv: "fixed_values q = replicate (Suc (Suc n)) None" and i: "i \<le> Suc n"
    and j: "j \<le> n" and ji: "j \<noteq> i"
  shows "\<exists>res pos. bnd (bnd (fix_axis q i v1) (\<lambda>q. fix_axis q j v2)) (solve lstsq)
             = Inr (res, ListPos pos) \<and> length pos = Suc (Suc n)"
proof -
  from fv i have "i < length (fixed_values q)" and "fixed_values q ! i = None"
    by (simp_all del: replicate.simps)
  from qef_ok_fix_axis [OF ok this i, of v1] obtain q1
    where q1: "fix_axis q i v1 = Inr q1" "qef_ok q1 (Suc n)"
      "fixed_values q1 = (fixed_values q)[i := Some v1]" by blast
  from q1(3) fv j ji have "j < length (fixed_values q1)" and "fixed_values q1 ! j = None"
    by (simp_all del: replicate.simps)
  from qef_ok_fix_axis [OF q1(2) this j, of v2] obtain q2
    where q2: "fix_axis q1 j v2 = Inr q2" "qef_ok q2 n"
      "fixed_values q2 = (fixed_values q1)[j := Some v2]" by blast
  from qef_ok_solve [OF sh q2(2)] obtain res pos
    where s: "solve lstsq q2 = Inr (res, ListPos pos)" "length pos = length (fixed_values q2)"
    by blast
  from q1(3) q2(3) fv have "length (fixed_values q2) = Suc (Suc n)" by (simp del: replicate.simps)
  with q1(1) q2(1) s show ?thesis by simp
qed

lemma py_min_mem: "py_min rs = Inr r \<Longrightarrow> r \<in> set rs"
proof (cases "rs = []")
  case True
  assume "py_min rs = Inr r"
  with True show ?thesis by (simp add: py_min_def)
next
  case False
  assume r: "py_min rs = Inr r"
  from py_min_least [OF False] r show ?thesis by auto
qed

lemma py_min_ok: "rs \<noteq> [] \<Longrightarrow> \<exists>r \<in> set rs. py_min rs = Inr r"
  using py_min_least by blast

lemma tier_ok:
  assumes "\<forall>m \<in> set ms. \<exists>res pos. m = Inr (res, ListPos pos) \<and> length pos = d"
  shows "\<exists>rs. bnd (collect ms) (\<lambda>rs. Inr (filter P rs)) = Inr rs \<and>
           (\<forall>r \<in> set rs. P r \<and> (\<exists>pos. snd r = ListPos pos \<and> length pos = d))"
proof -
  from assms have "\<forall>m \<in> set ms. \<exists>r. m = Inr r \<and> (\<exists>pos. snd r = ListPos pos \<and> length pos = d)"
    by fastforce
  from collect_Inr [OF this] obtain vs where vs: "collect ms = Inr vs"
    "\<forall>v \<in> set vs. \<exists>pos. snd v = ListPos pos \<and> length pos = d" by blast
  then show ?thesis by auto
qed

lemma face_tier_2d_ok:
  assumes sh: "solver_shape lstsq" and ok: "qef_ok q 2" and fv: "fixed_values q = [None, None]"
  shows "\<exists>rs. face_tier_2d lstsq cs x y q = Inr rs \<and>
           (\<forall>r \<in> set rs. inside_2d cs x y r \<and> (\<exists>pos. snd r = ListPos pos \<and> length pos = 2))"
proof -
  from ok have ok': "qef_ok q (Suc 1)" by (simp add: numeral_2_eq_2)
  from fv have fv': "fixed_values q = replicate (Suc 1) None" by (simp add: numeral_2_eq_2)
  have f: "\<exists>res pos. bnd (fix_axis q i val) (solve lstsq) = Inr (res, ListPos pos) \<and> length pos = 2"
    if "i \<le> 1" for i val
    using face_solve_ok [OF sh ok' fv' that, of val] by auto
  show ?thesis unfolding face_tier_2d_def
    by (rule tier_ok) (simp add: f)
qed

lemma face_tier_3d_ok:
  assumes sh: "solver_shape lstsq" and ok: "qef_ok q 3" and fv: "fixed_values q = [None, None, None]"
  shows "\<exists>rs. face_tier_3d lstsq cs x y z q = Inr rs \<and>
           (\<forall>r \<in> set rs. inside_3d cs x y z r \<and> (\<exists>pos. snd r = ListPos pos \<and> length pos = 3))"
proof -
  from ok have ok': "qef_ok q (Suc 2)" by (simp add: numeral_3_eq_3)
  from fv have fv': "fixed_values q = replicate (Suc 2) None" by (simp add: numeral_3_eq_3 numeral_2_eq_2)
  have f: "\<exists>res pos. bnd (fix_axis q i val) (solve lstsq) = Inr (res, ListPos pos) \<and> length pos = 3"
    if "i \<le> 2" for i val
    using face_solve_ok [OF sh ok' fv' that, of val] by auto
  show ?thesis unfolding face_tier_3d_def
    by (rule tier_ok) (simp add: f)
qed

lemma edge_tier_3d_ok:
  assumes sh: "solver_shape lstsq" and ok: "qef_ok q 3" and fv: "fixed_values q = [None, None, None]"
  shows "\<exists>rs. edge_tier_3d lstsq cs x y z q = Inr rs \<and>
           (\<forall>r \<in> set rs. inside_3d cs x y z r \<and> (\<exists>pos. snd r = ListPos pos \<and> length pos = 3))"
proof -
  from ok have ok': "qef_ok q (Suc (Suc 1))" by (simp add: numeral_3_eq_3)
  from fv have fv': "fixed_values q = replicate (Suc (Suc 1)) None"
    by (simp add: numeral_3_eq_3 numeral_2_eq_2)
  have f: "\<exists>res pos. bnd (bnd (fix_axis q i v1) (\<lambda>q. fix_axis q j v2)) (solve lstsq)
             = Inr (res, ListPos pos) \<and> length pos = 3"
    if "i \<le> 2" and "j \<le> 1" and "j \<noteq> i" for i j v1 v2
  proof -
    from that(1) have "i \<le> Suc 1" by simp
    from edge_solve_ok [OF sh ok' fv' this that(2,3), of v1 v2] show ?thesis by auto
  qed
  show ?thesis unfolding edge_tier_3d_def
    by (rule tier_ok) (simp add: f)
qed

lemma qef_ok_rows: "qef_ok q n \<Longrightarrow> \<forall>row \<in> set (qef_A q). length row = n"
  by (simp add: qef_ok_def)

lemma qef_ok_len: "qef_ok q n \<Longrightarrow> length (qef_b q) = length (qef_A q)"
  by (simp add: qef_ok_def)

lemma qef_cascade_2d_returns:
  assumes sh: "solver_shape lstsq" and ok: "qef_ok q 2" and fv: "fixed_values q = [None, None]"
    and bc: "BOUNDARY cfg \<longrightarrow> 0 \<le> CELL_SIZE cfg" and nc: "\<not> CLIP cfg"
  shows "\<exists>v. qef_cascade_2d cfg lstsq x y q = Inr v"
proof -
  let ?cs = "CELL_SIZE cfg"
  from qef_ok_solve [OF sh ok] fv obtain res0 p0
    where s0: "solve lstsq q = Inr (res0, ListPos p0)" and l0: "length p0 = 2" by auto
  let ?mid = "if BOUNDARY cfg \<and> \<not> inside_2d ?cs x y (res0, ListPos p0) then
             bnd (face_tier_2d lstsq ?cs x y q) (\<lambda>rs.
             bnd (if length rs = 0 then corner_tier_2d ?cs x y q else Inr rs) py_min)
           else Inr (res0, ListPos p0)"
  have "\<exists>r. ?mid = Inr r \<and> length (coords (snd r)) = 2"
  proof (cases "BOUNDARY cfg \<and> \<not> inside_2d ?cs x y (res0, ListPos p0)")
    case False
    with l0 show ?thesis by auto
  next
    case True
    with bc have cs: "0 \<le> ?cs" by simp
    from face_tier_2d_ok [OF sh ok fv, of ?cs x y] obtain rs
      where rs: "face_tier_2d lstsq ?cs x y q = Inr rs"
        "\<forall>r \<in> set rs. \<exists>pos. snd r = ListPos pos \<and> length pos = 2" by blast
    show ?thesis
    proof (cases "rs = []")
      case e: True
      let ?cands = "map (\<lambda>c. (residual_at q c, TuplePos c)) (corners_2d ?cs x y)"
      have ct: "corner_tier_2d ?cs x y q = Inr ?cands"
        by (rule corner_tier_2d_all [OF qef_ok_rows [OF ok] qef_ok_len [OF ok] cs])
      have "?cands \<noteq> []" by (simp add: corners_2d_def)
      from py_min_ok [OF this] obtain r where r: "r \<in> set ?cands" "py_min ?cands = Inr r" by blast
      from r(1) have "length (coords (snd r)) = 2" by (auto simp add: corners_2d_def)
      with True rs(1) e ct r(2) show ?thesis by simp
    next
      case ne: False
      from py_min_ok [OF ne] obtain r where r: "r \<in> set rs" "py_min rs = Inr r" by blast
      from r(1) rs(2) have "length (coords (snd r)) = 2" by fastforce
      with True rs(1) ne r(2) show ?thesis by simp
    qed
  qed
  then obtain r where r: "?mid = Inr r" "length (coords (snd r)) = 2" by blast
  have "qef_cascade_2d cfg lstsq x y q = Inr (coords (snd r) ! 0, coords (snd r) ! 1)"
    unfolding qef_cascade_2d_def Let_def using s0 r nc by simp
  then show ?thesis by blast
qed

lemma qef_cascade_3d_returns:
  assumes sh: "solver_shape lstsq" and ok: "qef_ok q 3" and fv: "fixed_values q = [None, None, None]"
    and bc: "BOUNDARY cfg \<longrightarrow> 0 \<le> CELL_SIZE cfg" and nc: "\<not> CLIP cfg"
  shows "\<exists>v. qef_cascade_3d cfg lstsq x y z q = Inr v"
proof -
  let ?cs = "CELL_SIZE cfg"
  from qef_ok_solve [OF sh ok] fv obtain res0 p0
    where s0: "solve lstsq q = Inr (res0, ListPos p0)" and l0: "length p0 = 3" by auto
  let ?mid = "if BOUNDARY cfg \<and> \<not> inside_3d ?cs x y z (res0, ListPos p0) then
             bnd (face_tier_3d lstsq ?cs x y z q) (\<lambda>rs.
             bnd (if length rs = 0 then edge_tier_3d lstsq ?cs x y z q else Inr rs) (\<lambda>rs.
             bnd (if length rs = 0 then corner_tier_3d ?cs x y z q else Inr rs) py_min))
           else Inr (res0, ListPos p0)"
  have "\<exists>r. ?mid = Inr r \<and> length (coords (snd r)) = 3"
  proof (cases "BOUNDARY cfg \<and> \<not> inside_3d ?cs x y z (res0, ListPos p0)")
    case False
    with l0 show ?thesis by auto
  next
    case True
    with bc have cs: "0 \<le> ?cs" by simp
    from face_tier_3d_ok [OF sh ok fv, of ?cs x y z] obtain fs
      where fs: "face_tier_3d lstsq ?cs x y z q = Inr fs"
        "\<forall>r \<in> set fs. \<exists>pos. snd r = ListPos pos \<and> length pos = 3" by blast
    from edge_tier_3d_ok [OF sh ok fv, of ?cs x y z] obtain es
      where es: "edge_tier_3d lstsq ?cs x y z q = Inr es"
        "\<forall>r \<in> set es. \<exists>pos. snd r = ListPos pos \<and> length pos = 3" by blast
    let ?cands = "map (\<lambda>c. (residual_at q c, TuplePos c)) (corners_3d ?cs x y z)"
    have ct: "corner_tier_3d ?cs x y z q = Inr ?cands"
      by (rule corner_tier_3d_all [OF qef_ok_rows [OF ok] qef_ok_len [OF ok] cs])
    have cne: "?cands \<noteq> []" by (simp add: corners_3d_def)
    show ?thesis
    proof (cases "fs = []")
      case fne: False
      from py_min_ok [OF fne] obtain r where r: "r \<in> set fs" "py_min fs = Inr r" by blast
      from r(1) fs(2) have "length (coords (snd r)) = 3" by fastforce
      with True fs(1) fne r(2) show ?thesis by simp
    next
      case fe: True
      show ?thesis
      proof (cases "es = []")
        case ene: False
        from py_min_ok [OF ene] obtain r where r: "r \<in> set es" "py_min es = Inr r" by blast
        from r(1) es(2) have "length (coords (snd r)) = 3" by fastforce
        with True fs(1) fe es(1) ene r(2) show ?thesis by simp
      next
        case ee: True
        from py_min_ok [OF cne] obtain r where r: "r \<in> set ?cands" "py_min ?cands = Inr r" by blast
        from r(1) have "length (coords (snd r)) = 3" by (auto simp add: corners_3d_def)
        with True fs(1) fe es(1) ee ct r(2) show ?thesis by simp
      qed
    qed
  qed
  then obtain r where r: "?mid = Inr r" "length (coords (snd r)) = 3" by blast
  have "qef_cascade_3d cfg lstsq x y z q = Inr (coords (snd r) ! 0, coords (snd r) ! 1, coords (snd r) ! 2)"
    unfolding qef_cascade_3d_def Let_def using s0 r nc by simp
  then show ?thesis by blast
qed

lemma tier_filtered:
  "bnd (collect ms) (\<lambda>rs. Inr (filter P rs)) = Inr rs \<Longrightarrow> \<forall>r \<in> set rs. P r"
  by (auto simp add: bnd_eq_Inr_iff)

lemma clip_inside: "lo \<le> a \<Longrightarrow> a \<le> hi \<Longrightarrow> clip a lo hi = a"
  by (simp add: clip_def)

lemma clip_item_inside:
  assumes "clip_item v i lo hi = Inr v'" and "lo \<le> coords v ! i" and "coords v ! i \<le> hi"
  shows "coords v' = coords v"
  using assms by (cases v) (auto simp add: clip_item_def clip_inside split: if_splits)

lemma chosen_inside_2d:
  assumes "(if BOUNDARY cfg \<and> \<not> inside_2d cs x y r0 then
             bnd (face_tier_2d lstsq cs x y q) (\<lambda>rs.
             bnd (if length rs = 0 then corner_tier_2d cs x y q else Inr rs) py_min)
           else Inr r0) = Inr r" and "BOUNDARY cfg"
  shows "inside_2d cs x y r"
proof (cases "inside_2d cs x y r0")
  case True
  with assms show ?thesis by simp
next
  case False
  with assms obtain rs rs' where rs: "face_tier_2d lstsq cs x y q = Inr rs"
    "(if length rs = 0 then corner_tier_2d cs x y q else Inr rs) = Inr rs'" "py_min rs' = Inr r"
    by (auto simp add: bnd_eq_Inr_iff)
  from rs(1) have "\<forall>r \<in> set rs. inside_2d cs x y r"
    unfolding face_tier_2d_def by (rule tier_filtered)
  moreover have "\<forall>r \<in> set rs'. inside_2d cs x y r" if "corner_tier_2d cs x y q = Inr rs'"
    using that unfolding corner_tier_2d_def by (rule tier_filtered)
  ultimately have "\<forall>r \<in> set rs'. inside_2d cs x y r"
    using rs(2) by (auto split: if_splits)
  with py_min_mem [OF rs(3)] show ?thesis by blast
qed

lemma chosen_inside_3d:
  assumes "(if BOUNDARY cfg \<and> \<not> inside_3d cs x y z r0 then
             bnd (face_tier_3d lstsq cs x y z q) (\<lambda>rs.
             bnd (if length rs = 0 then edge_tier_3d lstsq cs x y z q else Inr rs) (\<lambda>rs.
             bnd (if length rs = 0 then corner_tier_3d cs x y z q else Inr rs) py_min))
           else Inr r0) = Inr r" and "BOUNDARY cfg"
  shows "inside_3d cs x y z r"
proof (cases "inside_3d cs x y z r0")
  case True
  with assms show ?thesis by simp
next
  case False
  with assms obtain fs es rs' where rs: "face_tier_3d lstsq cs x y z q = Inr fs"
    "(if length fs = 0 then edge_tier_3d lstsq cs x y z q else Inr fs) = Inr es"
    "(if length es = 0 then corner_tier_3d cs x y z q else Inr es) = Inr rs'" "py_min rs' = Inr r"
    by (auto simp add: bnd_eq_Inr_iff)
  from rs(1) have "\<forall>r \<in> set fs. inside_3d cs x y z r"
    unfolding face_tier_3d_def by (rule tier_filtered)
  moreover have "\<forall>r \<in> set es. inside_3d cs x y z r" if "edge_tier_3d lstsq cs x y z q = Inr es"
    using that unfolding edge_tier_3d_def by (rule tier_filtered)
  ultimately have e: "\<forall>r \<in> set es. inside_3d cs x y z r"
    using rs(2) by (auto split: if_splits)
  have "\<forall>r \<in> set rs'. inside_3d cs x y z r" if "corner_tier_3d cs x y z q = Inr rs'"
    using that unfolding corner_tier_3d_def by (rule tier_filtered)
  with e have "\<forall>r \<in> set rs'. inside_3d cs x y z r"
    using rs(3) by (auto split: if_splits)
  with py_min_mem [OF rs(4)] show ?thesis by blast
qed

lemma qef_cascade_2d_inside:
  assumes b: "BOUNDARY cfg" and r: "qef_cascade_2d cfg lstsq x y q = Inr (vx, vy)"
  shows "x \<le> vx \<and> vx \<le> x + CELL_SIZE cfg \<and> y \<le> vy \<and> vy \<le> y + CELL_SIZE cfg"
proof -
  let ?cs = "CELL_SIZE cfg"
  from r obtain r0 rc v where r0: "solve lstsq q = Inr r0"
    and rc: "(if BOUNDARY cfg \<and> \<not> inside_2d ?cs x y r0 then
             bnd (face_tier_2d lstsq ?cs x y q) (\<lambda>rs.
             bnd (if length rs = 0 then corner_tier_2d ?cs x y q else Inr rs) py_min)
           else Inr r0) = Inr rc"
    and v: "(if CLIP cfg then
             bnd (clip_item (snd rc) 0 x (x + ?cs)) (\<lambda>v. clip_item v 1 y (y + ?cs))
           else Inr (snd rc)) = Inr v"
    and fin: "(if length (coords v) < 2 then Inl IndexError
               else Inr (coords v ! 0, coords v ! 1)) = Inr (vx, vy)"
    unfolding qef_cascade_2d_def Let_def bnd_eq_Inr_iff by blast
  from chosen_inside_2d [OF rc b] have ins: "inside_2d ?cs x y rc" .
  have "coords v = coords (snd rc)"
  proof (cases "CLIP cfg")
    case False
    with v show ?thesis by simp
  next
    case True
    with v obtain v1 where v1: "clip_item (snd rc) 0 x (x + ?cs) = Inr v1"
      "clip_item v1 1 y (y + ?cs) = Inr v" by (auto simp add: bnd_eq_Inr_iff)
    from ins have c1: "coords v1 = coords (snd rc)"
      by (intro clip_item_inside [OF v1(1)]) (simp_all add: inside_2d_def)
    from ins c1 have "coords v = coords v1"
      by (intro clip_item_inside [OF v1(2)]) (simp_all add: inside_2d_def)
    with c1 show ?thesis by simp
  qed
  with fin ins show ?thesis by (auto simp add: inside_2d_def split: if_splits)
qed

lemma qef_cascade_3d_inside:
  assumes b: "BOUNDARY cfg" and r: "qef_cascade_3d cfg lstsq x y z q = Inr (vx, vy, vz)"
  shows "x \<le> vx \<and> vx \<le> x + CELL_SIZE cfg \<and> y \<le> vy \<and> vy \<le> y + CELL_SIZE cfg \<and>
         z \<le> vz \<and> vz \<le> z + CELL_SIZE cfg"
proof -
  let ?cs = "CELL_SIZE cfg"
  from r obtain r0 rc v where r0: "solve lstsq q = Inr r0"
    and rc: "(if BOUNDARY cfg \<and> \<not> inside_3d ?cs x y z r0 then
             bnd (face_tier_3d lstsq ?cs x y z q) (\<lambda>rs.
             bnd (if length rs = 0 then edge_tier_3d lstsq ?cs x y z q else Inr rs) (\<lambda>rs.
             bnd (if length rs = 0 then corner_tier_3d ?cs x y z q else Inr rs) py_min))
           else Inr r0) = Inr rc"
    and v: "(if CLIP cfg then
             bnd (clip_item (snd rc) 0 x (x + ?cs)) (\<lambda>v.
             bnd (clip_item v 1 y (y + ?cs)) (\<lambda>v. clip_item v 2 z (z + ?cs)))
           else Inr (snd rc)) = Inr v"
    and fin: "(if length (coords v) < 3 then Inl IndexError
               else Inr (coords v ! 0, coords v ! 1, coords v ! 2)) = Inr (vx, vy, vz)"
    unfolding qef_cascade_3d_def Let_def bnd_eq_Inr_iff by blast
  from chosen_inside_3d [OF rc b] have ins: "inside_3d ?cs x y z rc" .
  have "coords v = coords (snd rc)"
  proof (cases "CLIP cfg")
    case False
    with v show ?thesis by simp
  next
    case True
    with v obtain v1 v2 where v1: "clip_item (snd rc) 0 x (x + ?cs) = Inr v1"
      "clip_item v1 1 y (y + ?cs) = Inr v2" "clip_item v2 2 z (z + ?cs) = Inr v"
      by (auto simp add: bnd_eq_Inr_iff)
    from ins have c1: "coords v1 = coords (snd rc)"
      by (intro clip_item_inside [OF v1(1)]) (simp_all add: inside_3d_def)
    from ins c1 have c2: "coords v2 = coords v1"
      by (intro clip_item_inside [OF v1(2)]) (simp_all add: inside_3d_def)
    from ins c1 c2 have "coords v = coords v2"
      by (intro clip_item_inside [OF v1(3)]) (simp_all add: inside_3d_def)
    with c1 c2 show ?thesis by simp
  qed
  with fin ins show ?thesis by (auto simp add: inside_3d_def split: if_splits)
qed


section \<open>Theorems: where the cascade ends\<close>

lemmas run_simps = solve_qef_2d_def solve_qef_3d_def far_store_def far_store_3d_def make_2d_def
  make_3d_def rectangular_def qef_cascade_2d_def qef_cascade_3d_def
  solve_def lstsq_orth_def dot_def evaluate_def np_sub_def inside_2d_def inside_3d_def
  face_tier_2d_def face_tier_3d_def edge_tier_3d_def corner_tier_2d_def corner_tier_3d_def
  fix_axis_def fix_axis_obj_def deref_def eval_with_pos_def py_min_def
  cand_less_def clip_item_def clip_def default_settings_def plain_settings_def
  negative_cell_settings_def clip_settings_def far_qef_def far_qef_3d_def Let_def upt2 upt3 upt1
  bias_2d_def bias_3d_def mean_axis0_def list_append_def

lemma far_unconstrained:
  "solve lstsq_orth far_qef = Inr (0, ListPos [5, 5]) \<and>
   solve lstsq_orth far_qef_3d = Inr (0, ListPos [5, 5, 5])"
  by (simp add: run_simps)

lemma far_face_tier_2d: "face_tier_2d lstsq_orth 1 0 0 far_qef = Inr []"
  by (simp add: run_simps)

lemma far_face_edge_tier_3d:
  "face_tier_3d lstsq_orth 1 0 0 0 far_qef_3d = Inr [] \<and>
   edge_tier_3d lstsq_orth 1 0 0 0 far_qef_3d = Inr []"
  by (simp add: run_simps)

lemma far_plain_2d: "snd (solve_qef_2d plain_settings lstsq_orth 0 0 0 1 far_store) = Inr (1, 1)"
  by (simp add: run_simps)

lemma far_plain_3d:
  "snd (solve_qef_3d plain_settings lstsq_orth 0 0 0 0 1 far_store_3d) = Inr (1, 1, 1)"
  by (simp add: run_simps)

text \<open>Claim C1, at an input where the code fails it. With the shipped settings and \<^verbatim>\<open>CLIP\<close>
  switched on, the cell at the origin and two (three) crossing points at \<open>(5, 5)\<close>
  (\<open>(5, 5, 5)\<close>) with the axis directions as normals: no face or edge solution is inside,
  the corner tier picks a corner, which is a tuple, and the clipping assignment
  \<^verbatim>\<open>v[0] = numpy.clip(...)\<close> raises \<^verbatim>\<open>TypeError\<close>. Without \<^verbatim>\<open>CLIP\<close> the same input returns the
  corner \<open>(1, 1)\<close>, resp. \<open>(1, 1, 1)\<close>.\<close>

theorem clip_at_corner_tier_raises:
  "snd (solve_qef_2d clip_settings lstsq_orth 0 0 0 1 far_store) = Inl TypeError \<and>
   snd (solve_qef_3d clip_settings lstsq_orth 0 0 0 0 1 far_store_3d) = Inl TypeError \<and>
   snd (solve_qef_2d default_settings lstsq_orth 0 0 0 1 far_store) = Inr (1, 1) \<and>
   snd (solve_qef_3d default_settings lstsq_orth 0 0 0 0 1 far_store_3d) = Inr (1, 1, 1)"
  by (simp add: run_simps)

lemma corner_tier_empty_raises_2d:
  assumes "BOUNDARY cfg" and "solve lstsq q = Inr r0" and "\<not> inside_2d (CELL_SIZE cfg) x y r0"
    and "face_tier_2d lstsq (CELL_SIZE cfg) x y q = Inr []"
    and "corner_tier_2d (CELL_SIZE cfg) x y q = Inr []"
  shows "qef_cascade_2d cfg lstsq x y q = Inl ValueError"
  using assms by (simp add: qef_cascade_2d_def Let_def py_min_empty)

lemma corner_tier_empty_raises_3d:
  assumes "BOUNDARY cfg" and "solve lstsq q = Inr r0" and "\<not> inside_3d (CELL_SIZE cfg) x y z r0"
    and "face_tier_3d lstsq (CELL_SIZE cfg) x y z q = Inr []"
    and "edge_tier_3d lstsq (CELL_SIZE cfg) x y z q = Inr []"
    and "corner_tier_3d (CELL_SIZE cfg) x y z q = Inr []"
  shows "qef_cascade_3d cfg lstsq x y z q = Inl ValueError"
  using assms by (simp add: qef_cascade_3d_def Let_def py_min_empty)

text \<open>Claim C7, as the code has it. When the cascade reaches its corner tier (\<^verbatim>\<open>BOUNDARY\<close> on,
  the unconstrained solution outside, no face solution and in 3D no edge solution inside),
  \<^verbatim>\<open>CLIP\<close> is off and the cell size is not negative, then every corner passes the inclusive
  check and the function returns a corner whose residual is minimal among all corners of the
  cell. When no corner passes the check, \<^verbatim>\<open>min\<close> of the empty list raises \<^verbatim>\<open>ValueError\<close>: there
  is no fallback to the corners that failed it.\<close>

theorem corner_tier_returns_best_corner:
  "(BOUNDARY cfg \<and> \<not> CLIP cfg \<and> 0 \<le> CELL_SIZE cfg \<and>
      (\<forall>row \<in> set (qef_A q). length row = 2) \<and> length (qef_b q) = length (qef_A q) \<and>
      solve lstsq q = Inr r0 \<and> \<not> inside_2d (CELL_SIZE cfg) x y r0 \<and>
      face_tier_2d lstsq (CELL_SIZE cfg) x y q = Inr [] \<longrightarrow>
      (\<exists>c \<in> set (corners_2d (CELL_SIZE cfg) x y).
          qef_cascade_2d cfg lstsq x y q = Inr (c ! 0, c ! 1) \<and>
          evaluate q c = Inr (residual_at q c) \<and>
          (\<forall>c' \<in> set (corners_2d (CELL_SIZE cfg) x y).
             evaluate q c' = Inr (residual_at q c') \<and> residual_at q c \<le> residual_at q c'))) \<and>
   (BOUNDARY cfg \<and> \<not> CLIP cfg \<and> 0 \<le> CELL_SIZE cfg \<and>
      (\<forall>row \<in> set (qef_A q3). length row = 3) \<and> length (qef_b q3) = length (qef_A q3) \<and>
      solve lstsq q3 = Inr r3 \<and> \<not> inside_3d (CELL_SIZE cfg) x y z r3 \<and>
      face_tier_3d lstsq (CELL_SIZE cfg) x y z q3 = Inr [] \<and>
      edge_tier_3d lstsq (CELL_SIZE cfg) x y z q3 = Inr [] \<longrightarrow>
      (\<exists>c \<in> set (corners_3d (CELL_SIZE cfg) x y z).
          qef_cascade_3d cfg lstsq x y z q3 = Inr (c ! 0, c ! 1, c ! 2) \<and>
          evaluate q3 c = Inr (residual_at q3 c) \<and>
          (\<forall>c' \<in> set (corners_3d (CELL_SIZE cfg) x y z).
             evaluate q3 c' = Inr (residual_at q3 c') \<and> residual_at q3 c \<le> residual_at q3 c'))) \<and>
   (BOUNDARY cfg \<and> solve lstsq q = Inr r0 \<and> \<not> inside_2d (CELL_SIZE cfg) x y r0 \<and>
      face_tier_2d lstsq (CELL_SIZE cfg) x y q = Inr [] \<and>
      corner_tier_2d (CELL_SIZE cfg) x y q = Inr [] \<longrightarrow>
      qef_cascade_2d cfg lstsq x y q = Inl ValueError) \<and>
   (BOUNDARY cfg \<and> solve lstsq q3 = Inr r3 \<and> \<not> inside_3d (CELL_SIZE cfg) x y z r3 \<and>
      face_tier_3d lstsq (CELL_SIZE cfg) x y z q3 = Inr [] \<and>
      edge_tier_3d lstsq (CELL_SIZE cfg) x y z q3 = Inr [] \<and>
      corner_tier_3d (CELL_SIZE cfg) x y z q3 = Inr [] \<longrightarrow>
      qef_cascade_3d cfg lstsq x y z q3 = Inl ValueError)"
  using corner_tier_result_2d [of cfg q lstsq r0 x y]
    corner_tier_result_3d [of cfg q3 lstsq r3 x y z]
    corner_tier_empty_raises_2d [of cfg lstsq q r0 x y]
    corner_tier_empty_raises_3d [of cfg lstsq q3 r3 x y z]
  by blast

theorem corner_tier_returns_best_corner_witness:
  "BOUNDARY plain_settings \<and> \<not> CLIP plain_settings \<and> 0 \<le> CELL_SIZE plain_settings \<and>
   solve lstsq_orth far_qef = Inr (0, ListPos [5, 5]) \<and>
   \<not> inside_2d (CELL_SIZE plain_settings) 0 0 (0, ListPos [5, 5]) \<and>
   face_tier_2d lstsq_orth (CELL_SIZE plain_settings) 0 0 far_qef = Inr [] \<and>
   solve lstsq_orth far_qef_3d = Inr (0, ListPos [5, 5, 5]) \<and>
   \<not> inside_3d (CELL_SIZE plain_settings) 0 0 0 (0, ListPos [5, 5, 5]) \<and>
   face_tier_3d lstsq_orth (CELL_SIZE plain_settings) 0 0 0 far_qef_3d = Inr [] \<and>
   edge_tier_3d lstsq_orth (CELL_SIZE plain_settings) 0 0 0 far_qef_3d = Inr [] \<and>
   (\<exists>c \<in> set (corners_2d 1 0 0). qef_cascade_2d plain_settings lstsq_orth 0 0 far_qef = Inr (c ! 0, c ! 1)) \<and>
   (\<exists>c \<in> set (corners_3d 1 0 0 0).
      qef_cascade_3d plain_settings lstsq_orth 0 0 0 far_qef_3d = Inr (c ! 0, c ! 1, c ! 2)) \<and>
   BOUNDARY negative_cell_settings \<and>
   \<not> inside_2d (CELL_SIZE negative_cell_settings) 0 0 (0, ListPos [5, 5]) \<and>
   face_tier_2d lstsq_orth (CELL_SIZE negative_cell_settings) 0 0 far_qef = Inr [] \<and>
   corner_tier_2d (CELL_SIZE negative_cell_settings) 0 0 far_qef = Inr [] \<and>
   \<not> inside_3d (CELL_SIZE negative_cell_settings) 0 0 0 (0, ListPos [5, 5, 5]) \<and>
   face_tier_3d lstsq_orth (CELL_SIZE negative_cell_settings) 0 0 0 far_qef_3d = Inr [] \<and>
   edge_tier_3d lstsq_orth (CELL_SIZE negative_cell_settings) 0 0 0 far_qef_3d = Inr [] \<and>
   corner_tier_3d (CELL_SIZE negative_cell_settings) 0 0 0 far_qef_3d = Inr [] \<and>
   qef_cascade_2d negative_cell_settings lstsq_orth 0 0 far_qef = Inl ValueError \<and>
   qef_cascade_3d negative_cell_settings lstsq_orth 0 0 0 far_qef_3d = Inl ValueError"
proof -
  have s: "BOUNDARY plain_settings \<and> \<not> CLIP plain_settings \<and> 0 \<le> CELL_SIZE plain_settings \<and>
      CELL_SIZE plain_settings = 1 \<and> BOUNDARY negative_cell_settings \<and>
      CELL_SIZE negative_cell_settings = - 1"
    by (simp add: plain_settings_def negative_cell_settings_def default_settings_def)
  have shape: "(\<forall>row \<in> set (qef_A far_qef). length row = 2) \<and>
      length (qef_b far_qef) = length (qef_A far_qef) \<and>
      (\<forall>row \<in> set (qef_A far_qef_3d). length row = 3) \<and>
      length (qef_b far_qef_3d) = length (qef_A far_qef_3d)"
    by (simp add: far_qef_def far_qef_3d_def)
  have out: "\<not> inside_2d 1 0 0 (0, ListPos [5, 5]) \<and> \<not> inside_3d 1 0 0 0 (0, ListPos [5, 5, 5]) \<and>
      \<not> inside_2d (- 1) 0 0 (0, ListPos [5, 5]) \<and> \<not> inside_3d (- 1) 0 0 0 (0, ListPos [5, 5, 5])"
    by (simp add: inside_2d_def inside_3d_def)
  have neg: "face_tier_2d lstsq_orth (- 1) 0 0 far_qef = Inr [] \<and>
      corner_tier_2d (- 1) 0 0 far_qef = Inr [] \<and>
      face_tier_3d lstsq_orth (- 1) 0 0 0 far_qef_3d = Inr [] \<and>
      edge_tier_3d lstsq_orth (- 1) 0 0 0 far_qef_3d = Inr [] \<and>
      corner_tier_3d (- 1) 0 0 0 far_qef_3d = Inr []"
    by (simp add: run_simps)
  note pos = corner_tier_returns_best_corner [of plain_settings far_qef lstsq_orth
      "(0, ListPos [5, 5])" 0 0 far_qef_3d "(0, ListPos [5, 5, 5])" 0]
  note ngt = corner_tier_returns_best_corner [of negative_cell_settings far_qef lstsq_orth
      "(0, ListPos [5, 5])" 0 0 far_qef_3d "(0, ListPos [5, 5, 5])" 0]
  from pos s shape out far_unconstrained far_face_tier_2d far_face_edge_tier_3d
  have p2: "\<exists>c \<in> set (corners_2d 1 0 0).
      qef_cascade_2d plain_settings lstsq_orth 0 0 far_qef = Inr (c ! 0, c ! 1)"
    and p3: "\<exists>c \<in> set (corners_3d 1 0 0 0).
      qef_cascade_3d plain_settings lstsq_orth 0 0 0 far_qef_3d = Inr (c ! 0, c ! 1, c ! 2)"
    by auto
  from ngt s out neg far_unconstrained
  have n2: "qef_cascade_2d negative_cell_settings lstsq_orth 0 0 far_qef = Inl ValueError"
    and n3: "qef_cascade_3d negative_cell_settings lstsq_orth 0 0 0 far_qef_3d = Inl ValueError"
    by auto
  from s out neg far_unconstrained far_face_tier_2d far_face_edge_tier_3d p2 p3 n2 n3
  show ?thesis by simp
qed

text \<open>The claim as the specification words it promises the minimum-residual corner even where
  no corner passes the inclusive check. In exact arithmetic that happens for a negative cell
  size: the corner tier is reached, its filtered list is empty, and the call raises.\<close>

theorem corner_tier_no_fallback_counterexample:
  "BOUNDARY negative_cell_settings \<and> \<not> CLIP negative_cell_settings \<and>
   face_tier_2d lstsq_orth (CELL_SIZE negative_cell_settings) 0 0 far_qef = Inr [] \<and>
   corner_tier_2d (CELL_SIZE negative_cell_settings) 0 0 far_qef = Inr [] \<and>
   snd (solve_qef_2d negative_cell_settings lstsq_orth 0 0 0 1 far_store) = Inl ValueError \<and>
   face_tier_3d lstsq_orth (CELL_SIZE negative_cell_settings) 0 0 0 far_qef_3d = Inr [] \<and>
   edge_tier_3d lstsq_orth (CELL_SIZE negative_cell_settings) 0 0 0 far_qef_3d = Inr [] \<and>
   corner_tier_3d (CELL_SIZE negative_cell_settings) 0 0 0 far_qef_3d = Inr [] \<and>
   snd (solve_qef_3d negative_cell_settings lstsq_orth 0 0 0 0 1 far_store_3d) = Inl ValueError"
  by (simp add: run_simps)

section \<open>Theorems: the vertex of a cell\<close>

lemma hd_all: "xs \<noteq> [] \<Longrightarrow> list_all P xs \<Longrightarrow> P (hd xs)"
  by (cases xs) simp_all

lemma rectangular_same:
  assumes "list_all (\<lambda>r. length r = d) rows"
  shows "rectangular rows"
proof (cases "rows = []")
  case True
  then show ?thesis by (simp add: rectangular_def)
next
  case False
  from hd_all [OF False assms] have "length (hd rows) = d" .
  with assms show ?thesis by (simp add: rectangular_def)
qed

lemma make_2d_returns:
  assumes ne: "ns \<noteq> []" and n2: "list_all (\<lambda>n. length n = 2) ns"
    and p2: "list_all (\<lambda>v. length v = 2) ps" and len: "length ns \<le> length ps"
  shows "\<exists>q. make_2d ps ns = Inr q \<and> qef_ok q 2 \<and> fixed_values q = [None, None]"
proof -
  have r: "rectangular ns" by (rule rectangular_same [OF n2])
  have z: "\<not> (\<exists>(v, n) \<in> set (zip ps ns). length v < 2 \<or> length n < 2)"
  proof
    assume "\<exists>(v, n) \<in> set (zip ps ns). length v < 2 \<or> length n < 2"
    then obtain v n where vn: "(v, n) \<in> set (zip ps ns)" "length v < 2 \<or> length n < 2" by blast
    from vn(1) have "v \<in> set ps" and "n \<in> set ns" by (auto dest: set_zip_leftD set_zip_rightD)
    with n2 p2 have "length v = 2" and "length n = 2" by (simp_all add: list_all_iff)
    with vn(2) show False by simp
  qed
  let ?q = "\<lparr>qef_A = ns, qef_b = map (\<lambda>(v, n). v ! 0 * n ! 0 + v ! 1 * n ! 1) (zip ps ns),
             fixed_values = replicate (length (hd ns)) None\<rparr>"
  from r z ne have m: "make_2d ps ns = Inr ?q" unfolding make_2d_def by simp
  from hd_all [OF ne n2] have h: "length (hd ns) = 2" .
  from make_2d_ok [OF m len] h have "qef_ok ?q 2" and "fixed_values ?q = [None, None]"
    by (simp_all add: numeral_2_eq_2)
  with m show ?thesis by blast
qed

lemma make_3d_returns:
  assumes ne: "ns \<noteq> []" and n2: "list_all (\<lambda>n. length n = 3) ns"
    and p2: "list_all (\<lambda>v. length v = 3) ps" and len: "length ns \<le> length ps"
  shows "\<exists>q. make_3d ps ns = Inr q \<and> qef_ok q 3 \<and> fixed_values q = [None, None, None]"
proof -
  have r: "rectangular ns" by (rule rectangular_same [OF n2])
  have z: "\<not> (\<exists>(v, n) \<in> set (zip ps ns). length v < 3 \<or> length n < 3)"
  proof
    assume "\<exists>(v, n) \<in> set (zip ps ns). length v < 3 \<or> length n < 3"
    then obtain v n where vn: "(v, n) \<in> set (zip ps ns)" "length v < 3 \<or> length n < 3" by blast
    from vn(1) have "v \<in> set ps" and "n \<in> set ns" by (auto dest: set_zip_leftD set_zip_rightD)
    with n2 p2 have "length v = 3" and "length n = 3" by (simp_all add: list_all_iff)
    with vn(2) show False by simp
  qed
  let ?q = "\<lparr>qef_A = ns,
             qef_b = map (\<lambda>(v, n). v ! 0 * n ! 0 + v ! 1 * n ! 1 + v ! 2 * n ! 2) (zip ps ns),
             fixed_values = replicate (length (hd ns)) None\<rparr>"
  from r z ne have m: "make_3d ps ns = Inr ?q" unfolding make_3d_def by simp
  from hd_all [OF ne n2] have h: "length (hd ns) = 3" .
  from make_3d_ok [OF m len] h have "qef_ok ?q 3" and "fixed_values ?q = [None, None, None]"
    by (simp_all add: numeral_3_eq_3)
  with m show ?thesis by blast
qed

lemma mean_axis0_length:
  assumes "ps \<noteq> []" and "list_all (\<lambda>v. length v = d) ps"
  shows "\<exists>mp. mean_axis0 ps = Inr mp \<and> length mp = d"
proof -
  from hd_all [OF assms] have "length (hd ps) = d" .
  with assms(1) rectangular_same [OF assms(2)] show ?thesis by (simp add: mean_axis0_def)
qed

lemma solve_qef_2d_returns:
  assumes sh: "solver_shape lstsq" and bc: "BOUNDARY cfg \<longrightarrow> 0 \<le> CELL_SIZE cfg"
    and nc: "\<not> CLIP cfg" and ne: "changes \<noteq> []"
    and c2: "list_all (\<lambda>v. length v = 2) changes" and n2: "list_all (\<lambda>n. length n = 2) normals"
    and len: "length normals = length changes"
  shows "\<exists>v. snd (solve_qef_2d cfg lstsq x y 0 1 (\<lambda>a. if a = 0 then changes else normals)) = Inr v"
proof -
  let ?h = "\<lambda>a::nat. if a = 0 then changes else normals"
  have "\<exists>h'. (if BIAS cfg then bias_2d cfg 0 1 ?h else Inr ?h) = Inr h' \<and>
          h' 1 \<noteq> [] \<and> list_all (\<lambda>n. length n = 2) (h' 1) \<and>
          list_all (\<lambda>v. length v = 2) (h' 0) \<and> length (h' 1) \<le> length (h' 0)"
  proof (cases "BIAS cfg")
    case False
    with ne c2 n2 len show ?thesis by auto
  next
    case True
    from mean_axis0_length [OF ne c2] obtain mp where mp: "mean_axis0 changes = Inr mp"
      "length mp = 2" by blast
    from mp(1) have m: "mean_axis0 (?h 0) = Inr mp" by simp
    from bias_2d_store [of ?h 0 mp 1 cfg, OF m] obtain h' where h':
      "bias_2d cfg 0 1 ?h = Inr h'" "h' 0 = changes @ [mp, mp]"
      "h' 1 = normals @ [[BIAS_STRENGTH cfg, 0], [0, BIAS_STRENGTH cfg]]"
      by auto
    from h'(2,3) mp(2) c2 n2 len True h'(1) show ?thesis by simp
  qed
  then obtain h' where h': "(if BIAS cfg then bias_2d cfg 0 1 ?h else Inr ?h) = Inr h'"
    "h' 1 \<noteq> []" "list_all (\<lambda>n. length n = 2) (h' 1)" "list_all (\<lambda>v. length v = 2) (h' 0)"
    "length (h' 1) \<le> length (h' 0)" by blast
  from make_2d_returns [OF h'(2,3,4,5)] obtain q where q: "make_2d (h' 0) (h' 1) = Inr q"
    "qef_ok q 2" "fixed_values q = [None, None]" by blast
  from qef_cascade_2d_returns [OF sh q(2,3) bc nc, of x y] obtain v
    where "qef_cascade_2d cfg lstsq x y q = Inr v" by blast
  have "solve_qef_2d cfg lstsq x y 0 1 ?h =
          (h', bnd (make_2d (h' 0) (h' 1)) (qef_cascade_2d cfg lstsq x y))"
    unfolding solve_qef_2d_def h'(1) by simp
  with q(1) \<open>qef_cascade_2d cfg lstsq x y q = Inr v\<close> show ?thesis by simp
qed

lemma solve_qef_3d_returns:
  assumes sh: "solver_shape lstsq" and bc: "BOUNDARY cfg \<longrightarrow> 0 \<le> CELL_SIZE cfg"
    and nc: "\<not> CLIP cfg" and ne: "changes \<noteq> []"
    and c2: "list_all (\<lambda>v. length v = 3) changes" and n2: "list_all (\<lambda>n. length n = 3) normals"
    and len: "length normals = length changes"
  shows "\<exists>v. snd (solve_qef_3d cfg lstsq x y z 0 1 (\<lambda>a. if a = 0 then changes else normals)) = Inr v"
proof -
  let ?h = "\<lambda>a::nat. if a = 0 then changes else normals"
  have "\<exists>h'. (if BIAS cfg then bias_3d cfg 0 1 ?h else Inr ?h) = Inr h' \<and>
          h' 1 \<noteq> [] \<and> list_all (\<lambda>n. length n = 3) (h' 1) \<and>
          list_all (\<lambda>v. length v = 3) (h' 0) \<and> length (h' 1) \<le> length (h' 0)"
  proof (cases "BIAS cfg")
    case False
    with ne c2 n2 len show ?thesis by auto
  next
    case True
    from mean_axis0_length [OF ne c2] obtain mp where mp: "mean_axis0 changes = Inr mp"
      "length mp = 3" by blast
    from mp(1) have m: "mean_axis0 (?h 0) = Inr mp" by simp
    from bias_3d_store [of ?h 0 mp 1 cfg, OF m] obtain h' where h':
      "bias_3d cfg 0 1 ?h = Inr h'" "h' 0 = changes @ [mp, mp, mp]"
      "h' 1 = normals @ [[BIAS_STRENGTH cfg, 0, 0], [0, BIAS_STRENGTH cfg, 0],
                         [0, 0, BIAS_STRENGTH cfg]]"
      by auto
    from h'(2,3) mp(2) c2 n2 len True h'(1) show ?thesis by simp
  qed
  then obtain h' where h': "(if BIAS cfg then bias_3d cfg 0 1 ?h else Inr ?h) = Inr h'"
    "h' 1 \<noteq> []" "list_all (\<lambda>n. length n = 3) (h' 1)" "list_all (\<lambda>v. length v = 3) (h' 0)"
    "length (h' 1) \<le> length (h' 0)" by blast
  from make_3d_returns [OF h'(2,3,4,5)] obtain q where q: "make_3d (h' 0) (h' 1) = Inr q"
    "qef_ok q 3" "fixed_values q = [None, None, None]" by blast
  from qef_cascade_3d_returns [OF sh q(2,3) bc nc, of x y z] obtain v
    where "qef_cascade_3d cfg lstsq x y z q = Inr v" by blast
  have "solve_qef_3d cfg lstsq x y z 0 1 ?h =
          (h', bnd (make_3d (h' 0) (h' 1)) (qef_cascade_3d cfg lstsq x y z))"
    unfolding solve_qef_3d_def h'(1) by simp
  with q(1) \<open>qef_cascade_3d cfg lstsq x y z q = Inr v\<close> show ?thesis
    by (cases v) simp
qed

lemma collect_append:
  "collect (ms @ ns) = bnd (collect ms) (\<lambda>vs. bnd (collect ns) (\<lambda>ws. Inr (vs @ ws)))"
proof (induction ms)
  case Nil
  then show ?case by (cases "collect ns") simp_all
next
  case (Cons m ms)
  then show ?case by (cases m; cases "collect ms"; cases "collect ns") simp_all
qed

lemma changes_2d:
  "\<exists>L. collect
      [change_if ((a1 > 0) \<noteq> (b1 > 0)) (adapt True cs a1 b1) (\<lambda>a. [x + 0, y + a]),
       change_if ((a2 > 0) \<noteq> (b2 > 0)) (adapt True cs a2 b2) (\<lambda>a. [x + cs, y + a]),
       change_if ((a3 > 0) \<noteq> (b3 > 0)) (adapt True cs a3 b3) (\<lambda>a. [x + a, y + 0]),
       change_if ((a4 > 0) \<noteq> (b4 > 0)) (adapt True cs a4 b4) (\<lambda>a. [x + a, y + cs])] = Inr L \<and>
     list_all (\<lambda>v. length v = 2) (concat L) \<and>
     length (concat L) = length (filter (\<lambda>(a, b). (a > 0) \<noteq> (b > 0))
                                   [(a1, b1), (a2, b2), (a3, b3), (a4, b4)])"
  by (cases "a1 > 0"; cases "b1 > 0"; cases "a2 > 0"; cases "b2 > 0")
     (auto simp add: change_if_def adapt_def)

lemma changes_group:
  "\<exists>L. collect
      [change_if ((a1 > 0) \<noteq> (b1 > 0)) (adapt True cs a1 b1) (\<lambda>a. [p1 a, q1 a, r1 a]),
       change_if ((a2 > 0) \<noteq> (b2 > 0)) (adapt True cs a2 b2) (\<lambda>a. [p2 a, q2 a, r2 a]),
       change_if ((a3 > 0) \<noteq> (b3 > 0)) (adapt True cs a3 b3) (\<lambda>a. [p3 a, q3 a, r3 a]),
       change_if ((a4 > 0) \<noteq> (b4 > 0)) (adapt True cs a4 b4) (\<lambda>a. [p4 a, q4 a, r4 a])] = Inr L \<and>
     list_all (\<lambda>v. length v = 3) (concat L) \<and>
     length (concat L) = length (filter (\<lambda>(a, b). (a > 0) \<noteq> (b > 0))
                                   [(a1, b1), (a2, b2), (a3, b3), (a4, b4)])"
  by (cases "a1 > 0"; cases "b1 > 0"; cases "a2 > 0"; cases "b2 > 0")
     (auto simp add: change_if_def adapt_def)

lemma find_best_vertex_2d_unfold:
  assumes ad: "ADAPTIVE cfg"
  shows "\<exists>changes. list_all (\<lambda>v. length v = 2) changes \<and>
     length changes = sign_changes_2d f (CELL_SIZE cfg) x y \<and>
     dual_contour_2d_find_best_vertex cfg lstsq f fn x y =
       (if length changes \<le> 1 then Inr None
        else bnd (snd (solve_qef_2d cfg lstsq x y 0 1
                    (\<lambda>a. if a = 0 then changes
                         else map (\<lambda>v. case fn (v ! 0) (v ! 1) of (nx, ny) \<Rightarrow> [nx, ny]) changes)))
               (\<lambda>v. Inr (Some v)))"
proof -
  let ?cs = "CELL_SIZE cfg"
  from changes_2d [of "f x y" "f x (y + ?cs)" ?cs x y "f (x + ?cs) y" "f (x + ?cs) (y + ?cs)"
      "f x y" "f (x + ?cs) y" "f x (y + ?cs)" "f (x + ?cs) (y + ?cs)"]
  obtain L where L: "collect
      [change_if ((f x y > 0) \<noteq> (f x (y + ?cs) > 0)) (adapt True ?cs (f x y) (f x (y + ?cs)))
         (\<lambda>a. [x + 0, y + a]),
       change_if ((f (x + ?cs) y > 0) \<noteq> (f (x + ?cs) (y + ?cs) > 0))
         (adapt True ?cs (f (x + ?cs) y) (f (x + ?cs) (y + ?cs))) (\<lambda>a. [x + ?cs, y + a]),
       change_if ((f x y > 0) \<noteq> (f (x + ?cs) y > 0)) (adapt True ?cs (f x y) (f (x + ?cs) y))
         (\<lambda>a. [x + a, y + 0]),
       change_if ((f x (y + ?cs) > 0) \<noteq> (f (x + ?cs) (y + ?cs) > 0))
         (adapt True ?cs (f x (y + ?cs)) (f (x + ?cs) (y + ?cs))) (\<lambda>a. [x + a, y + ?cs])] = Inr L"
    and l2: "list_all (\<lambda>v. length v = 2) (concat L)"
    and cnt: "length (concat L) = length (filter (\<lambda>(a, b). (a > 0) \<noteq> (b > 0))
        [(f x y, f x (y + ?cs)), (f (x + ?cs) y, f (x + ?cs) (y + ?cs)),
         (f x y, f (x + ?cs) y), (f x (y + ?cs), f (x + ?cs) (y + ?cs))])"
    by blast
  have sc: "sign_changes_2d f ?cs x y = length (filter (\<lambda>(a, b). (a > 0) \<noteq> (b > 0))
        [(f x y, f x (y + ?cs)), (f (x + ?cs) y, f (x + ?cs) (y + ?cs)),
         (f x y, f (x + ?cs) y), (f x (y + ?cs), f (x + ?cs) (y + ?cs))])"
    by (simp add: sign_changes_2d_def cell_edges_2d_def)
  have "dual_contour_2d_find_best_vertex cfg lstsq f fn x y =
       (if length (concat L) \<le> 1 then Inr None
        else bnd (snd (solve_qef_2d cfg lstsq x y 0 1
                    (\<lambda>a. if a = 0 then concat L
                         else map (\<lambda>v. case fn (v ! 0) (v ! Suc 0) of (nx, ny) \<Rightarrow> [nx, ny]) (concat L))))
               (\<lambda>v. Inr (Some v)))"
    using ad L by (simp add: dual_contour_2d_find_best_vertex_def Let_def)
  then have "dual_contour_2d_find_best_vertex cfg lstsq f fn x y =
       (if length (concat L) \<le> 1 then Inr None
        else bnd (snd (solve_qef_2d cfg lstsq x y 0 1
                    (\<lambda>a. if a = 0 then concat L
                         else map (\<lambda>v. case fn (v ! 0) (v ! 1) of (nx, ny) \<Rightarrow> [nx, ny]) (concat L))))
               (\<lambda>v. Inr (Some v)))"
    by (simp only: One_nat_def)
  moreover from cnt sc have "length (concat L) = sign_changes_2d f ?cs x y" by (simp only:)
  ultimately show ?thesis using l2 by blast
qed

lemma filter_samples_3d:
  "length (filter (\<lambda>((px, py, pz), (qx, qy, qz)). (f px py pz > 0) \<noteq> (f qx qy qz > 0)) es) =
   length (filter (\<lambda>(a, b). (a > 0) \<noteq> (b > 0))
             (map (\<lambda>((px, py, pz), (qx, qy, qz)). (f px py pz, f qx qy qz)) es))"
  by (induction es) auto

lemma find_best_vertex_3d_unfold:
  assumes ad: "ADAPTIVE cfg"
  shows "\<exists>changes. list_all (\<lambda>v. length v = 3) changes \<and>
     length changes = sign_changes_3d f (CELL_SIZE cfg) x y z \<and>
     dual_contour_3d_find_best_vertex cfg lstsq f fn x y z =
       (if length changes \<le> 1 then Inr None
        else bnd (snd (solve_qef_3d cfg lstsq x y z 0 1
                    (\<lambda>a. if a = 0 then changes
                         else map (\<lambda>v. case fn (v ! 0) (v ! 1) (v ! 2) of (nx, ny, nz) \<Rightarrow> [nx, ny, nz])
                                changes)))
               (\<lambda>v. Inr (Some v)))"
proof -
  let ?cs = "CELL_SIZE cfg"
  let ?s = "\<lambda>dx dy dz. f (x + dx * ?cs) (y + dy * ?cs) (z + dz * ?cs)"
  let ?P = "\<lambda>(a :: real, b :: real). (a > 0) \<noteq> (b > 0)"
  let ?G1 = "[change_if ((?s 0 0 0 > 0) \<noteq> (?s 0 0 1 > 0)) (adapt True ?cs (?s 0 0 0) (?s 0 0 1))
                (\<lambda>a. [x + 0 * ?cs, y + 0 * ?cs, z + a]),
              change_if ((?s 0 1 0 > 0) \<noteq> (?s 0 1 1 > 0)) (adapt True ?cs (?s 0 1 0) (?s 0 1 1))
                (\<lambda>a. [x + 0 * ?cs, y + 1 * ?cs, z + a]),
              change_if ((?s 1 0 0 > 0) \<noteq> (?s 1 0 1 > 0)) (adapt True ?cs (?s 1 0 0) (?s 1 0 1))
                (\<lambda>a. [x + 1 * ?cs, y + 0 * ?cs, z + a]),
              change_if ((?s 1 1 0 > 0) \<noteq> (?s 1 1 1 > 0)) (adapt True ?cs (?s 1 1 0) (?s 1 1 1))
                (\<lambda>a. [x + 1 * ?cs, y + 1 * ?cs, z + a])]"
  let ?G2 = "[change_if ((?s 0 0 0 > 0) \<noteq> (?s 0 1 0 > 0)) (adapt True ?cs (?s 0 0 0) (?s 0 1 0))
                (\<lambda>a. [x + 0 * ?cs, y + a, z + 0 * ?cs]),
              change_if ((?s 0 0 1 > 0) \<noteq> (?s 0 1 1 > 0)) (adapt True ?cs (?s 0 0 1) (?s 0 1 1))
                (\<lambda>a. [x + 0 * ?cs, y + a, z + 1 * ?cs]),
              change_if ((?s 1 0 0 > 0) \<noteq> (?s 1 1 0 > 0)) (adapt True ?cs (?s 1 0 0) (?s 1 1 0))
                (\<lambda>a. [x + 1 * ?cs, y + a, z + 0 * ?cs]),
              change_if ((?s 1 0 1 > 0) \<noteq> (?s 1 1 1 > 0)) (adapt True ?cs (?s 1 0 1) (?s 1 1 1))
                (\<lambda>a. [x + 1 * ?cs, y + a, z + 1 * ?cs])]"
  let ?G3 = "[change_if ((?s 0 0 0 > 0) \<noteq> (?s 1 0 0 > 0)) (adapt True ?cs (?s 0 0 0) (?s 1 0 0))
                (\<lambda>a. [x + a, y + 0 * ?cs, z + 0 * ?cs]),
              change_if ((?s 0 0 1 > 0) \<noteq> (?s 1 0 1 > 0)) (adapt True ?cs (?s 0 0 1) (?s 1 0 1))
                (\<lambda>a. [x + a, y + 0 * ?cs, z + 1 * ?cs]),
              change_if ((?s 0 1 0 > 0) \<noteq> (?s 1 1 0 > 0)) (adapt True ?cs (?s 0 1 0) (?s 1 1 0))
                (\<lambda>a. [x + a, y + 1 * ?cs, z + 0 * ?cs]),
              change_if ((?s 0 1 1 > 0) \<noteq> (?s 1 1 1 > 0)) (adapt True ?cs (?s 0 1 1) (?s 1 1 1))
                (\<lambda>a. [x + a, y + 1 * ?cs, z + 1 * ?cs])]"
  let ?S1 = "[(?s 0 0 0, ?s 0 0 1), (?s 0 1 0, ?s 0 1 1), (?s 1 0 0, ?s 1 0 1), (?s 1 1 0, ?s 1 1 1)]"
  let ?S2 = "[(?s 0 0 0, ?s 0 1 0), (?s 0 0 1, ?s 0 1 1), (?s 1 0 0, ?s 1 1 0), (?s 1 0 1, ?s 1 1 1)]"
  let ?S3 = "[(?s 0 0 0, ?s 1 0 0), (?s 0 0 1, ?s 1 0 1), (?s 0 1 0, ?s 1 1 0), (?s 0 1 1, ?s 1 1 1)]"
  from changes_group [of "?s 0 0 0" "?s 0 0 1" ?cs "\<lambda>a. x + 0 * ?cs" "\<lambda>a. y + 0 * ?cs" "\<lambda>a. z + a"
      "?s 0 1 0" "?s 0 1 1" "\<lambda>a. x + 0 * ?cs" "\<lambda>a. y + 1 * ?cs" "\<lambda>a. z + a"
      "?s 1 0 0" "?s 1 0 1" "\<lambda>a. x + 1 * ?cs" "\<lambda>a. y + 0 * ?cs" "\<lambda>a. z + a"
      "?s 1 1 0" "?s 1 1 1" "\<lambda>a. x + 1 * ?cs" "\<lambda>a. y + 1 * ?cs" "\<lambda>a. z + a"]
  obtain L1 where L1: "collect ?G1 = Inr L1" "list_all (\<lambda>v. length v = 3) (concat L1)"
    "length (concat L1) = length (filter ?P ?S1)" by blast
  from changes_group [of "?s 0 0 0" "?s 0 1 0" ?cs "\<lambda>a. x + 0 * ?cs" "\<lambda>a. y + a" "\<lambda>a. z + 0 * ?cs"
      "?s 0 0 1" "?s 0 1 1" "\<lambda>a. x + 0 * ?cs" "\<lambda>a. y + a" "\<lambda>a. z + 1 * ?cs"
      "?s 1 0 0" "?s 1 1 0" "\<lambda>a. x + 1 * ?cs" "\<lambda>a. y + a" "\<lambda>a. z + 0 * ?cs"
      "?s 1 0 1" "?s 1 1 1" "\<lambda>a. x + 1 * ?cs" "\<lambda>a. y + a" "\<lambda>a. z + 1 * ?cs"]
  obtain L2 where L2: "collect ?G2 = Inr L2" "list_all (\<lambda>v. length v = 3) (concat L2)"
    "length (concat L2) = length (filter ?P ?S2)" by blast
  from changes_group [of "?s 0 0 0" "?s 1 0 0" ?cs "\<lambda>a. x + a" "\<lambda>a. y + 0 * ?cs" "\<lambda>a. z + 0 * ?cs"
      "?s 0 0 1" "?s 1 0 1" "\<lambda>a. x + a" "\<lambda>a. y + 0 * ?cs" "\<lambda>a. z + 1 * ?cs"
      "?s 0 1 0" "?s 1 1 0" "\<lambda>a. x + a" "\<lambda>a. y + 1 * ?cs" "\<lambda>a. z + 0 * ?cs"
      "?s 0 1 1" "?s 1 1 1" "\<lambda>a. x + a" "\<lambda>a. y + 1 * ?cs" "\<lambda>a. z + 1 * ?cs"]
  obtain L3 where L3: "collect ?G3 = Inr L3" "list_all (\<lambda>v. length v = 3) (concat L3)"
    "length (concat L3) = length (filter ?P ?S3)" by blast
  let ?L = "L1 @ L2 @ L3"
  have c: "collect (?G1 @ ?G2 @ ?G3) = Inr ?L"
    by (simp only: collect_append L1(1) L2(1) L3(1) bnd_Inr)
  have l3: "list_all (\<lambda>v. length v = 3) (concat ?L)"
    using L1(2) L2(2) L3(2) by simp
  have "map (\<lambda>((px, py, pz), (qx, qy, qz)). (f px py pz, f qx qy qz)) (cell_edges_3d ?cs x y z)
          = ?S1 @ ?S2 @ ?S3"
    by (simp add: cell_edges_3d_def)
  then have "sign_changes_3d f ?cs x y z = length (filter ?P (?S1 @ ?S2 @ ?S3))"
    unfolding sign_changes_3d_def filter_samples_3d by (simp only:)
  also have "\<dots> = length (concat ?L)"
    by (simp only: filter_append length_append concat_append L1(3) L2(3) L3(3))
  finally have cnt: "length (concat ?L) = sign_changes_3d f ?cs x y z" by (simp only:)
  let ?K = "\<lambda>appended. let changes = concat appended in
          if length changes \<le> 1 then Inr None
          else
            let normals =
              map (\<lambda>v. case fn (v ! 0) (v ! 1) (v ! 2) of (nx, ny, nz) \<Rightarrow> [nx, ny, nz]) changes
            in bnd (snd (solve_qef_3d cfg lstsq x y z 0 1 (\<lambda>a. if a = 0 then changes else normals)))
                 (\<lambda>v. Inr (Some v))"
  have step: "dual_contour_3d_find_best_vertex cfg lstsq f fn x y z = bnd (collect (?G1 @ ?G2 @ ?G3)) ?K"
    using ad by (simp add: dual_contour_3d_find_best_vertex_def Let_def)
  have "dual_contour_3d_find_best_vertex cfg lstsq f fn x y z = ?K ?L"
    by (simp only: step c bnd_Inr)
  then have "dual_contour_3d_find_best_vertex cfg lstsq f fn x y z =
       (if length (concat ?L) \<le> 1 then Inr None
        else bnd (snd (solve_qef_3d cfg lstsq x y z 0 1
                    (\<lambda>a. if a = 0 then concat ?L
                         else map (\<lambda>v. case fn (v ! 0) (v ! 1) (v ! 2) of (nx, ny, nz) \<Rightarrow> [nx, ny, nz])
                                (concat ?L))))
               (\<lambda>v. Inr (Some v)))"
    by (simp only: Let_def)
  with l3 cnt show ?thesis by blast
qed

lemma bnd_Some_not_None: "bnd m (\<lambda>v. Inr (Some v)) \<noteq> Inr None"
  by (cases m) simp_all

lemma find_2d_none_iff:
  assumes "ADAPTIVE cfg"
  shows "dual_contour_2d_find_best_vertex cfg lstsq f fn x y = Inr None \<longleftrightarrow>
         sign_changes_2d f (CELL_SIZE cfg) x y < 2"
proof -
  from find_best_vertex_2d_unfold [OF assms, of f x y lstsq fn] obtain changes
    where c: "length changes = sign_changes_2d f (CELL_SIZE cfg) x y"
      "dual_contour_2d_find_best_vertex cfg lstsq f fn x y =
       (if length changes \<le> 1 then Inr None
        else bnd (snd (solve_qef_2d cfg lstsq x y 0 1
                    (\<lambda>a. if a = 0 then changes
                         else map (\<lambda>v. case fn (v ! 0) (v ! 1) of (nx, ny) \<Rightarrow> [nx, ny]) changes)))
               (\<lambda>v. Inr (Some v)))"
    by blast
  show ?thesis
  proof (cases "length changes \<le> 1")
    case True
    with c show ?thesis by simp
  next
    case False
    with c(2) have "dual_contour_2d_find_best_vertex cfg lstsq f fn x y \<noteq> Inr None"
      by (simp only: if_False bnd_Some_not_None not_False_eq_True)
    with False c(1) show ?thesis by simp
  qed
qed

lemma find_3d_none_iff:
  assumes "ADAPTIVE cfg"
  shows "dual_contour_3d_find_best_vertex cfg lstsq f fn x y z = Inr None \<longleftrightarrow>
         sign_changes_3d f (CELL_SIZE cfg) x y z < 2"
proof -
  from find_best_vertex_3d_unfold [OF assms, of f x y z lstsq fn] obtain changes
    where c: "length changes = sign_changes_3d f (CELL_SIZE cfg) x y z"
      "dual_contour_3d_find_best_vertex cfg lstsq f fn x y z =
       (if length changes \<le> 1 then Inr None
        else bnd (snd (solve_qef_3d cfg lstsq x y z 0 1
                    (\<lambda>a. if a = 0 then changes
                         else map (\<lambda>v. case fn (v ! 0) (v ! 1) (v ! 2) of (nx, ny, nz) \<Rightarrow> [nx, ny, nz])
                                changes)))
               (\<lambda>v. Inr (Some v)))"
    by blast
  show ?thesis
  proof (cases "length changes \<le> 1")
    case True
    with c show ?thesis by simp
  next
    case False
    with c(2) have "dual_contour_3d_find_best_vertex cfg lstsq f fn x y z \<noteq> Inr None"
      by (simp only: if_False bnd_Some_not_None not_False_eq_True)
    with False c(1) show ?thesis by simp
  qed
qed

lemma find_2d_returns:
  assumes ad: "ADAPTIVE cfg" and sh: "solver_shape lstsq"
    and bc: "BOUNDARY cfg \<longrightarrow> 0 \<le> CELL_SIZE cfg" and nc: "\<not> CLIP cfg"
    and two: "2 \<le> sign_changes_2d f (CELL_SIZE cfg) x y"
  shows "\<exists>v. dual_contour_2d_find_best_vertex cfg lstsq f fn x y = Inr (Some v)"
proof -
  from find_best_vertex_2d_unfold [OF ad, of f x y lstsq fn] obtain changes
    where c: "list_all (\<lambda>v. length v = 2) changes"
      "length changes = sign_changes_2d f (CELL_SIZE cfg) x y"
      "dual_contour_2d_find_best_vertex cfg lstsq f fn x y =
       (if length changes \<le> 1 then Inr None
        else bnd (snd (solve_qef_2d cfg lstsq x y 0 1
                    (\<lambda>a. if a = 0 then changes
                         else map (\<lambda>v. case fn (v ! 0) (v ! 1) of (nx, ny) \<Rightarrow> [nx, ny]) changes)))
               (\<lambda>v. Inr (Some v)))"
    by blast
  let ?normals = "map (\<lambda>v. case fn (v ! 0) (v ! 1) of (nx, ny) \<Rightarrow> [nx, ny]) changes"
  from two c(2) have ne: "changes \<noteq> []" and big: "\<not> length changes \<le> 1" by auto
  have n2: "list_all (\<lambda>n. length n = 2) ?normals"
    by (simp add: list_all_iff split: prod.splits)
  have len: "length ?normals = length changes" by simp
  from solve_qef_2d_returns [OF sh bc nc ne c(1) n2 len, of x y] obtain v
    where "snd (solve_qef_2d cfg lstsq x y 0 1 (\<lambda>a. if a = 0 then changes else ?normals)) = Inr v"
    by blast
  with c(3) big have "dual_contour_2d_find_best_vertex cfg lstsq f fn x y = Inr (Some v)"
    by (simp only: if_False bnd_Inr)
  then show ?thesis by blast
qed

lemma find_3d_returns:
  assumes ad: "ADAPTIVE cfg" and sh: "solver_shape lstsq"
    and bc: "BOUNDARY cfg \<longrightarrow> 0 \<le> CELL_SIZE cfg" and nc: "\<not> CLIP cfg"
    and two: "2 \<le> sign_changes_3d f (CELL_SIZE cfg) x y z"
  shows "\<exists>v. dual_contour_3d_find_best_vertex cfg lstsq f fn x y z = Inr (Some v)"
proof -
  from find_best_vertex_3d_unfold [OF ad, of f x y z lstsq fn] obtain changes
    where c: "list_all (\<lambda>v. length v = 3) changes"
      "length changes = sign_changes_3d f (CELL_SIZE cfg) x y z"
      "dual_contour_3d_find_best_vertex cfg lstsq f fn x y z =
       (if length changes \<le> 1 then Inr None
        else bnd (snd (solve_qef_3d cfg lstsq x y z 0 1
                    (\<lambda>a. if a = 0 then changes
                         else map (\<lambda>v. case fn (v ! 0) (v ! 1) (v ! 2) of (nx, ny, nz) \<Rightarrow> [nx, ny, nz])
                                changes)))
               (\<lambda>v. Inr (Some v)))"
    by blast
  let ?normals = "map (\<lambda>v. case fn (v ! 0) (v ! 1) (v ! 2) of (nx, ny, nz) \<Rightarrow> [nx, ny, nz]) changes"
  from two c(2) have ne: "changes \<noteq> []" and big: "\<not> length changes \<le> 1" by auto
  have n2: "list_all (\<lambda>n. length n = 3) ?normals"
    by (simp add: list_all_iff split: prod.splits)
  have len: "length ?normals = length changes" by simp
  from solve_qef_3d_returns [OF sh bc nc ne c(1) n2 len, of x y z] obtain v
    where "snd (solve_qef_3d cfg lstsq x y z 0 1 (\<lambda>a. if a = 0 then changes else ?normals)) = Inr v"
    by blast
  with c(3) big have "dual_contour_3d_find_best_vertex cfg lstsq f fn x y z = Inr (Some v)"
    by (simp only: if_False bnd_Inr)
  then show ?thesis by blast
qed

lemma find_not_adaptive:
  assumes "\<not> ADAPTIVE cfg"
  shows "dual_contour_2d_find_best_vertex cfg lstsq f fn x y =
           Inr (Some (x + 0.5 * CELL_SIZE cfg, y + 0.5 * CELL_SIZE cfg))"
    and "dual_contour_3d_find_best_vertex cfg lstsq g gn x y z =
           Inr (Some (x + 0.5 * CELL_SIZE cfg, y + 0.5 * CELL_SIZE cfg, z + 0.5 * CELL_SIZE cfg))"
  using assms
  by (simp_all add: dual_contour_2d_find_best_vertex_def dual_contour_3d_find_best_vertex_def Let_def)

text \<open>Claim C5, as the code has it. With \<^verbatim>\<open>ADAPTIVE\<close> on, \<^verbatim>\<open>dual_contour_2d_find_best_vertex\<close> and
  \<^verbatim>\<open>dual_contour_3d_find_best_vertex\<close> return \<open>None\<close> exactly for the cells with fewer than two
  sign-changing edges; for the other cells they return a vertex position (shown for a solver
  that returns one entry per column, \<^verbatim>\<open>CLIP\<close> off and, under \<^verbatim>\<open>BOUNDARY\<close>, a cell size that is
  not negative). With \<^verbatim>\<open>ADAPTIVE\<close> off they return the centre of the cell for every cell and
  never \<open>None\<close>.\<close>

theorem find_best_vertex_none_iff_few_changes:
  "(ADAPTIVE cfg \<longrightarrow>
      (dual_contour_2d_find_best_vertex cfg lstsq f fn x y = Inr None \<longleftrightarrow>
         sign_changes_2d f (CELL_SIZE cfg) x y < 2) \<and>
      (dual_contour_3d_find_best_vertex cfg lstsq g gn x y z = Inr None \<longleftrightarrow>
         sign_changes_3d g (CELL_SIZE cfg) x y z < 2)) \<and>
   (ADAPTIVE cfg \<and> solver_shape lstsq \<and> (BOUNDARY cfg \<longrightarrow> 0 \<le> CELL_SIZE cfg) \<and> \<not> CLIP cfg \<longrightarrow>
      (2 \<le> sign_changes_2d f (CELL_SIZE cfg) x y \<longrightarrow>
         (\<exists>v. dual_contour_2d_find_best_vertex cfg lstsq f fn x y = Inr (Some v))) \<and>
      (2 \<le> sign_changes_3d g (CELL_SIZE cfg) x y z \<longrightarrow>
         (\<exists>v. dual_contour_3d_find_best_vertex cfg lstsq g gn x y z = Inr (Some v)))) \<and>
   (\<not> ADAPTIVE cfg \<longrightarrow>
      dual_contour_2d_find_best_vertex cfg lstsq f fn x y =
        Inr (Some (x + 0.5 * CELL_SIZE cfg, y + 0.5 * CELL_SIZE cfg)) \<and>
      dual_contour_3d_find_best_vertex cfg lstsq g gn x y z =
        Inr (Some (x + 0.5 * CELL_SIZE cfg, y + 0.5 * CELL_SIZE cfg, z + 0.5 * CELL_SIZE cfg)))"
  using find_2d_none_iff [of cfg lstsq f fn x y] find_3d_none_iff [of cfg lstsq g gn x y z]
    find_2d_returns [of cfg lstsq f x y fn] find_3d_returns [of cfg lstsq g x y z gn]
    find_not_adaptive(1) [of cfg lstsq f fn x y] find_not_adaptive(2) [of cfg lstsq g gn x y z]
  by blast

lemma tie_sign_changes:
  "sign_changes_2d tie_field 1 0 0 = 2 \<and> sign_changes_3d tie_field_3d 1 0 0 0 = 3 \<and>
   sign_changes_2d outside_field_2d 1 0 0 = 0 \<and> sign_changes_3d outside_field_3d 1 0 0 0 = 0"
  by (simp add: sign_changes_2d_def sign_changes_3d_def cell_edges_2d_def cell_edges_3d_def
      tie_field_def tie_field_3d_def outside_field_2d_def outside_field_3d_def)

theorem find_best_vertex_none_iff_few_changes_witness:
  "ADAPTIVE default_settings \<and> solver_shape lstsq_orth \<and> BOUNDARY default_settings \<and>
   0 \<le> CELL_SIZE default_settings \<and> \<not> CLIP default_settings \<and>
   2 \<le> sign_changes_2d tie_field (CELL_SIZE default_settings) 0 0 \<and>
   2 \<le> sign_changes_3d tie_field_3d (CELL_SIZE default_settings) 0 0 0 \<and>
   (\<exists>v. dual_contour_2d_find_best_vertex default_settings lstsq_orth tie_field flat_normal_2d 0 0
          = Inr (Some v)) \<and>
   (\<exists>v. dual_contour_3d_find_best_vertex default_settings lstsq_orth tie_field_3d flat_normal_3d 0 0 0
          = Inr (Some v)) \<and>
   sign_changes_2d outside_field_2d (CELL_SIZE default_settings) 0 0 < 2 \<and>
   dual_contour_2d_find_best_vertex default_settings lstsq_orth outside_field_2d flat_normal_2d 0 0
     = Inr None \<and>
   \<not> ADAPTIVE midpoint_settings \<and>
   dual_contour_2d_find_best_vertex midpoint_settings lstsq_orth tie_field flat_normal_2d 0 0
     = Inr (Some (0.5, 0.5))"
proof -
  have s: "ADAPTIVE default_settings \<and> BOUNDARY default_settings \<and> CELL_SIZE default_settings = 1 \<and>
      \<not> CLIP default_settings \<and> \<not> ADAPTIVE midpoint_settings \<and> CELL_SIZE midpoint_settings = 1"
    by (simp add: default_settings_def midpoint_settings_def)
  note a = find_best_vertex_none_iff_few_changes [of default_settings lstsq_orth tie_field
      flat_normal_2d 0 0 tie_field_3d flat_normal_3d 0]
  note b = find_best_vertex_none_iff_few_changes [of default_settings lstsq_orth outside_field_2d
      flat_normal_2d 0 0 outside_field_3d flat_normal_3d 0]
  note c = find_best_vertex_none_iff_few_changes [of midpoint_settings lstsq_orth tie_field
      flat_normal_2d 0 0 tie_field_3d flat_normal_3d 0]
  from a s solver_shape_lstsq_orth tie_sign_changes
  have a2: "\<exists>v. dual_contour_2d_find_best_vertex default_settings lstsq_orth tie_field flat_normal_2d 0 0
          = Inr (Some v)"
    and a3: "\<exists>v. dual_contour_3d_find_best_vertex default_settings lstsq_orth tie_field_3d
          flat_normal_3d 0 0 0 = Inr (Some v)"
    by simp_all
  from b s tie_sign_changes
  have b2: "dual_contour_2d_find_best_vertex default_settings lstsq_orth outside_field_2d
      flat_normal_2d 0 0 = Inr None"
    by simp
  from c s have c2: "dual_contour_2d_find_best_vertex midpoint_settings lstsq_orth tie_field
      flat_normal_2d 0 0 = Inr (Some (0.5, 0.5))"
    by simp
  from s solver_shape_lstsq_orth tie_sign_changes a2 a3 b2 c2 show ?thesis by simp
qed

text \<open>The claim as the specification words it holds for every cell. With \<^verbatim>\<open>ADAPTIVE\<close> off, a
  cell of a field that is negative everywhere has no sign-changing edge, and both functions
  return the centre of the cell, not \<open>None\<close>.\<close>

theorem find_best_vertex_centre_counterexample:
  "sign_changes_2d outside_field_2d (CELL_SIZE midpoint_settings) 0 0 = 0 \<and>
   dual_contour_2d_find_best_vertex midpoint_settings lstsq_orth outside_field_2d flat_normal_2d 0 0
     = Inr (Some (0.5, 0.5)) \<and>
   sign_changes_3d outside_field_3d (CELL_SIZE midpoint_settings) 0 0 0 = 0 \<and>
   dual_contour_3d_find_best_vertex midpoint_settings lstsq_orth outside_field_3d flat_normal_3d 0 0 0
     = Inr (Some (0.5, 0.5, 0.5))"
  by (simp add: sign_changes_2d_def sign_changes_3d_def cell_edges_2d_def cell_edges_3d_def
      outside_field_2d_def outside_field_3d_def midpoint_settings_def default_settings_def
      dual_contour_2d_find_best_vertex_def dual_contour_3d_find_best_vertex_def Let_def)

end
